(* ===== verification/Prelude.thy ===== *)
theory Prelude
  imports Main "HOL-Library.Word"
begin

text \<open>
  Shared vocabulary of the development: the machine integer types of the program, byte strings,
  the fact collections the component proofs use, and the generic lemmas on lists, maps and words
  that more than one component needs.

  A \<^verbatim>\<open>std::string\<close> is a sequence of bytes, modelled as \<^typ>\<open>string\<close> (a \<^typ>\<open>char\<close> is one byte);
  a \<^verbatim>\<open>std::uint8_t\<close> buffer is a list of 8-bit words.  \<open>chars_of_bytes\<close> and \<open>bytes_of_chars\<close>
  are the \<^verbatim>\<open>reinterpret_cast\<close>s between the two views of a buffer.
\<close>

unbundle bit_operations_syntax

type_synonym u8 = "8 word"
type_synonym u16 = "16 word"
type_synonym u32 = "32 word"
type_synonym u64 = "64 word"
type_synonym bytes = "u8 list"

named_theorems wire_simps \<open>layout of headers and frames\<close>
named_theorems inv_intros \<open>preservation of the component invariants\<close>
named_theorems frame_simps \<open>fields an operation leaves unchanged\<close>

definition char_of_byte :: "u8 \<Rightarrow> char" where
  "char_of_byte b = char_of (unat b)"

definition byte_of_char :: "char \<Rightarrow> u8" where
  "byte_of_char c = word_of_nat (of_char c)"

abbreviation chars_of_bytes :: "bytes \<Rightarrow> string" where
  "chars_of_bytes \<equiv> map char_of_byte"

abbreviation bytes_of_chars :: "string \<Rightarrow> bytes" where
  "bytes_of_chars \<equiv> map byte_of_char"

lemma unat_u8_less [simp]: "unat (b :: u8) < 256"
  using unsigned_less [of b] by simp

lemma byte_of_char_of_byte [simp]: "byte_of_char (char_of_byte b) = b"
  by (simp add: byte_of_char_def char_of_byte_def)

lemma char_of_byte_of_char [simp]: "char_of_byte (byte_of_char c) = c"
proof -
  have "of_char c < (256 :: nat)" by simp
  then have "unat (byte_of_char c) = of_char c"
    unfolding byte_of_char_def by (simp add: unat_of_nat take_bit_eq_mod)
  then show ?thesis by (simp add: char_of_byte_def)
qed

lemma bytes_of_chars_of_bytes [simp]: "bytes_of_chars (chars_of_bytes bs) = bs"
  by (induction bs) simp_all

lemma chars_of_bytes_of_chars [simp]: "chars_of_bytes (bytes_of_chars cs) = cs"
  by (induction cs) simp_all

lemma byte_char_comp [simp]: "byte_of_char \<circ> char_of_byte = id" "char_of_byte \<circ> byte_of_char = id"
  by (simp_all add: fun_eq_iff)

lemma unat_word_of_nat [simp]: "n < 2 ^ LENGTH('a) \<Longrightarrow> unat (word_of_nat n :: 'a::len word) = n"
  by (simp add: unat_of_nat)

lemma word_of_nat_inj:
  "\<lbrakk>m < 2 ^ LENGTH('a); n < 2 ^ LENGTH('a); (word_of_nat m :: 'a::len word) = word_of_nat n\<rbrakk> \<Longrightarrow> m = n"
  by (metis unat_word_of_nat)

subsection \<open>Decimal output\<close>

text \<open>\<^verbatim>\<open>std::to_string\<close> of an unsigned number.\<close>

fun dec_digits :: "nat \<Rightarrow> string" where
  "dec_digits n =
     (if n < 10 then [char_of (48 + n)] else dec_digits (n div 10) @ [char_of (48 + n mod 10)])"

declare dec_digits.simps [simp del]

lemma dec_digits_ne [simp]: "dec_digits n \<noteq> []"
  by (subst dec_digits.simps) simp

subsection \<open>Runs of a transition system\<close>

text \<open>
  \<open>runs step s es t\<close>: the events \<open>es\<close>, in order, lead from \<open>s\<close> to \<open>t\<close>.  A relation between the
  history and the state that every step extends holds after every run; a plain invariant is the
  special case that ignores the history.
\<close>

inductive runs :: "('s \<Rightarrow> 'e \<Rightarrow> 's \<Rightarrow> bool) \<Rightarrow> 's \<Rightarrow> 'e list \<Rightarrow> 's \<Rightarrow> bool"
  for step :: "'s \<Rightarrow> 'e \<Rightarrow> 's \<Rightarrow> bool" where
  runs_nil: "runs step s [] s"
| runs_snoc: "\<lbrakk>runs step s es t; step t e u\<rbrakk> \<Longrightarrow> runs step s (es @ [e]) u"

lemma runs_cons: "\<lbrakk>step s e t; runs step t es u\<rbrakk> \<Longrightarrow> runs step s (e # es) u"
proof (induction es arbitrary: u rule: rev_induct)
  case Nil
  then have "t = u" by (auto elim: runs.cases)
  with Nil.prems(1) show ?case using runs_snoc [OF runs_nil, of step s e u] by simp
next
  case (snoc e' es)
  from snoc.prems(2) obtain v where "runs step t es v" "step v e' u"
    by (auto elim: runs.cases)
  with snoc.IH snoc.prems(1) have "runs step s (e # es) v" "step v e' u" by auto
  then show ?case using runs_snoc by fastforce
qed

lemma runs_append: "\<lbrakk>runs step a es b; runs step b fs c\<rbrakk> \<Longrightarrow> runs step a (es @ fs) c"
  by (rotate_tac, induction rule: runs.induct) (auto simp flip: append_assoc intro: runs_snoc)

locale history_invariant =
  fixes step :: "'s \<Rightarrow> 'e \<Rightarrow> 's \<Rightarrow> bool"
    and hinv :: "'e list \<Rightarrow> 's \<Rightarrow> bool"
  assumes hinv_step: "\<lbrakk>hinv es s; step s e t\<rbrakk> \<Longrightarrow> hinv (es @ [e]) t"
begin

lemma hinv_runs: "\<lbrakk>runs step s es t; hinv [] s\<rbrakk> \<Longrightarrow> hinv es t"
  by (induction rule: runs.induct) (auto intro: hinv_step)

end

locale inductive_invariant =
  fixes step :: "'s \<Rightarrow> 'e \<Rightarrow> 's \<Rightarrow> bool"
    and inv :: "'s \<Rightarrow> bool"
  assumes inv_step: "\<lbrakk>inv s; step s e t\<rbrakk> \<Longrightarrow> inv t"

sublocale inductive_invariant \<subseteq> hist: history_invariant step "\<lambda>_. inv"
  by unfold_locales (rule inv_step)

context inductive_invariant
begin

lemma inv_runs: "\<lbrakk>runs step s es t; inv s\<rbrakk> \<Longrightarrow> inv t"
  by (rule hist.hinv_runs)

end

end
