(* ===== verification/Config_Load.thy ===== *)
theory Config_Load
  imports Prelude
begin

text \<open>
  \<^verbatim>\<open>fwd/config.hpp\<close>, \<^verbatim>\<open>fwd/session_policy.hpp\<close> and \<^verbatim>\<open>load_config_or_throw\<close> of \<^verbatim>\<open>main.cpp\<close>.
  Boost.PropertyTree is a parameter: \<open>ptree\<close> holds what the loader asks a parsed JSON file for,
  \<open>get_child_optional\<close> and \<open>get<T>\<close> at a path.  \<^verbatim>\<open>pt.get<T>(path, def)\<close> returns \<open>def\<close> when the path
  is missing or its value does not convert to \<open>T\<close>, which is \<open>None\<close> here.  \<open>read_json\<close> yields the
  tree or the exception's text.  Thrown exceptions are the left summand, in source order.
\<close>

record ptree =
  pt_child :: "string \<Rightarrow> bool"
  pt_str :: "string \<Rightarrow> string option"
  pt_int :: "string \<Rightarrow> int option"
  pt_u32 :: "string \<Rightarrow> u32 option"

definition or_default :: "'a option \<Rightarrow> 'a \<Rightarrow> 'a" where
  "or_default v d = (case v of None \<Rightarrow> d | Some x \<Rightarrow> x)"

subsection \<open>The configuration structure\<close>

record Listen =
  l_host :: string
  l_port :: u16
  l_backlog :: int

record Admin =
  a_listen :: Listen
  events_max :: int

record Timeouts =
  read_ms :: int
  idle_ms :: int

record Limits =
  max_body_len :: u32

record FlowControl =
  high_water_bytes :: u32
  hard_limit_bytes :: u32
  on_high_water :: string

record MetricsCfg =
  interval_ms :: int

record MysqlCfg =
  my_host :: string
  my_port :: u16
  my_user :: string
  my_password :: string
  my_database :: string

record SessionPolicy =
  max_connections_per_user :: int
  heartbeat_timeout_ms :: int
  round_robin_default_interval_ms :: int
  broadcast_max_recipients :: int

record Config =
  client_listen :: Listen
  admin :: Admin
  timeouts :: Timeouts
  limits :: Limits
  flow :: FlowControl
  metrics_cfg :: MetricsCfg
  session :: SessionPolicy
  mysql :: MysqlCfg
  io_threads :: int
  biz_threads :: int

definition default_session_policy :: SessionPolicy where
  "default_session_policy = \<lparr>max_connections_per_user = 8, heartbeat_timeout_ms = 30000,
     round_robin_default_interval_ms = 100, broadcast_max_recipients = 10000\<rparr>"

definition default_config :: Config where
  "default_config =
     \<lparr>client_listen = \<lparr>l_host = ''0.0.0.0'', l_port = 9000, l_backlog = 1024\<rparr>,
      admin = \<lparr>a_listen = \<lparr>l_host = ''127.0.0.1'', l_port = 19003, l_backlog = 128\<rparr>, events_max = 200\<rparr>,
      timeouts = \<lparr>read_ms = 15000, idle_ms = 120000\<rparr>,
      limits = \<lparr>max_body_len = 64 * 1024 * 1024\<rparr>,
      flow = \<lparr>high_water_bytes = 64 * 1024 * 1024, hard_limit_bytes = 256 * 1024 * 1024,
              on_high_water = ''drop''\<rparr>,
      metrics_cfg = \<lparr>interval_ms = 5000\<rparr>,
      session = default_session_policy,
      mysql = \<lparr>my_host = ''127.0.0.1'', my_port = 3306, my_user = '''', my_password = '''', my_database = ''''\<rparr>,
      io_threads = 2, biz_threads = 2\<rparr>"

subsection \<open>The loader\<close>

definition as_u16 :: "int \<Rightarrow> string \<Rightarrow> string + u16" where
  "as_u16 v name = (if v < 1 \<or> v > 65535 then Inl (''invalid '' @ name) else Inr (word_of_int v))"

text \<open>\<^verbatim>\<open>client.listen\<close>, or the older key \<^verbatim>\<open>upstream.listen\<close>.\<close>

definition load_listen :: "ptree \<Rightarrow> string \<Rightarrow> Listen \<Rightarrow> string + Listen" where
  "load_listen pt key l =
     (case as_u16 (or_default (pt_int pt (key @ ''.port'')) (uint (l_port l))) (key @ ''.port'') of
        Inl e \<Rightarrow> Inl e
      | Inr port \<Rightarrow>
          Inr \<lparr>l_host = or_default (pt_str pt (key @ ''.host'')) (l_host l), l_port = port,
               l_backlog = or_default (pt_int pt (key @ ''.backlog'')) (l_backlog l)\<rparr>)"

definition kMaxBodyLenCap :: u32 where "kMaxBodyLenCap = 1024 * 1024 * 1024"

text \<open>The checks after all keys are read, in source order; the first that fails is thrown.\<close>

definition check_config :: "Config \<Rightarrow> string option" where
  "check_config cfg =
     (if my_user (mysql cfg) = [] \<or> my_database (mysql cfg) = [] then
        Some ''mysql.user and mysql.database required''
      else if io_threads cfg < 1 \<or> io_threads cfg > 64 then Some ''invalid threads.io''
      else if biz_threads cfg < 1 \<or> biz_threads cfg > 64 then Some ''invalid threads.biz''
      else if events_max (admin cfg) < 0 \<or> events_max (admin cfg) > 10000 then
        Some ''invalid admin.events_max''
      else if max_body_len (limits cfg) = 0 \<or> max_body_len (limits cfg) > kMaxBodyLenCap then
        Some ''invalid limits.max_body_len''
      else if high_water_bytes (flow cfg) = 0 \<or> hard_limit_bytes (flow cfg) < high_water_bytes (flow cfg) then
        Some ''invalid flow thresholds''
      else if \<not> (on_high_water (flow cfg) = ''drop'' \<or> on_high_water (flow cfg) = ''disconnect'') then
        Some ''invalid flow.send_queue.on_high_water''
      else if read_ms (timeouts cfg) < 100 \<or> idle_ms (timeouts cfg) < read_ms (timeouts cfg) then
        Some ''invalid timeouts''
      else if interval_ms (metrics_cfg cfg) < 200 \<or> interval_ms (metrics_cfg cfg) > 60 * 60 * 1000 then
        Some ''invalid metrics.interval_ms''
      else if max_connections_per_user (session cfg) < 1 \<or> max_connections_per_user (session cfg) > 256 then
        Some ''invalid session.max_connections_per_user''
      else if heartbeat_timeout_ms (session cfg) < 1000 \<or>
          heartbeat_timeout_ms (session cfg) > 24 * 60 * 60 * 1000 then
        Some ''invalid session.heartbeat_timeout_ms''
      else if broadcast_max_recipients (session cfg) < 1 \<or> broadcast_max_recipients (session cfg) > 1000000 then
        Some ''invalid session.broadcast_max_recipients''
      else None)"

definition load_config :: "ptree \<Rightarrow> string + Config" where
  "load_config pt =
     (let d = default_config;
          lkey = (if pt_child pt ''client.listen'' then ''client.listen'' else ''upstream.listen'')
      in
      case load_listen pt lkey (client_listen d) of Inl e \<Rightarrow> Inl e | Inr cl \<Rightarrow>
      (case load_listen pt ''admin.listen'' (a_listen (admin d)) of Inl e \<Rightarrow> Inl e | Inr al \<Rightarrow>
       if \<not> pt_child pt ''mysql'' then
         Inl ''config must contain mysql { host, port, user, password, database }''
       else
       (case as_u16 (or_default (pt_int pt ''mysql.port'') (uint (my_port (mysql d)))) ''mysql.port'' of
          Inl e \<Rightarrow> Inl e
        | Inr mport \<Rightarrow>
        (let cfg =
           \<lparr>client_listen = cl,
            admin = \<lparr>a_listen = al,
                     events_max = or_default (pt_int pt ''admin.events_max'') (events_max (admin d))\<rparr>,
            timeouts = \<lparr>read_ms = or_default (pt_int pt ''timeouts.read_ms'') (read_ms (timeouts d)),
                        idle_ms = or_default (pt_int pt ''timeouts.idle_ms'') (idle_ms (timeouts d))\<rparr>,
            limits = \<lparr>max_body_len = or_default (pt_u32 pt ''limits.max_body_len'') (max_body_len (limits d))\<rparr>,
            flow = \<lparr>high_water_bytes =
                      or_default (pt_u32 pt ''flow.send_queue.high_water_bytes'') (high_water_bytes (flow d)),
                    hard_limit_bytes =
                      or_default (pt_u32 pt ''flow.send_queue.hard_limit_bytes'') (hard_limit_bytes (flow d)),
                    on_high_water =
                      or_default (pt_str pt ''flow.send_queue.on_high_water'') (on_high_water (flow d))\<rparr>,
            metrics_cfg = \<lparr>interval_ms = or_default (pt_int pt ''metrics.interval_ms'') (interval_ms (metrics_cfg d))\<rparr>,
            session =
              \<lparr>max_connections_per_user =
                 or_default (pt_int pt ''session.max_connections_per_user'') (max_connections_per_user (session d)),
               heartbeat_timeout_ms =
                 or_default (pt_int pt ''session.heartbeat_timeout_ms'') (heartbeat_timeout_ms (session d)),
               round_robin_default_interval_ms = round_robin_default_interval_ms (session d),
               broadcast_max_recipients =
                 or_default (pt_int pt ''session.broadcast_max_recipients'') (broadcast_max_recipients (session d))\<rparr>,
            mysql = \<lparr>my_host = or_default (pt_str pt ''mysql.host'') (my_host (mysql d)), my_port = mport,
                     my_user = or_default (pt_str pt ''mysql.user'') (my_user (mysql d)),
                     my_password = or_default (pt_str pt ''mysql.password'') (my_password (mysql d)),
                     my_database = or_default (pt_str pt ''mysql.database'') (my_database (mysql d))\<rparr>,
            io_threads = or_default (pt_int pt ''threads.io'') (io_threads d),
            biz_threads = or_default (pt_int pt ''threads.biz'') (biz_threads d)\<rparr>
         in case check_config cfg of Some e \<Rightarrow> Inl e | None \<Rightarrow> Inr cfg))))"

definition load_config_or_throw :: "(string \<Rightarrow> string + ptree) \<Rightarrow> string \<Rightarrow> string + Config" where
  "load_config_or_throw read_json path =
     (case read_json path of Inl e \<Rightarrow> Inl e | Inr pt \<Rightarrow> load_config pt)"

text \<open>The shipped \<^verbatim>\<open>deliver/server/forwarder.json\<close> as the loader sees it.\<close>

definition forwarder_json :: ptree where
  "forwarder_json =
     \<lparr>pt_child = (\<lambda>k. k \<in> {''client.listen'', ''mysql''}),
      pt_str = map_of
        [(''client.listen.host'', ''0.0.0.0''), (''admin.listen.host'', ''127.0.0.1''),
         (''flow.send_queue.on_high_water'', ''drop''), (''mysql.host'', ''127.0.0.1''),
         (''mysql.user'', ''root''), (''mysql.password'', ''e2etest''),
         (''mysql.database'', ''forwarder_e2e'')],
      pt_int = map_of
        [(''client.listen.port'', 19000), (''client.listen.backlog'', 1024),
         (''admin.listen.port'', 19003), (''admin.listen.backlog'', 128), (''admin.events_max'', 200),
         (''threads.io'', 2), (''threads.biz'', 2), (''timeouts.read_ms'', 120000),
         (''timeouts.idle_ms'', 600000), (''metrics.interval_ms'', 3600000),
         (''session.max_connections_per_user'', 8), (''session.heartbeat_timeout_ms'', 30000),
         (''session.broadcast_max_recipients'', 10000), (''mysql.port'', 3306)],
      pt_u32 = map_of
        [(''limits.max_body_len'', 67108864), (''flow.send_queue.high_water_bytes'', 67108864),
         (''flow.send_queue.hard_limit_bytes'', 268435456)]\<rparr>"

subsection \<open>What an accepted configuration satisfies\<close>

definition config_ok :: "Config \<Rightarrow> bool" where
  "config_ok cfg \<longleftrightarrow>
     l_port (client_listen cfg) \<noteq> 0 \<and> l_port (a_listen (admin cfg)) \<noteq> 0 \<and> my_port (mysql cfg) \<noteq> 0 \<and>
     my_user (mysql cfg) \<noteq> [] \<and> my_database (mysql cfg) \<noteq> [] \<and>
     1 \<le> io_threads cfg \<and> io_threads cfg \<le> 64 \<and>
     0 \<le> events_max (admin cfg) \<and> events_max (admin cfg) \<le> 10000 \<and>
     0 < unat (max_body_len (limits cfg)) \<and> unat (max_body_len (limits cfg)) \<le> 2 ^ 30 \<and>
     0 < unat (high_water_bytes (flow cfg)) \<and>
     unat (high_water_bytes (flow cfg)) \<le> unat (hard_limit_bytes (flow cfg)) \<and>
     on_high_water (flow cfg) \<in> {''drop'', ''disconnect''} \<and>
     100 \<le> read_ms (timeouts cfg) \<and> read_ms (timeouts cfg) \<le> idle_ms (timeouts cfg) \<and>
     1 \<le> max_connections_per_user (session cfg) \<and> max_connections_per_user (session cfg) \<le> 256 \<and>
     1000 \<le> heartbeat_timeout_ms (session cfg) \<and> heartbeat_timeout_ms (session cfg) \<le> 86400000 \<and>
     1 \<le> broadcast_max_recipients (session cfg) \<and> broadcast_max_recipients (session cfg) \<le> 1000000"

lemma as_u16_Inr:
  assumes "as_u16 v n = Inr p"
  shows "p \<noteq> 0 \<and> uint p = v"
proof -
  from assms have v: "1 \<le> v" "v \<le> 65535" and p: "p = word_of_int v"
    by (auto simp: as_u16_def split: if_splits)
  then have "uint p = v" by (simp add: uint_word_of_int_eq take_bit_int_eq_self_iff)
  with v show ?thesis by auto
qed

lemma load_listen_port: "load_listen pt k l = Inr l' \<Longrightarrow> l_port l' \<noteq> 0"
  by (auto simp: load_listen_def split: sum.splits dest: as_u16_Inr)

lemma unat_kMaxBodyLenCap: "unat kMaxBodyLenCap = 2 ^ 30"
  by (simp add: kMaxBodyLenCap_def)

lemma check_config_None:
  "check_config cfg = None \<Longrightarrow>
     my_user (mysql cfg) \<noteq> [] \<and> my_database (mysql cfg) \<noteq> [] \<and>
     1 \<le> io_threads cfg \<and> io_threads cfg \<le> 64 \<and>
     0 \<le> events_max (admin cfg) \<and> events_max (admin cfg) \<le> 10000 \<and>
     0 < unat (max_body_len (limits cfg)) \<and> unat (max_body_len (limits cfg)) \<le> 2 ^ 30 \<and>
     0 < unat (high_water_bytes (flow cfg)) \<and>
     unat (high_water_bytes (flow cfg)) \<le> unat (hard_limit_bytes (flow cfg)) \<and>
     on_high_water (flow cfg) \<in> {''drop'', ''disconnect''} \<and>
     100 \<le> read_ms (timeouts cfg) \<and> read_ms (timeouts cfg) \<le> idle_ms (timeouts cfg) \<and>
     1 \<le> max_connections_per_user (session cfg) \<and> max_connections_per_user (session cfg) \<le> 256 \<and>
     1000 \<le> heartbeat_timeout_ms (session cfg) \<and> heartbeat_timeout_ms (session cfg) \<le> 86400000 \<and>
     1 \<le> broadcast_max_recipients (session cfg) \<and> broadcast_max_recipients (session cfg) \<le> 1000000"
  unfolding check_config_def
  by (auto simp: word_less_nat_alt unat_kMaxBodyLenCap unat_gt_0 split: if_splits)

lemma load_config_checked:
  assumes "load_config pt = Inr cfg"
  shows "check_config cfg = None \<and> l_port (client_listen cfg) \<noteq> 0 \<and>
    l_port (a_listen (admin cfg)) \<noteq> 0 \<and> my_port (mysql cfg) \<noteq> 0"
  using assms unfolding load_config_def
  by (auto simp: Let_def split: sum.splits if_splits option.splits dest: load_listen_port as_u16_Inr)

lemma load_config_idle:
  "load_config pt = Inr cfg \<Longrightarrow> idle_ms (timeouts cfg) = or_default (pt_int pt ''timeouts.idle_ms'') 120000"
  unfolding load_config_def
  by (auto simp: Let_def default_config_def split: sum.splits if_splits option.splits)

subsection \<open>Properties\<close>

lemma loaded_config_ok:
  assumes "load_config_or_throw read_json path = Inr cfg"
  shows "config_ok cfg"
proof -
  from assms obtain pt where "load_config pt = Inr cfg"
    by (auto simp: load_config_or_throw_def split: sum.splits)
  from load_config_checked [OF this] show ?thesis
    using check_config_None [of cfg] unfolding config_ok_def by blast
qed

text \<open>
  A configuration that \<^verbatim>\<open>load_config_or_throw\<close> returns (from any file) is within all documented
  limits: the three ports are non-zero, \<^verbatim>\<open>max_body_len\<close> is between 1 byte and 1 GiB, the hard limit is
  not below the high-water mark, the timeouts, connection and recipient limits are in range.
\<close>

lemma load_config_within_limits:
  assumes "load_config_or_throw read_json path = Inr cfg"
  shows "config_ok cfg"
  using assms by (rule loaded_config_ok)

definition shipped_config :: Config where
  "shipped_config = default_config
     \<lparr>client_listen := \<lparr>l_host = ''0.0.0.0'', l_port = 19000, l_backlog = 1024\<rparr>,
      timeouts := \<lparr>read_ms = 120000, idle_ms = 600000\<rparr>, metrics_cfg := \<lparr>interval_ms = 3600000\<rparr>,
      mysql := \<lparr>my_host = ''127.0.0.1'', my_port = 3306, my_user = ''root'', my_password = ''e2etest'',
                my_database = ''forwarder_e2e''\<rparr>\<rparr>"

lemmas config_eval = load_config_or_throw_def load_config_def load_listen_def as_u16_def or_default_def
  default_config_def default_session_policy_def check_config_def kMaxBodyLenCap_def

lemma load_shipped_config:
  "load_config_or_throw (\<lambda>_. Inr forwarder_json) ''forwarder.json'' = Inr shipped_config"
  by (simp add: config_eval forwarder_json_def shipped_config_def)

text \<open>
  A configuration file cannot switch the idle timeout off: \<^verbatim>\<open>idle_ms\<close> of any accepted configuration
  is at least \<^verbatim>\<open>read_ms\<close>, hence at least 100, and a file that sets \<^verbatim>\<open>timeouts.idle_ms\<close> to 0 is rejected.
\<close>

lemma load_config_idle_zero_rejected:
  assumes "pt_int pt ''timeouts.idle_ms'' = Some 0"
  shows "\<exists>e. load_config pt = Inl e"
proof (cases "load_config pt")
  case (Inr cfg)
  have "idle_ms (timeouts cfg) = 0"
    using load_config_idle [OF Inr] assms by (simp add: or_default_def)
  moreover have "100 \<le> idle_ms (timeouts cfg)"
    using load_config_checked [OF Inr] check_config_None [of cfg] by auto
  ultimately show ?thesis by simp
qed simp

end
