(* ===== verification/Tcp_Session.thy ===== *)
theory Tcp_Session
  imports Config_Load "HOL-Library.Sublist"
begin

text \<open>
  \<^verbatim>\<open>class TcpSession\<close> of \<^verbatim>\<open>main.cpp\<close>: the per-connection send queue with its water marks, the
  asynchronous writer and the two ways a session ends (\<^verbatim>\<open>stop\<close> and kick-then-close).

  The public methods \<^verbatim>\<open>send_frame\<close>, \<^verbatim>\<open>stop\<close> and \<^verbatim>\<open>kick_notify_and_close\<close> only post a handler on the
  session's strand; the handlers run one at a time, in order, later.  The model keeps that: a
  session has a list \<open>strand\<close> of posted handlers, and \<open>run_task\<close> is the body of a handler.
  Boost.Asio's part is the field \<open>in_flight\<close> (the buffer of the outstanding \<^verbatim>\<open>async_write\<close>, at most
  one) and \<open>sent\<close> (the buffers whose write completed); \<open>on_write\<close> is the completion handler.
  \<open>sess_step\<close> interleaves posting, running a handler and completing a write in every order the
  strand admits.  Log output is not modelled.  \<^verbatim>\<open>std::size_t\<close> byte counts are \<open>nat\<close>: they stay
  below the water marks or one message, far from wrap-around (\<open>session_inv\<close>).
\<close>

subsection \<open>State\<close>

record Metrics =
  client_connects :: u64
  frames_in :: u64
  bytes_in :: u64
  frames_out :: u64
  bytes_out :: u64
  drops :: u64

definition zero_metrics :: Metrics where
  "zero_metrics = \<lparr>client_connects = 0, frames_in = 0, bytes_in = 0, frames_out = 0, bytes_out = 0, drops = 0\<rparr>"

datatype strand_task =
    PostKick string string \<comment> \<open>\<^verbatim>\<open>kick_notify_and_close(notify_wire, log_why)\<close>\<close>
  | PostStop string \<comment> \<open>\<^verbatim>\<open>stop(why)\<close>\<close>
  | PostSend string \<comment> \<open>\<^verbatim>\<open>send_frame(bytes)\<close>\<close>

datatype write_result = WriteErr string | WriteOk nat

record tcp_session =
  conn_id :: u64
  sock_open :: bool
  peer :: "(string \<times> u16) option" \<comment> \<open>what \<^verbatim>\<open>remote_endpoint\<close> reports on an open socket\<close>
  stopped :: bool
  writing :: bool
  queue :: "string list"
  pending_bytes :: nat
  high_water_logged :: bool
  logged_in :: bool
  user_id :: u64
  is_admin :: bool
  username :: string
  kick_pending :: bool
  kick_log :: string
  last_hb :: int
  in_flight :: "string option"
  strand :: "strand_task list"
  sent :: "string list"

definition new_session :: "u64 \<Rightarrow> (string \<times> u16) option \<Rightarrow> tcp_session" where
  "new_session cid ep =
     \<lparr>conn_id = cid, sock_open = True, peer = ep, stopped = False, writing = False, queue = [],
      pending_bytes = 0, high_water_logged = False, logged_in = False, user_id = 0, is_admin = False,
      username = [], kick_pending = False, kick_log = [], last_hb = 0, in_flight = None, strand = [],
      sent = []\<rparr>"

subsection \<open>Accessors\<close>

definition remote_endpoint :: "tcp_session \<Rightarrow> (string \<times> u16) option" where
  "remote_endpoint s = (if sock_open s then peer s else None)"

definition endpoint_str :: "tcp_session \<Rightarrow> string" where
  "endpoint_str s =
     (case remote_endpoint s of
        None \<Rightarrow> ''unknown''
      | Some (addr, port) \<Rightarrow> addr @ '':'' @ dec_digits (unat port))"

definition client_ip :: "tcp_session \<Rightarrow> string" where
  "client_ip s = (case remote_endpoint s of None \<Rightarrow> [] | Some (addr, _) \<Rightarrow> addr)"

definition touch_heartbeat :: "int \<Rightarrow> tcp_session \<Rightarrow> tcp_session" where
  "touch_heartbeat now s = s\<lparr>last_hb := now\<rparr>"

definition mark_login :: "int \<Rightarrow> u64 \<Rightarrow> bool \<Rightarrow> string \<Rightarrow> tcp_session \<Rightarrow> tcp_session" where
  "mark_login now uid adm un s =
     touch_heartbeat now (s\<lparr>logged_in := True, user_id := uid, is_admin := adm, username := un\<rparr>)"

subsection \<open>Posting\<close>

definition post :: "strand_task \<Rightarrow> tcp_session \<Rightarrow> tcp_session" where
  "post t s = s\<lparr>strand := strand s @ [t]\<rparr>"

definition kick_notify_and_close :: "string \<Rightarrow> string \<Rightarrow> tcp_session \<Rightarrow> tcp_session" where
  "kick_notify_and_close notify_wire log_why = post (PostKick notify_wire log_why)"

definition stop :: "string \<Rightarrow> tcp_session \<Rightarrow> tcp_session" where
  "stop why = post (PostStop why)"

definition send_frame :: "string \<Rightarrow> tcp_session \<Rightarrow> tcp_session" where
  "send_frame bs = post (PostSend bs)"

subsection \<open>Handlers\<close>

definition do_write :: "tcp_session \<Rightarrow> tcp_session" where
  "do_write s =
     (case queue s of
        [] \<Rightarrow> s
      | b # _ \<Rightarrow> if stopped s then s else s\<lparr>writing := True, in_flight := Some b\<rparr>)"

definition run_kick :: "string \<Rightarrow> string \<Rightarrow> tcp_session \<Rightarrow> tcp_session" where
  "run_kick notify_wire log_why s =
     (if stopped s \<or> kick_pending s then s
      else
        (let s = s\<lparr>kick_pending := True, kick_log := log_why, queue := [], pending_bytes := 0\<rparr>;
             s = s\<lparr>queue := queue s @ [notify_wire]\<rparr>;
             s = s\<lparr>pending_bytes := pending_bytes s + length notify_wire\<rparr>
         in if \<not> writing s then do_write s else s))"

definition run_stop :: "string \<Rightarrow> tcp_session \<Rightarrow> tcp_session" where
  "run_stop why s = (if stopped s then s else s\<lparr>stopped := True, sock_open := False\<rparr>)"

definition run_send :: "FlowControl \<Rightarrow> string \<Rightarrow> Metrics \<times> tcp_session \<Rightarrow> Metrics \<times> tcp_session" where
  "run_send fl bs ms =
     (case ms of (m, s) \<Rightarrow>
      if stopped s \<or> kick_pending s then (m, s)
      else
        (let new_total = pending_bytes s + length bs in
         if new_total > unat (high_water_bytes fl) \<and> new_total \<le> unat (hard_limit_bytes fl) then
           (if on_high_water fl = ''disconnect'' then
              (m\<lparr>drops := drops m + 1\<rparr>, stop ''high-water disconnect'' s)
            else
              (m\<lparr>drops := drops m + 1\<rparr>,
               if \<not> high_water_logged s then s\<lparr>high_water_logged := True\<rparr> else s))
         else if new_total > unat (hard_limit_bytes fl) then
           (m\<lparr>drops := drops m + 1\<rparr>, stop ''hard-limit disconnect'' s)
         else
           (let s = s\<lparr>queue := queue s @ [bs], pending_bytes := new_total\<rparr>
            in (m, if \<not> writing s then do_write s else s))))"

fun run_task :: "FlowControl \<Rightarrow> strand_task \<Rightarrow> Metrics \<times> tcp_session \<Rightarrow> Metrics \<times> tcp_session" where
  "run_task fl (PostKick n w) (m, s) = (m, run_kick n w s)"
| "run_task fl (PostStop w) (m, s) = (m, run_stop w s)"
| "run_task fl (PostSend b) (m, s) = run_send fl b (m, s)"

text \<open>
  The completion handler of the \<^verbatim>\<open>async_write\<close> of buffer \<open>bs\<close>.  Asio clears its slot and, on
  success, has transmitted the whole buffer.
\<close>

fun on_write :: "string \<Rightarrow> write_result \<Rightarrow> Metrics \<times> tcp_session \<Rightarrow> Metrics \<times> tcp_session" where
  "on_write bs (WriteErr e) (m, s) =
     (m, stop (''write error: '' @ e) (s\<lparr>writing := False, in_flight := None\<rparr>))"
| "on_write bs (WriteOk n) (m, s) =
     (let s = s\<lparr>writing := False, in_flight := None, sent := sent s @ [bs]\<rparr>;
          m = m\<lparr>frames_out := frames_out m + 1, bytes_out := bytes_out m + word_of_nat n\<rparr>;
          s = (if queue s \<noteq> [] then s\<lparr>queue := tl (queue s)\<rparr> else s);
          s = (if pending_bytes s \<ge> length bs then s\<lparr>pending_bytes := pending_bytes s - length bs\<rparr>
               else s\<lparr>pending_bytes := 0\<rparr>)
      in if kick_pending s \<and> queue s = [] then
           (m, s\<lparr>kick_pending := False, stopped := True, sock_open := False\<rparr>)
         else (m, if queue s \<noteq> [] then do_write s else s))"

subsection \<open>Interleaving\<close>

datatype sess_event = EvPost strand_task | EvRun strand_task | EvWrite write_result

inductive sess_step :: "FlowControl \<Rightarrow> Metrics \<times> tcp_session \<Rightarrow> sess_event \<Rightarrow> Metrics \<times> tcp_session \<Rightarrow> bool"
  for fl :: FlowControl where
  step_post: "sess_step fl (m, s) (EvPost t) (m, post t s)"
| step_run: "strand s = t # ts \<Longrightarrow> sess_step fl (m, s) (EvRun t) (run_task fl t (m, s\<lparr>strand := ts\<rparr>))"
| step_write: "in_flight s = Some b \<Longrightarrow> sess_step fl (m, s) (EvWrite r) (on_write b r (m, s))"

inductive_simps sess_step_simps [simp]:
  "sess_step fl (m, s) (EvPost t) ms'"
  "sess_step fl (m, s) (EvRun t) ms'"
  "sess_step fl (m, s) (EvWrite r) ms'"

inductive_cases sess_stepE: "sess_step fl ms ev ms'"

text \<open>The frames handed to the session by the handlers that have run, in order.\<close>

fun frame_of :: "sess_event \<Rightarrow> string list" where
  "frame_of (EvRun (PostSend b)) = [b]"
| "frame_of (EvRun (PostKick n w)) = [n]"
| "frame_of _ = []"

definition handled :: "sess_event list \<Rightarrow> string list" where
  "handled es = concat (map frame_of es)"

subsection \<open>Invariant\<close>

definition queued_bytes :: "tcp_session \<Rightarrow> nat" where
  "queued_bytes s = sum_list (map length (queue s))"

definition session_inv :: "FlowControl \<Rightarrow> tcp_session \<Rightarrow> bool" where
  "session_inv fl s \<longleftrightarrow>
     (writing s \<longleftrightarrow> in_flight s \<noteq> None) \<and>
     (\<not> kick_pending s \<longrightarrow> (\<forall>b. in_flight s = Some b \<longrightarrow> queue s \<noteq> [] \<and> hd (queue s) = b)) \<and>
     (kick_pending s \<longrightarrow> length (queue s) = 1) \<and>
     (\<not> stopped s \<longrightarrow> pending_bytes s = queued_bytes s) \<and>
     (\<not> kick_pending s \<longrightarrow> queued_bytes s \<le> unat (high_water_bytes fl)) \<and>
     (stopped s \<longrightarrow> \<not> sock_open s)"

lemma queued_bytes_Nil [simp]: "queue s = [] \<Longrightarrow> queued_bytes s = 0"
  by (simp add: queued_bytes_def)

lemma session_inv_post [simp]: "session_inv fl (post t s) = session_inv fl s"
  by (simp add: session_inv_def post_def queued_bytes_def)

lemma session_inv_strand [simp]: "session_inv fl (s\<lparr>strand := ts\<rparr>) = session_inv fl s"
  by (simp add: session_inv_def queued_bytes_def)

lemma session_inv_stop [simp]: "session_inv fl (stop w s) = session_inv fl s"
  by (simp add: stop_def)

lemma session_inv_new: "session_inv fl (new_session c ep)"
  by (simp add: session_inv_def new_session_def queued_bytes_def)

lemma do_write_eq:
  "do_write s = (if queue s = [] \<or> stopped s then s else s\<lparr>writing := True, in_flight := Some (hd (queue s))\<rparr>)"
  by (cases "queue s") (simp_all add: do_write_def)

lemma session_inv_kick [inv_intros]: "session_inv fl s \<Longrightarrow> session_inv fl (run_kick n w s)"
  by (auto simp: session_inv_def run_kick_def do_write_eq queued_bytes_def Let_def)

lemma session_inv_run_stop [inv_intros]: "session_inv fl s \<Longrightarrow> session_inv fl (run_stop w s)"
  by (auto simp: session_inv_def run_stop_def queued_bytes_def)

lemma session_inv_send [inv_intros]:
  "session_inv fl s \<Longrightarrow> session_inv fl (snd (run_send fl b (m, s)))"
  by (auto simp: run_send_def Let_def session_inv_def do_write_eq queued_bytes_def stop_def post_def)

lemma session_inv_run_task [inv_intros]:
  "session_inv fl s \<Longrightarrow> session_inv fl (snd (run_task fl t (m, s)))"
  by (cases t) (auto intro: inv_intros)

lemma session_inv_on_write [inv_intros]:
  assumes "session_inv fl s" "in_flight s = Some b"
  shows "session_inv fl (snd (on_write b r (m, s)))"
proof (cases r)
  case (WriteErr e)
  with assms show ?thesis
    by (auto simp: session_inv_def stop_def post_def queued_bytes_def)
next
  case (WriteOk n)
  with assms show ?thesis
    by (cases "queue s"; cases "tl (queue s)")
      (auto simp: session_inv_def queued_bytes_def do_write_eq Let_def)
qed

lemma session_inv_step:
  "\<lbrakk>session_inv fl (snd ms); sess_step fl ms ev ms'\<rbrakk> \<Longrightarrow> session_inv fl (snd ms')"
  by (erule sess_stepE)
    (auto intro!: session_inv_run_task session_inv_on_write simp del: run_task.simps on_write.simps)

interpretation sess: inductive_invariant "sess_step fl" "\<lambda>ms. session_inv fl (snd ms)" for fl
  by unfold_locales (rule session_inv_step)

subsection \<open>Order of transmission\<close>

definition fifo_inv :: "FlowControl \<Rightarrow> sess_event list \<Rightarrow> Metrics \<times> tcp_session \<Rightarrow> bool" where
  "fifo_inv fl es ms \<longleftrightarrow>
     session_inv fl (snd ms) \<and>
     subseq (sent (snd ms) @ queue (snd ms)) (handled es) \<and>
     (\<forall>b. in_flight (snd ms) = Some b \<longrightarrow> subseq (sent (snd ms) @ [b]) (handled es))"

lemma handled_snoc [simp]: "handled (es @ [e]) = handled es @ frame_of e"
  by (simp add: handled_def)

lemma subseq_hd:
  "\<lbrakk>subseq (xs @ ys) zs; ys \<noteq> []\<rbrakk> \<Longrightarrow> subseq (xs @ [hd ys]) zs"
  by (cases ys) (auto intro: subseq_order.trans [rotated] simp: subseq_append')

lemma subseq_init: "subseq (xs @ ys) zs \<Longrightarrow> subseq xs zs"
  by (rule subseq_order.trans [OF subseq_rev_drop_many [OF subseq_order.refl]])

lemma subseq_snoc_right: "subseq xs zs \<Longrightarrow> subseq xs (zs @ [z])"
  by (rule subseq_rev_drop_many)

lemma subseq_snoc_both: "subseq xs zs \<Longrightarrow> subseq (xs @ [z]) (zs @ [z])"
  by (simp add: list_emb_append_mono)

lemmas subseq_facts = subseq_init subseq_snoc_right subseq_snoc_both subseq_hd

lemma fifo_kick:
  assumes "fifo_inv fl es (m, s)"
  shows "fifo_inv fl (es @ [EvRun (PostKick n w)]) (m, run_kick n w s)"
proof -
  have "subseq (sent s) (handled es)" using assms subseq_init by (auto simp: fifo_inv_def)
  then have "subseq (sent s @ [n]) (handled es @ [n])" by (rule subseq_snoc_both)
  then show ?thesis using assms session_inv_kick
    by (auto simp: fifo_inv_def run_kick_def do_write_eq Let_def subseq_snoc_right)
qed

lemma fifo_send:
  assumes "fifo_inv fl es (m, s)"
  shows "fifo_inv fl (es @ [EvRun (PostSend b)]) (run_send fl b (m, s))"
proof -
  have q: "subseq (sent s @ queue s @ [b]) (handled es @ [b])"
    using assms subseq_snoc_both [of "sent s @ queue s"] by (auto simp: fifo_inv_def)
  then have "queue s @ [b] \<noteq> [] \<Longrightarrow> subseq (sent s @ [hd (queue s @ [b])]) (handled es @ [b])"
    by (rule subseq_hd)
  with q assms session_inv_send [of fl s b m] show ?thesis
    by (auto simp: fifo_inv_def run_send_def do_write_eq stop_def post_def Let_def subseq_snoc_right)
qed

lemma fifo_stop:
  "fifo_inv fl es (m, s) \<Longrightarrow> fifo_inv fl (es @ [EvRun (PostStop w)]) (m, run_stop w s)"
  using session_inv_run_stop [of fl s w] by (simp add: fifo_inv_def) (simp add: run_stop_def)

lemma fifo_on_write:
  assumes "fifo_inv fl es (m, s)" and "in_flight s = Some b"
  shows "fifo_inv fl (es @ [EvWrite r]) (on_write b r (m, s))"
proof (cases r)
  case (WriteErr e)
  with assms session_inv_on_write [of fl s b r m] show ?thesis
    by (auto simp: fifo_inv_def stop_def post_def)
next
  case (WriteOk n)
  have "subseq ((sent s @ [b]) @ tl (queue s)) (handled es)"
  proof (cases "kick_pending s")
    case True
    with assms have "tl (queue s) = []"
      by (auto simp: fifo_inv_def session_inv_def length_Suc_conv)
    with assms show ?thesis by (simp add: fifo_inv_def)
  next
    case False
    with assms have "queue s = b # tl (queue s)"
      by (cases "queue s") (auto simp: fifo_inv_def session_inv_def)
    with assms show ?thesis by (metis append.assoc append_Cons append_Nil fifo_inv_def snd_conv)
  qed
  moreover from this have "tl (queue s) \<noteq> [] \<Longrightarrow>
      subseq ((sent s @ [b]) @ [hd (tl (queue s))]) (handled es)"
    by (rule subseq_hd)
  moreover have "queue s \<noteq> []"
    using assms by (auto simp: fifo_inv_def session_inv_def)
  ultimately show ?thesis using assms WriteOk session_inv_on_write [of fl s b r m]
    by (auto simp: fifo_inv_def do_write_eq Let_def)
qed

lemma fifo_step:
  assumes "fifo_inv fl es ms" and "sess_step fl ms ev ms'"
  shows "fifo_inv fl (es @ [ev]) ms'"
  using assms(2,1)
proof (cases rule: sess_step.cases)
  case (step_post m s t)
  with assms(1) show ?thesis by (auto simp: fifo_inv_def post_def)
next
  case (step_run s t ts m)
  then have "fifo_inv fl es (m, s\<lparr>strand := ts\<rparr>)" using assms(1) by (auto simp: fifo_inv_def)
  then have "fifo_inv fl (es @ [EvRun t]) (run_task fl t (m, s\<lparr>strand := ts\<rparr>))"
    by (cases t) (simp_all only: run_task.simps fifo_kick fifo_send fifo_stop)
  with step_run show ?thesis by simp
next
  case (step_write s b m r)
  with assms(1) show ?thesis by (auto intro: fifo_on_write simp del: on_write.simps)
qed

interpretation fifo: history_invariant "sess_step fl" "fifo_inv fl" for fl
  by unfold_locales (rule fifo_step)

lemma fifo_inv_new: "fifo_inv fl [] (m, new_session c ep)"
  by (simp add: fifo_inv_def session_inv_new) (simp add: new_session_def)

subsection \<open>Progress\<close>

text \<open>A live session with something to send is sending it, or is about to be stopped.\<close>

definition session_live :: "tcp_session \<Rightarrow> bool" where
  "session_live s \<longleftrightarrow>
     (queue s \<noteq> [] \<and> \<not> stopped s \<longrightarrow> writing s \<or> (\<exists>w. PostStop w \<in> set (strand s)))"

lemma session_live_step:
  "\<lbrakk>session_live (snd ms); sess_step fl ms ev ms'\<rbrakk> \<Longrightarrow> session_live (snd ms')"
proof (erule sess_stepE)
  fix m s t assume "session_live (snd ms)" "ms = (m, s)" "ms' = (m, post t s)"
  then show ?thesis by (auto simp: session_live_def post_def)
next
  fix m s t ts assume *: "session_live (snd ms)" "ms = (m, s)" "strand s = t # ts"
    and ms': "ms' = run_task fl t (m, s\<lparr>strand := ts\<rparr>)"
  show ?thesis
    using * unfolding ms'
    by (cases t) (auto simp: session_live_def run_kick_def run_stop_def run_send_def do_write_eq
        stop_def post_def Let_def)
next
  fix m s b r assume *: "session_live (snd ms)" "ms = (m, s)" and ms': "ms' = on_write b r (m, s)"
  show ?thesis
    using * unfolding ms'
    by (cases r) (auto simp: session_live_def do_write_eq stop_def post_def Let_def)
qed

interpretation live: inductive_invariant "sess_step fl" "\<lambda>ms. session_live (snd ms)" for fl
  by unfold_locales (rule session_live_step)

lemma session_live_new: "session_live (new_session c ep)"
  by (simp add: session_live_def new_session_def)

subsection \<open>Kick while a write is outstanding\<close>

lemma run_kick_idle:
  "\<lbrakk>\<not> stopped s; \<not> kick_pending s; \<not> writing s\<rbrakk> \<Longrightarrow>
     run_kick n w s = s\<lparr>kick_pending := True, kick_log := w, queue := [n], pending_bytes := length n,
       writing := True, in_flight := Some n\<rparr>"
  by (simp add: run_kick_def do_write_eq)

lemma run_send_kicked [simp]: "kick_pending s \<Longrightarrow> run_send fl b (m, s) = (m, s)"
  by (simp add: run_send_def)

text \<open>
  The states after a kick handler has run while \<open>b\<close> was being written, \<open>tx\<close> being what was
  transmitted before: still writing \<open>b\<close>, or not writing any more and never again.
\<close>

definition kick_lost :: "string list \<Rightarrow> string \<Rightarrow> tcp_session \<Rightarrow> bool" where
  "kick_lost tx b s \<longleftrightarrow>
     writing s \<and> kick_pending s \<and> in_flight s = Some b \<and> length (queue s) = 1 \<and> sent s = tx \<or>
     in_flight s = None \<and> (stopped s \<or> kick_pending s) \<and> (sent s = tx \<or> sent s = tx @ [b])"

lemma kick_lost_step:
  "\<lbrakk>kick_lost tx b (snd ms); sess_step fl ms ev ms'\<rbrakk> \<Longrightarrow> kick_lost tx b (snd ms')"
proof (erule sess_stepE)
  fix m s t assume "kick_lost tx b (snd ms)" "ms = (m, s)" "ms' = (m, post t s)"
  then show ?thesis by (simp add: kick_lost_def post_def)
next
  fix m s t ts assume *: "kick_lost tx b (snd ms)" "ms = (m, s)"
    and ms': "ms' = run_task fl t (m, s\<lparr>strand := ts\<rparr>)"
  show ?thesis using * unfolding ms'
    by (cases t) (auto simp: kick_lost_def run_kick_def run_stop_def run_send_def)
next
  fix m s c r assume *: "kick_lost tx b (snd ms)" "ms = (m, s)" "in_flight s = Some c"
    and ms': "ms' = on_write c r (m, s)"
  then have "tl (queue s) = []" by (auto simp: kick_lost_def length_Suc_conv)
  with * show ?thesis unfolding ms'
    by (cases r) (auto simp: kick_lost_def do_write_eq stop_def post_def Let_def)
qed

interpretation lost: inductive_invariant "sess_step fl" "\<lambda>ms. kick_lost tx b (snd ms)" for fl tx b
  by unfold_locales (rule kick_lost_step)

subsection \<open>Executable runs\<close>

fun sess_exec :: "FlowControl \<Rightarrow> sess_event list \<Rightarrow> Metrics \<times> tcp_session \<Rightarrow> (Metrics \<times> tcp_session) option" where
  "sess_exec fl [] ms = Some ms"
| "sess_exec fl (EvPost t # es) (m, s) = sess_exec fl es (m, post t s)"
| "sess_exec fl (EvRun t # es) (m, s) =
     (case strand s of
        [] \<Rightarrow> None
      | t' # ts \<Rightarrow> if t' = t then sess_exec fl es (run_task fl t (m, s\<lparr>strand := ts\<rparr>)) else None)"
| "sess_exec fl (EvWrite r # es) (m, s) =
     (case in_flight s of None \<Rightarrow> None | Some b \<Rightarrow> sess_exec fl es (on_write b r (m, s)))"

lemma sess_exec_runs: "sess_exec fl es ms = Some ms' \<Longrightarrow> runs (sess_step fl) ms es ms'"
proof (induction fl es ms rule: sess_exec.induct)
  case (1 fl ms)
  then show ?case by (simp add: runs_nil)
next
  case (2 fl t es m s)
  then show ?case by (auto intro: runs_cons step_post)
next
  case (3 fl t es m s)
  then show ?case
    by (auto intro!: runs_cons [where step = "sess_step fl"] step_run split: list.splits if_splits simp del: run_task.simps sess_step_simps)
next
  case (4 fl r es m s)
  then show ?case
    by (auto intro!: runs_cons [where step = "sess_step fl"] step_write split: option.splits simp del: on_write.simps sess_step_simps)
qed

definition demo_flow :: FlowControl where
  "demo_flow = \<lparr>high_water_bytes = 4, hard_limit_bytes = 8, on_high_water = ''drop''\<rparr>"

definition demo_run :: "sess_event list" where
  "demo_run =
     [EvPost (PostSend ''ab''), EvPost (PostSend ''c''), EvPost (PostSend ''defg''),
      EvRun (PostSend ''ab''), EvRun (PostSend ''c''), EvRun (PostSend ''defg''), EvWrite (WriteOk 2)]"

definition demo_state :: "Metrics \<times> tcp_session" where
  "demo_state =
     (zero_metrics\<lparr>frames_out := 1, bytes_out := 2, drops := 1\<rparr>,
      (new_session 1 None)\<lparr>writing := True, queue := [''c''], pending_bytes := 1,
        high_water_logged := True, in_flight := Some ''c'', sent := [''ab'']\<rparr>)"

lemma demo_runs: "runs (sess_step demo_flow) (zero_metrics, new_session 1 None) demo_run demo_state"
  by (rule sess_exec_runs)
    (simp add: demo_run_def demo_state_def demo_flow_def zero_metrics_def new_session_def post_def
      run_send_def do_write_eq)

subsection \<open>Properties\<close>



text \<open>
  C8. Frames leave a session in the order in which they were handed to it.  What has been
  transmitted, followed by what is still queued, is a subsequence of the frames of the send and
  kick handlers that have run, in their order: nothing is duplicated, reordered or invented,
  whatever the interleaving with kicks, stops, drops and write errors.
\<close>

theorem session_fifo:
  assumes "runs (sess_step fl) (m0, new_session c ep) es (m, s)"
  shows "subseq (sent s @ queue s) (handled es)"
  using fifo.hinv_runs [OF assms fifo_inv_new] by (simp add: fifo_inv_def)

theorem session_fifo_witness:
  "subseq [''ab'', ''c''] (handled demo_run)"
  using session_fifo [of demo_flow zero_metrics 1 None demo_run "fst demo_state" "snd demo_state"] demo_runs
  by (simp add: demo_state_def new_session_def)

text \<open>
  A kick of a session that is not writing delivers its notification and then closes.  The
  handler drops everything queued, starts the write of the notification at once, and the
  completion of that write closes the socket with the notification as the last frame sent; a
  send handler that runs in between changes nothing.
\<close>

lemma kick_idle_notifies:
  assumes "\<not> stopped s" and "\<not> kick_pending s" and "\<not> writing s"
  shows "let k = run_kick n w s; t = snd (on_write n (WriteOk j) (m, snd (run_send fl b (m, k)))) in
    in_flight k = Some n \<and> queue k = [n] \<and>
    sent t = sent s @ [n] \<and> stopped t \<and> \<not> sock_open t \<and> queue t = [] \<and> pending_bytes t = 0"
  using assms by (simp add: run_kick_idle)

text \<open>
  C27. A kick of a session that is writing loses its notification.  If the kick handler runs while
  the write of a frame \<open>b\<close> is outstanding, then in every continuation what is transmitted is what
  was transmitted before, possibly followed by \<open>b\<close>: the completion handler's \<^verbatim>\<open>pop_front\<close> removes
  the notification that the kick handler queued in place of \<open>b\<close>, and the session closes.
\<close>

theorem kick_while_writing_loses_notice:
  assumes "runs (sess_step fl) (m0, new_session c ep) es (m, s)"
    and "\<not> stopped s" and "\<not> kick_pending s" and "in_flight s = Some b"
    and "runs (sess_step fl) (m, run_kick n w s) es' (m', t)"
  shows "sent t = sent s \<or> sent t = sent s @ [b]"
proof -
  from sess.inv_runs [OF assms(1)] have "session_inv fl s" by (simp add: session_inv_new)
  with assms(2-4) have "kick_lost (sent s) b (run_kick n w s)"
    by (auto simp: session_inv_def run_kick_def kick_lost_def Let_def)
  then have "kick_lost (sent s) b t" using lost.inv_runs [OF assms(5)] by simp
  then show ?thesis by (auto simp: kick_lost_def)
qed

definition lost_state :: "Metrics \<times> tcp_session" where
  "lost_state = the (sess_exec demo_flow [EvWrite (WriteOk 1)]
     (fst demo_state, run_kick ''kick'' ''why'' (snd demo_state)))"

lemma lost_runs:
  "runs (sess_step demo_flow) (fst demo_state, run_kick ''kick'' ''why'' (snd demo_state))
     [EvWrite (WriteOk 1)] lost_state"
  by (rule sess_exec_runs) (simp add: lost_state_def demo_state_def new_session_def run_kick_def)

theorem kick_while_writing_loses_notice_witness:
  "sent (snd lost_state) = [''ab''] \<or> sent (snd lost_state) = [''ab'', ''c'']"
  using kick_while_writing_loses_notice [of demo_flow zero_metrics 1 None demo_run "fst demo_state" "snd demo_state"
      "''c''" "''kick''" "''why''" "[EvWrite (WriteOk 1)]" "fst lost_state" "snd lost_state"]
    demo_runs lost_runs
  by (simp add: demo_state_def new_session_def)

text \<open>
  Water marks.  A send on a live session has exactly one of three outcomes: below both marks
  the frame is appended to the queue; between the high water mark and the hard limit it is
  dropped and counted, and with \<^verbatim>\<open>on_high_water = disconnect\<close> a stop is posted; beyond the hard
  limit it is dropped, counted and a stop is posted.  A dropped frame leaves the queue alone.
\<close>

lemma run_send_water_marks:
  assumes "\<not> stopped s" and "\<not> kick_pending s"
    and "high_water_bytes fl \<le> hard_limit_bytes fl"
  shows "let total = pending_bytes s + length b; r = run_send fl b (m, s) in
    (total \<le> unat (high_water_bytes fl) \<longrightarrow>
       fst r = m \<and> queue (snd r) = queue s @ [b] \<and> pending_bytes (snd r) = total \<and> strand (snd r) = strand s) \<and>
    (total > unat (high_water_bytes fl) \<longrightarrow>
       drops (fst r) = drops m + 1 \<and> queue (snd r) = queue s \<and> pending_bytes (snd r) = pending_bytes s \<and>
       ((\<exists>w. strand (snd r) = strand s @ [PostStop w]) \<longleftrightarrow>
         total > unat (hard_limit_bytes fl) \<or> on_high_water fl = ''disconnect''))"
  using assms
  by (auto simp: run_send_def do_write_eq stop_def post_def Let_def word_le_nat_alt)

end
