(* ===== verification/MsgPack.thy ===== *)
theory MsgPack
  imports Prelude
begin

text \<open>
  Message bodies.  msgpack-c is a third-party library: its \<^verbatim>\<open>packer\<close> and \<^verbatim>\<open>unpack\<close> are parameters
  of the model.  The program drives a packer by a sequence of calls (\<^verbatim>\<open>pack_map(n)\<close>, \<^verbatim>\<open>pack("op")\<close>,
  ...), which the model records as a list of \<open>pk_call\<close>s in source order; the parameter
  \<open>pack :: pk_call list \<Rightarrow> string\<close> gives the bytes left in the \<^verbatim>\<open>sbuffer\<close>, and
  \<open>unpack :: string \<Rightarrow> mobj option\<close> gives the object or, as \<open>None\<close>, the exception.
  \<open>mobj\<close> has the object types of the library.

  \<open>calls\<close> is the call sequence that packs one object.  Proving that a body the program packs is
  \<open>calls\<close> of a map shows that the element counts announced by \<^verbatim>\<open>pack_map\<close> and \<^verbatim>\<open>pack_array\<close> match
  what follows, which the library does not check.  The library's promise is the locale
  \<open>msgpack_codec\<close>: unpacking what was packed gives the object back.

  The second half models the accessors \<^verbatim>\<open>map_get_str\<close>, \<^verbatim>\<open>map_has_key\<close>, \<^verbatim>\<open>map_get_u64\<close>,
  \<^verbatim>\<open>map_get_bool\<close>, \<^verbatim>\<open>map_get_obj\<close> and \<^verbatim>\<open>extract_payload_bin\<close> of \<^verbatim>\<open>main.cpp\<close>.
\<close>

subsection \<open>Objects and packer calls\<close>

datatype mobj =
    MNil
  | MBool bool
  | MPosInt u64
  | MNegInt int
  | MFloat u64
  | MStr string
  | MBin string
  | MExt u8 string
  | MArray "mobj list"
  | MMap "(mobj \<times> mobj) list"

type_synonym mmap = "(mobj \<times> mobj) list"

datatype pk_call =
    PackNil
  | PackBool bool
  | PackInt int
  | PackFloat u64
  | PackStr string
  | PackBin u32
  | PackBinBody string
  | PackExt u8 string
  | PackArray nat
  | PackMap nat

function calls :: "mobj \<Rightarrow> pk_call list" where
  "calls MNil = [PackNil]"
| "calls (MBool b) = [PackBool b]"
| "calls (MPosInt w) = [PackInt (uint w)]"
| "calls (MNegInt i) = [PackInt i]"
| "calls (MFloat w) = [PackFloat w]"
| "calls (MStr s) = [PackStr s]"
| "calls (MBin s) = [PackBin (word_of_nat (length s)), PackBinBody s]"
| "calls (MExt t s) = [PackExt t s]"
| "calls (MArray xs) = PackArray (length xs) # concat (map calls xs)"
| "calls (MMap kvs) = PackMap (length kvs) # concat (map (\<lambda>kv. calls (fst kv) @ calls (snd kv)) kvs)"
  by pat_completeness auto
termination
proof (relation "measure size")
  fix kvs :: mmap and kv
  assume kv: "kv \<in> set kvs"
  then have "size_prod size size kv \<le> size_list (size_prod size size) kvs"
    by (simp add: size_list_estimation')
  then show "(fst kv, MMap kvs) \<in> measure size" "(snd kv, MMap kvs) \<in> measure size"
    by (cases kv; simp)+
next
  fix xs :: "mobj list" and x
  assume "x \<in> set xs"
  then show "(x, MArray xs) \<in> measure size"
    by (simp add: size_list_estimation' less_Suc_eq_le)
qed simp

text \<open>Sizes and numbers the format can carry: 32-bit lengths, 64-bit integers.\<close>

function wf_obj :: "mobj \<Rightarrow> bool" where
  "wf_obj MNil = True"
| "wf_obj (MBool b) = True"
| "wf_obj (MPosInt w) = True"
| "wf_obj (MNegInt i) = (- (2 ^ 63) \<le> i \<and> i < 0)"
| "wf_obj (MFloat w) = True"
| "wf_obj (MStr s) = (length s < 2 ^ 32)"
| "wf_obj (MBin s) = (length s < 2 ^ 32)"
| "wf_obj (MExt t s) = (length s < 2 ^ 32)"
| "wf_obj (MArray xs) = (length xs < 2 ^ 32 \<and> list_all wf_obj xs)"
| "wf_obj (MMap kvs) = (length kvs < 2 ^ 32 \<and> list_all (\<lambda>kv. wf_obj (fst kv) \<and> wf_obj (snd kv)) kvs)"
  by pat_completeness auto
termination
proof (relation "measure size")
  fix kvs :: mmap and kv
  assume kv: "kv \<in> set kvs"
  then have "size_prod size size kv \<le> size_list (size_prod size size) kvs"
    by (simp add: size_list_estimation')
  then show "(fst kv, MMap kvs) \<in> measure size" "(snd kv, MMap kvs) \<in> measure size"
    by (cases kv; simp)+
next
  fix xs :: "mobj list" and x
  assume "x \<in> set xs"
  then show "(x, MArray xs) \<in> measure size"
    by (simp add: size_list_estimation' less_Suc_eq_le)
qed simp

subsection \<open>The accessors of the server\<close>

fun map_get_str :: "mmap \<Rightarrow> string \<Rightarrow> string option" where
  "map_get_str [] key = None"
| "map_get_str ((MStr k, v) # m) key =
     (case v of MStr s \<Rightarrow> if k = key then Some s else map_get_str m key | _ \<Rightarrow> map_get_str m key)"
| "map_get_str (_ # m) key = map_get_str m key"

fun map_has_key :: "mmap \<Rightarrow> string \<Rightarrow> bool" where
  "map_has_key [] key = False"
| "map_has_key ((MStr k, _) # m) key = (if k = key then True else map_has_key m key)"
| "map_has_key (_ # m) key = map_has_key m key"

fun map_get_u64 :: "mmap \<Rightarrow> string \<Rightarrow> u64 option" where
  "map_get_u64 [] key = None"
| "map_get_u64 ((MStr k, v) # m) key =
     (if k \<noteq> key then map_get_u64 m key
      else case v of MPosInt w \<Rightarrow> Some w | MNegInt _ \<Rightarrow> None | _ \<Rightarrow> map_get_u64 m key)"
| "map_get_u64 (_ # m) key = map_get_u64 m key"

fun map_get_bool :: "mmap \<Rightarrow> string \<Rightarrow> bool \<Rightarrow> bool" where
  "map_get_bool [] key def = def"
| "map_get_bool ((MStr k, v) # m) key def =
     (case v of MBool b \<Rightarrow> if k = key then b else map_get_bool m key def | _ \<Rightarrow> map_get_bool m key def)"
| "map_get_bool (_ # m) key def = map_get_bool m key def"

fun map_get_obj :: "mmap \<Rightarrow> string \<Rightarrow> mobj option" where
  "map_get_obj [] key = None"
| "map_get_obj ((MStr k, v) # m) key = (if k = key then Some v else map_get_obj m key)"
| "map_get_obj (_ # m) key = map_get_obj m key"

fun extract_payload_bin :: "mobj option \<Rightarrow> string option" where
  "extract_payload_bin (Some (MBin s)) = Some s"
| "extract_payload_bin (Some (MStr s)) = Some s"
| "extract_payload_bin _ = None"

subsection \<open>The library's promise\<close>

locale msgpack_codec =
  fixes pack :: "pk_call list \<Rightarrow> string"
    and unpack :: "string \<Rightarrow> mobj option"
  assumes unpack_pack: "wf_obj m \<Longrightarrow> unpack (pack (calls m)) = Some m"
begin

lemma pack_inj: "\<lbrakk>wf_obj m; wf_obj n; pack (calls m) = pack (calls n)\<rbrakk> \<Longrightarrow> m = n"
  by (metis option.inject unpack_pack)

end

subsection \<open>The accessors agree with each other\<close>

lemma map_get_str_has_key: "map_get_str m key = Some v \<Longrightarrow> map_has_key m key"
  by (induction m key rule: map_has_key.induct) (auto split: if_splits mobj.splits)

lemma map_has_key_get_obj: "map_has_key m key \<longleftrightarrow> map_get_obj m key \<noteq> None"
  by (induction m key rule: map_has_key.induct) auto

lemma map_get_u64_has_key: "map_get_u64 m key = Some w \<Longrightarrow> map_has_key m key"
  by (induction m key rule: map_has_key.induct) (auto split: if_splits mobj.splits)

lemma map_get_str_member: "map_get_str m key = Some v \<Longrightarrow> (MStr key, MStr v) \<in> set m"
  by (induction m key rule: map_get_str.induct) (auto split: if_splits mobj.splits)

lemma map_get_obj_member: "map_get_obj m key = Some v \<Longrightarrow> (MStr key, v) \<in> set m"
  by (induction m key rule: map_has_key.induct) (auto split: if_splits)

end
