(* ===== verification/Text_Literals.thy ===== *)
theory Text_Literals
  imports Prelude
begin

text \<open>
  The non-ASCII string literals of \<^verbatim>\<open>main.cpp\<close> and \<^verbatim>\<open>forwarder_sdk.cpp\<close>, byte for byte as the
  compiler sees them (the sources are UTF-8).  Each constant is one literal; the name says what
  the message tells the reader.
\<close>

definition utf8 :: "nat list \<Rightarrow> string" where
  "utf8 bs = map char_of bs"

subsection \<open>Server\<close>

definition txt_hb_timeout :: string where
  "txt_hb_timeout =
     utf8 [0xe5, 0xbf, 0x83, 0xe8, 0xb7, 0xb3, 0xe8, 0xb6, 0x85, 0xe6, 0x97, 0xb6, 0xef, 0xbc,
     0x9a, 0xe5, 0x9c, 0xa8, 0xe8, 0xae, 0xbe, 0xe5, 0xae, 0x9a, 0xe6, 0x97, 0xb6, 0xe9, 0x97,
     0xb4, 0xe5, 0x86, 0x85, 0xe6, 0x9c, 0xaa, 0xe6, 0x94, 0xb6, 0xe5, 0x88, 0xb0, 0xe6, 0x9c,
     0x89, 0xe6, 0x95, 0x88, 0xe4, 0xb8, 0x9a, 0xe5, 0x8a, 0xa1, 0xe5, 0xb8, 0xa7, 0xef, 0xbc,
     0x88, 0xe5, 0x90, 0xab, 0xe5, 0xbf, 0x83, 0xe8, 0xb7, 0xb3, 0xef, 0xbc, 0x89]"

definition txt_no_username :: string where
  "txt_no_username =
     utf8 [0xe7, 0xbc, 0xba, 0xe5, 0xb0, 0x91] @ '' username''"

definition txt_no_password :: string where
  "txt_no_password =
     utf8 [0xe7, 0xbc, 0xba, 0xe5, 0xb0, 0x91] @ '' password''"

definition txt_no_peer_role :: string where
  "txt_no_peer_role =
     utf8 [0xe7, 0xbc, 0xba, 0xe5, 0xb0, 0x91] @ '' peer_role'' @ utf8 [0xef, 0xbc, 0x88] @
     ''user '' @ utf8 [0xe6, 0x88, 0x96] @ '' admin'' @ utf8 [0xef, 0xbc, 0x89]"

definition txt_no_recv_mode :: string where
  "txt_no_recv_mode =
     utf8 [0xe7, 0xbc, 0xba, 0xe5, 0xb0, 0x91] @ '' recv_mode'' @ utf8 [0xef, 0xbc, 0x88] @
     ''broadcast '' @ utf8 [0xe6, 0x88, 0x96] @ '' round_robin'' @ utf8 [0xef, 0xbc, 0x89]"

definition txt_bad_peer_role :: string where
  "txt_bad_peer_role =
     ''peer_role '' @ utf8 [0xe5, 0xbf, 0x85, 0xe9, 0xa1, 0xbb, 0xe6, 0x98, 0xaf] @ '' user '' @
     utf8 [0xe6, 0x88, 0x96] @ '' admin''"

definition txt_bad_recv_mode :: string where
  "txt_bad_recv_mode =
     ''recv_mode '' @ utf8 [0xe9, 0xa1, 0xbb, 0xe4, 0xb8, 0xba] @ '' broadcast '' @ utf8 [0xe6,
     0x88, 0x96] @ '' round_robin''"

definition txt_ip_not_allowed :: string where
  "txt_ip_not_allowed =
     ''IP '' @ utf8 [0xe4, 0xb8, 0x8d, 0xe5, 0x9c, 0xa8, 0xe7, 0x99, 0xbd, 0xe5, 0x90, 0x8d,
     0xe5, 0x8d, 0x95]"

definition txt_recv_mode_fixed :: string where
  "txt_recv_mode_fixed =
     utf8 [0xe6, 0x8e, 0xa5, 0xe6, 0x94, 0xb6, 0xe6, 0x96, 0xb9, 0xe5, 0xbc, 0x8f, 0xe6, 0x8c,
     0x89, 0xe9, 0xa6, 0x96, 0xe6, 0xac, 0xa1] @ '' login '' @ utf8 [0xe4, 0xb8, 0xba, 0xe5,
     0x87, 0x86, 0xef, 0xbc, 0x9b, 0xe8, 0x8b, 0xa5, 0xe9, 0x9c, 0x80, 0xe6, 0x9b, 0xb4, 0xe6,
     0x94, 0xb9, 0xef, 0xbc, 0x8c, 0xe8, 0xaf, 0xb7, 0xe5, 0x85, 0xb3, 0xe9, 0x97, 0xad, 0xe8,
     0xaf, 0xa5, 0xe7, 0x94, 0xa8, 0xe6, 0x88, 0xb7, 0xe5, 0x85, 0xa8, 0xe9, 0x83, 0xa8, 0xe8,
     0xbf, 0x9e, 0xe6, 0x8e, 0xa5, 0xe5, 0x90, 0x8e, 0xe9, 0x87, 0x8d, 0xe6, 0x96, 0xb0, 0xe7,
     0x99, 0xbb, 0xe5, 0xbd, 0x95]"

definition txt_conn_limit :: string where
  "txt_conn_limit =
     utf8 [0xe5, 0x9b, 0xa0, 0xe5, 0x8d, 0x95, 0xe7, 0x94, 0xa8, 0xe6, 0x88, 0xb7, 0xe8, 0xbf,
     0x9e, 0xe6, 0x8e, 0xa5, 0xe6, 0x95, 0xb0, 0xe8, 0xbe, 0xbe, 0xe5, 0x88, 0xb0, 0xe4, 0xb8,
     0x8a, 0xe9, 0x99, 0x90, 0xef, 0xbc, 0x8c, 0xe6, 0x9c, 0x8d, 0xe5, 0x8a, 0xa1, 0xe7, 0xab,
     0xaf, 0xe6, 0x8c, 0x89, 0xe7, 0xad, 0x96, 0xe7, 0x95, 0xa5, 0xe9, 0x87, 0x8a, 0xe6, 0x94,
     0xbe, 0xe4, 0xba, 0x86, 0xe6, 0x9c, 0x80, 0xe6, 0x97, 0xa7, 0xe7, 0x9a, 0x84, 0xe4, 0xb8,
     0x80, 0xe6, 0x9d, 0xa1, 0xe8, 0xbf, 0x9e, 0xe6, 0x8e, 0xa5]"

definition txt_idle_timeout :: string where
  "txt_idle_timeout =
     utf8 [0xe7, 0xa9, 0xba, 0xe9, 0x97, 0xb2, 0xe8, 0xb6, 0x85, 0xe6, 0x97, 0xb6, 0xef, 0xbc,
     0x9a, 0xe9, 0x95, 0xbf, 0xe6, 0x97, 0xb6, 0xe9, 0x97, 0xb4, 0xe6, 0x97, 0xa0, 0xe4, 0xbb,
     0xbb, 0xe4, 0xbd, 0x95, 0xe5, 0xb8, 0xa7, 0xe6, 0x94, 0xb6, 0xe5, 0x8f, 0x91]"

definition txt_login_first :: string where
  "txt_login_first =
     utf8 [0xe9, 0x9c, 0x80, 0xe8, 0xa6, 0x81, 0xe5, 0x85, 0x88, 0xe7, 0x99, 0xbb, 0xe5, 0xbd,
     0x95, 0xef, 0xbc, 0x9a, 0xe9, 0xa6, 0x96, 0xe5, 0xb8, 0xa7] @ '' Header.msg_type '' @ utf8
     [0xe5, 0xbf, 0x85, 0xe9, 0xa1, 0xbb, 0xe4, 0xb8, 0xba] @ '' login(1)''"

definition txt_no_payload :: string where
  "txt_no_payload =
     ''DATA '' @ utf8 [0xe7, 0xbc, 0xba, 0xe5, 0xb0, 0x91] @ '' payload'' @ utf8 [0xef, 0xbc,
     0x88] @ ''bin '' @ utf8 [0xe6, 0x88, 0x96] @ '' str'' @ utf8 [0xef, 0xbc, 0x89]"

definition txt_no_dst :: string where
  "txt_no_dst =
     ''DATA '' @ utf8 [0xe9, 0x9c, 0x80, 0xe8, 0xa6, 0x81] @ '' dst_username''"

definition txt_need_admin :: string where
  "txt_need_admin =
     utf8 [0xe9, 0x9c, 0x80, 0xe8, 0xa6, 0x81, 0xe7, 0xae, 0xa1, 0xe7, 0x90, 0x86, 0xe5, 0x91,
     0x98, 0xe8, 0xb4, 0xa6, 0xe5, 0x8f, 0xb7, 0xe6, 0x9d, 0x83, 0xe9, 0x99, 0x90]"

definition txt_kick_needs_target :: string where
  "txt_kick_needs_target =
     ''kick_user '' @ utf8 [0xe9, 0x9c, 0x80, 0xe8, 0xa6, 0x81] @ '' target_user_id''"

definition txt_kick_by :: string where
  "txt_kick_by =
     utf8 [0xe8, 0xa2, 0xab, 0xe7, 0xae, 0xa1, 0xe7, 0x90, 0x86, 0xe5, 0x91, 0x98, 0xe8, 0xb8,
     0xa2, 0xe5, 0x87, 0xba, 0xef, 0xbc, 0x9a, 0xe6, 0x93, 0x8d, 0xe4, 0xbd, 0x9c, 0xe8, 0x80,
     0x85] @ '' ''"

definition txt_kick_uid :: string where
  "txt_kick_uid =
     utf8 [0xef, 0xbc, 0x88] @ ''user_id=''"

definition txt_kick_target :: string where
  "txt_kick_target =
     utf8 [0xef, 0xbc, 0x89, 0xe6, 0x89, 0xa7, 0xe8, 0xa1, 0x8c, 0xe4, 0xba, 0x86] @
     '' kick_user'' @ utf8 [0xef, 0xbc, 0x8c, 0xe7, 0x9b, 0xae, 0xe6, 0xa0, 0x87] @ '' user_id=''"

definition txt_add_needs_ip :: string where
  "txt_add_needs_ip =
     ''allowlist_add '' @ utf8 [0xe9, 0x9c, 0x80, 0xe8, 0xa6, 0x81] @ '' ip''"

definition txt_update_needs_id_ip :: string where
  "txt_update_needs_id_ip =
     ''allowlist_update '' @ utf8 [0xe9, 0x9c, 0x80, 0xe8, 0xa6, 0x81] @ '' id '' @ utf8 [0xe4,
     0xb8, 0x8e] @ '' ip''"

definition txt_delete_needs_id :: string where
  "txt_delete_needs_id =
     ''allowlist_delete '' @ utf8 [0xe9, 0x9c, 0x80, 0xe8, 0xa6, 0x81] @ '' id''"

definition txt_user_add_needs :: string where
  "txt_user_add_needs =
     ''user_table_add '' @ utf8 [0xe9, 0x9c, 0x80, 0xe8, 0xa6, 0x81] @ '' username/password''"

definition txt_user_update_needs_id :: string where
  "txt_user_update_needs_id =
     ''user_table_update '' @ utf8 [0xe9, 0x9c, 0x80, 0xe8, 0xa6, 0x81] @ '' id''"

definition txt_bad_username :: string where
  "txt_bad_username =
     ''username '' @ utf8 [0xe9, 0x9d, 0x9e, 0xe6, 0xb3, 0x95]"

definition txt_bad_password :: string where
  "txt_bad_password =
     ''password '' @ utf8 [0xe9, 0x9d, 0x9e, 0xe6, 0xb3, 0x95]"

definition txt_user_delete_needs_id :: string where
  "txt_user_delete_needs_id =
     ''user_table_delete '' @ utf8 [0xe9, 0x9c, 0x80, 0xe8, 0xa6, 0x81] @ '' id''"

definition txt_account_deleted :: string where
  "txt_account_deleted =
     utf8 [0xe7, 0xae, 0xa1, 0xe7, 0x90, 0x86, 0xe5, 0x91, 0x98, 0xe4, 0xbb, 0x8e, 0xe5, 0xba,
     0x93, 0xe4, 0xb8, 0xad, 0xe5, 0x88, 0xa0, 0xe9, 0x99, 0xa4, 0xe8, 0xaf, 0xa5, 0xe8, 0xb4,
     0xa6, 0xe5, 0x8f, 0xb7]"

definition txt_unknown_msg_type :: string where
  "txt_unknown_msg_type =
     utf8 [0xe6, 0x9c, 0xaa, 0xe7, 0x9f, 0xa5] @ '' msg_type'' @ utf8 [0xef, 0xbc, 0x88, 0xe5,
     0xb7, 0xb2, 0xe7, 0x99, 0xbb, 0xe5, 0xbd, 0x95, 0xe5, 0xb8, 0xa7, 0xe9, 0xa1, 0xbb, 0xe4,
     0xb8, 0xba] @ '' heartbeat=2 / control=3 / data=4'' @ utf8 [0xef, 0xbc, 0x89]"

definition txt_db_not_connected :: string where
  "txt_db_not_connected =
     utf8 [0xe6, 0x95, 0xb0, 0xe6, 0x8d, 0xae, 0xe5, 0xba, 0x93, 0xe6, 0x9c, 0xaa, 0xe8, 0xbf,
     0x9e, 0xe6, 0x8e, 0xa5]"

definition txt_bad_data :: string where
  "txt_bad_data =
     utf8 [0xe6, 0x95, 0xb0, 0xe6, 0x8d, 0xae, 0xe5, 0xbc, 0x82, 0xe5, 0xb8, 0xb8]"

definition txt_no_user_or_bad_password :: string where
  "txt_no_user_or_bad_password =
     utf8 [0xe7, 0x94, 0xa8, 0xe6, 0x88, 0xb7, 0xe4, 0xb8, 0x8d, 0xe5, 0xad, 0x98, 0xe5, 0x9c,
     0xa8, 0xe6, 0x88, 0x96, 0xe5, 0xaf, 0x86, 0xe7, 0xa0, 0x81, 0xe9, 0x94, 0x99, 0xe8, 0xaf,
     0xaf]"

definition txt_role_mismatch :: string where
  "txt_role_mismatch =
     utf8 [0xe7, 0x99, 0xbb, 0xe5, 0xbd, 0x95, 0xe6, 0x89, 0x80, 0xe9, 0x80, 0x89, 0xe6, 0x9d,
     0x83, 0xe9, 0x99, 0x90, 0xe4, 0xb8, 0x8e, 0xe8, 0xb4, 0xa6, 0xe5, 0x8f, 0xb7, 0xe4, 0xb8,
     0x8d, 0xe4, 0xb8, 0x80, 0xe8, 0x87, 0xb4]"

definition txt_read_user_failed :: string where
  "txt_read_user_failed =
     utf8 [0xe8, 0xaf, 0xbb, 0xe7, 0x94, 0xa8, 0xe6, 0x88, 0xb7, 0xe5, 0xa4, 0xb1, 0xe8, 0xb4,
     0xa5]"

definition txt_register_conflict :: string where
  "txt_register_conflict =
     utf8 [0xe6, 0xb3, 0xa8, 0xe5, 0x86, 0x8c, 0xe5, 0x86, 0xb2, 0xe7, 0xaa, 0x81, 0xef, 0xbc,
     0x8c, 0xe8, 0xaf, 0xb7, 0xe7, 0xa8, 0x8d, 0xe5, 0x90, 0x8e, 0xe9, 0x87, 0x8d, 0xe8, 0xaf,
     0x95]"

definition txt_ip_exists :: string where
  "txt_ip_exists =
     ''IP '' @ utf8 [0xe5, 0xb7, 0xb2, 0xe5, 0xad, 0x98, 0xe5, 0x9c, 0xa8]"

definition txt_ip_conflict :: string where
  "txt_ip_conflict =
     ''IP '' @ utf8 [0xe4, 0xb8, 0x8e, 0xe5, 0xb7, 0xb2, 0xe6, 0x9c, 0x89, 0xe8, 0xae, 0xb0,
     0xe5, 0xbd, 0x95, 0xe5, 0x86, 0xb2, 0xe7, 0xaa, 0x81]"

definition txt_no_such_id :: string where
  "txt_no_such_id =
     utf8 [0xe6, 0x97, 0xa0, 0xe6, 0xad, 0xa4] @ '' id''"

definition txt_username_exists :: string where
  "txt_username_exists =
     utf8 [0xe7, 0x94, 0xa8, 0xe6, 0x88, 0xb7, 0xe5, 0x90, 0x8d, 0xe5, 0xb7, 0xb2, 0xe5, 0xad,
     0x98, 0xe5, 0x9c, 0xa8]"

definition txt_no_field :: string where
  "txt_no_field =
     utf8 [0xe6, 0x97, 0xa0, 0xe5, 0xad, 0x97, 0xe6, 0xae, 0xb5, 0xe5, 0x8f, 0xaf, 0xe6, 0x9b,
     0xb4, 0xe6, 0x96, 0xb0]"

definition txt_username_conflict :: string where
  "txt_username_conflict =
     utf8 [0xe7, 0x94, 0xa8, 0xe6, 0x88, 0xb7, 0xe5, 0x90, 0x8d, 0xe5, 0x86, 0xb2, 0xe7, 0xaa,
     0x81]"

definition txt_no_such_user :: string where
  "txt_no_such_user =
     utf8 [0xe6, 0x97, 0xa0, 0xe6, 0xad, 0xa4, 0xe7, 0x94, 0xa8, 0xe6, 0x88, 0xb7]"

subsection \<open>Client library\<close>

definition txt_lf_no_exe :: string where
  "txt_lf_no_exe =
     ''LocalForwarder: '' @ utf8 [0xe6, 0x89, 0xbe, 0xe4, 0xb8, 0x8d, 0xe5, 0x88, 0xb0] @
     '' asio_forwarder '' @ utf8 [0xe5, 0x8f, 0xaf, 0xe6, 0x89, 0xa7, 0xe8, 0xa1, 0x8c, 0xe6,
     0x96, 0x87, 0xe4, 0xbb, 0xb6]"

definition txt_lf_wait :: string where
  "txt_lf_wait =
     ''LocalForwarder: '' @ utf8 [0xe7, 0xad, 0x89, 0xe5, 0xbe, 0x85, 0xe7, 0xab, 0xaf, 0xe5,
     0x8f, 0xa3, 0xe8, 0xb6, 0x85, 0xe6, 0x97, 0xb6]"

definition txt_lf_write :: string where
  "txt_lf_write =
     ''LocalForwarder: '' @ utf8 [0xe5, 0x86, 0x99, 0xe9, 0x85, 0x8d, 0xe7, 0xbd, 0xae, 0xe5,
     0xa4, 0xb1, 0xe8, 0xb4, 0xa5]"

definition txt_lf_fork :: string where
  "txt_lf_fork =
     ''LocalForwarder: fork '' @ utf8 [0xe5, 0xa4, 0xb1, 0xe8, 0xb4, 0xa5]"

definition txt_sign_on_eof :: string where
  "txt_sign_on_eof =
     ''sign_on: LOGIN '' @ utf8 [0xe5, 0x89, 0x8d] @ '' EOF''"

definition txt_sign_on_deliver :: string where
  "txt_sign_on_deliver =
     ''sign_on: '' @ utf8 [0xe7, 0x99, 0xbb, 0xe5, 0xbd, 0x95, 0xe9, 0x98, 0xb6, 0xe6, 0xae,
     0xb5, 0xe4, 0xb8, 0x8d, 0xe5, 0xba, 0x94, 0xe6, 0x94, 0xb6, 0xe5, 0x88, 0xb0] @ '' DELIVER''"

definition txt_sign_on_unexpected :: string where
  "txt_sign_on_unexpected =
     ''sign_on: '' @ utf8 [0xe6, 0x9c, 0xaa, 0xe9, 0xa2, 0x84, 0xe6, 0x9c, 0x9f, 0xe7, 0x9a,
     0x84] @ '' 201: op=''"

definition txt_waiting :: string where
  "txt_waiting =
     utf8 [0xe7, 0xad, 0x89, 0xe5, 0xbe, 0x85] @ '' ''"

definition txt_ack_eof :: string where
  "txt_ack_eof =
     '' '' @ utf8 [0xe5, 0xba, 0x94, 0xe7, 0xad, 0x94, 0xe6, 0x97, 0xb6] @ '' EOF''"

definition txt_not_accepted :: string where
  "txt_not_accepted =
     '' '' @ utf8 [0xe6, 0x9c, 0xaa, 0xe5, 0x8f, 0x97, 0xe7, 0x90, 0x86] @ '': ''"

definition txt_op_differs :: string where
  "txt_op_differs =
     '' '' @ utf8 [0xe4, 0xbd, 0x86, 0xe6, 0x94, 0xb6, 0xe5, 0x88, 0xb0] @ '' seq '' @ utf8
     [0xe7, 0x9b, 0xb8, 0xe5, 0x90, 0x8c, 0xe3, 0x80, 0x81] @ ''op '' @ utf8 [0xe4, 0xb8, 0x8d,
     0xe7, 0xac, 0xa6, 0xe7, 0x9a, 0x84] @ '' 201: ''"

definition txt_seq_differs :: string where
  "txt_seq_differs =
     '' '' @ utf8 [0xe6, 0x97, 0xb6, 0xe5, 0x85, 0x88, 0xe6, 0x94, 0xb6, 0xe5, 0x88, 0xb0, 0xe4,
     0xb8, 0x8d, 0xe5, 0x8c, 0xb9, 0xe9, 0x85, 0x8d, 0xe7, 0x9a, 0x84] @ '' 201: seq=''"

definition txt_control_unexpected_seq :: string where
  "txt_control_unexpected_seq =
     ''CONTROL: '' @ utf8 [0xe6, 0x9c, 0xaa, 0xe9, 0xa2, 0x84, 0xe6, 0x9c, 0x9f, 0xe7, 0x9a,
     0x84] @ '' 201 seq=''"

definition txt_control_not_accepted :: string where
  "txt_control_not_accepted =
     ''CONTROL '' @ utf8 [0xe6, 0x9c, 0xaa, 0xe5, 0x8f, 0x97, 0xe7, 0x90, 0x86] @ '': ''"

definition txt_control_op :: string where
  "txt_control_op =
     ''CONTROL: op '' @ utf8 [0xe4, 0xb8, 0x8d, 0xe7, 0xac, 0xa6] @ '': ''"

definition txt_heartbeat_mismatch :: string where
  "txt_heartbeat_mismatch =
     ''heartbeat: '' @ utf8 [0xe5, 0xaf, 0xb9] @ '' HEARTBEAT '' @ utf8 [0xe5, 0x85, 0x88, 0xe6,
     0x94, 0xb6, 0xe5, 0x88, 0xb0, 0xe4, 0xb8, 0x8d, 0xe5, 0x8c, 0xb9, 0xe9, 0x85, 0x8d, 0xe7,
     0x9a, 0x84] @ '' 201: seq=''"

definition txt_recv_201_before_200 :: string where
  "txt_recv_201_before_200 =
     ''recv_deliver: '' @ utf8 [0xe5, 0x9c, 0xa8, 0xe6, 0x94, 0xb6, 0xe5, 0x88, 0xb0] @ '' 200 ''
     @ utf8 [0xe4, 0xb9, 0x8b, 0xe5, 0x89, 0x8d, 0xe6, 0x94, 0xb6, 0xe5, 0x88, 0xb0] @ '' 201'' @
     utf8 [0xef, 0xbc, 0x88, 0xe5, 0xa4, 0x9a, 0xe7, 0xba, 0xbf, 0xe7, 0xa8, 0x8b] @ ''/'' @ utf8
     [0xe8, 0xb0, 0x83, 0xe7, 0x94, 0xa8, 0xe9, 0xa1, 0xba, 0xe5, 0xba, 0x8f, 0xe4, 0xb8, 0x8d,
     0xe5, 0x90, 0x88, 0xe6, 0xb3, 0x95, 0xef, 0xbc, 0x8c, 0xe6, 0x88, 0x96, 0xe9, 0x9c, 0x80,
     0xe5, 0x85, 0x88] @ '' drain '' @ utf8 [0xe5, 0xaf, 0xb9, 0xe7, 0xab, 0xaf, 0xe5, 0xba,
     0x94, 0xe7, 0xad, 0x94, 0xef, 0xbc, 0x89]"

end
