(* ===== verification/Mysql_Store.thy ===== *)
theory Mysql_Store
  imports Config_Load Text_Literals
begin

text \<open>
  \<^verbatim>\<open>class MysqlStore\<close> (\<^verbatim>\<open>mysql_store.hpp\<close> and the second half of \<^verbatim>\<open>main.cpp\<close>): the IP allowlist and
  the account table behind one MySQL connection.

  The MySQL client library is a parameter: the record \<open>mysql_api\<close> has one field per call the code
  makes, over an arbitrary type \<open>'db\<close> of connections.  Every return code the source tests is a
  value of the model, so each error branch of each operation is there.  The fixed-size parameter
  buffers (255, 511 and 4095 usable bytes) are the \<open>take\<close>s.

  \<open>Sql_Database\<close> gives the parameter a concrete value, a relational database with the tables of
  \<^verbatim>\<open>schema.sql\<close>.
\<close>

subsection \<open>The client library\<close>

datatype sqlval = SqlNull | SqlInt int | SqlStr string

text \<open>Result buffers: \<^verbatim>\<open>MYSQL_TYPE_LONGLONG\<close>, \<^verbatim>\<open>MYSQL_TYPE_TINY\<close>, \<^verbatim>\<open>MYSQL_TYPE_STRING\<close> of a length.\<close>

datatype result_bind = BLong | BTiny | BString nat

text \<open>\<^verbatim>\<open>mysql_stmt_fetch\<close>: 0 with the row in the buffers, \<^verbatim>\<open>MYSQL_NO_DATA\<close>, or anything else.\<close>

datatype fetch_result = FetchOk "sqlval list" | FetchNoData | FetchOther

text \<open>
  \<^verbatim>\<open>mysql_stmt_execute\<close>: on failure \<^verbatim>\<open>mysql_errno\<close>, \<^verbatim>\<open>mysql_stmt_error\<close> and \<^verbatim>\<open>mysql_error\<close>; on success
  what \<^verbatim>\<open>mysql_stmt_num_rows\<close>, \<^verbatim>\<open>mysql_stmt_affected_rows\<close>, \<^verbatim>\<open>mysql_insert_id\<close> and the first
  \<^verbatim>\<open>mysql_stmt_fetch\<close> return.
\<close>

datatype exec_result = ExecErr u32 string string | ExecOk u64 u64 u64 fetch_result

text \<open>\<^verbatim>\<open>mysql_real_query\<close> and \<^verbatim>\<open>mysql_store_result\<close>; a field that is NULL is \<open>None\<close>.\<close>

datatype query_result = QueryErr string | QueryNoResult string | QueryRows "string option list list"

record 'db mysql_api =
  ma_init :: bool
  ma_real_connect :: "MysqlCfg \<Rightarrow> string + 'db"
  ma_stmt_init :: "'db \<Rightarrow> bool"
  ma_prepare :: "'db \<Rightarrow> string \<Rightarrow> string option"
  ma_bind_param :: "'db \<Rightarrow> string \<Rightarrow> sqlval list \<Rightarrow> bool" \<comment> \<open>True: a non-zero return\<close>
  ma_bind_result :: "'db \<Rightarrow> string \<Rightarrow> result_bind list \<Rightarrow> bool"
  ma_execute :: "'db \<Rightarrow> string \<Rightarrow> sqlval list \<Rightarrow> result_bind list \<Rightarrow> 'db \<times> exec_result"
  ma_query :: "'db \<Rightarrow> string \<Rightarrow> query_result"

subsection \<open>State and statement texts\<close>

record 'db mysql_store =
  conn :: "'db option"
  cfg :: MysqlCfg

record UserInfo =
  ui_id :: u64
  ui_admin :: bool

record AdminIpRow =
  ip_row_id :: u64
  ip_row_ip :: string

record AdminUserRow =
  user_row_id :: u64
  user_row_name :: string
  user_row_admin :: bool

definition q_ip_select :: string where
  "q_ip_select = ''SELECT 1 FROM ip_allowlist WHERE ip = ? LIMIT 1''"
definition q_user_select :: string where
  "q_user_select = ''SELECT id, password, is_admin FROM users WHERE username = ? LIMIT 1''"
definition q_user_insert :: string where
  "q_user_insert = ''INSERT INTO users (username, password, is_admin) VALUES (?, ?, ?)''"
definition q_user_id :: string where
  "q_user_id = ''SELECT id FROM users WHERE username = ? LIMIT 1''"
definition q_allow_list :: string where
  "q_allow_list = ''SELECT id, ip FROM ip_allowlist ORDER BY id ASC''"
definition q_allow_insert :: string where
  "q_allow_insert = ''INSERT INTO ip_allowlist (ip) VALUES (?)''"
definition q_allow_update :: string where
  "q_allow_update = ''UPDATE ip_allowlist SET ip = ? WHERE id = ?''"
definition q_allow_delete :: string where
  "q_allow_delete = ''DELETE FROM ip_allowlist WHERE id = ?''"
definition q_users_list :: string where
  "q_users_list = ''SELECT id, username, is_admin FROM users ORDER BY id ASC''"
definition q_user_set_name :: string where
  "q_user_set_name = ''UPDATE users SET username = ? WHERE id = ?''"
definition q_user_set_pw :: string where
  "q_user_set_pw = ''UPDATE users SET password = ? WHERE id = ?''"
definition q_user_set_admin :: string where
  "q_user_set_admin = ''UPDATE users SET is_admin = ? WHERE id = ?''"
definition q_user_delete :: string where
  "q_user_delete = ''DELETE FROM users WHERE id = ?''"
definition q_user_name :: string where
  "q_user_name = ''SELECT username FROM users WHERE id = ? LIMIT 1''"

lemmas q_defs = q_ip_select_def q_user_select_def q_user_insert_def q_user_id_def q_allow_list_def
  q_allow_insert_def q_allow_update_def q_allow_delete_def q_users_list_def q_user_set_name_def
  q_user_set_pw_def q_user_set_admin_def q_user_delete_def q_user_name_def

subsection \<open>Connecting\<close>

definition mysql_close :: "'db mysql_store \<Rightarrow> 'db mysql_store" where
  "mysql_close st = (if conn st \<noteq> None then st\<lparr>conn := None\<rparr> else st)"

definition connect :: "'db mysql_api \<Rightarrow> MysqlCfg \<Rightarrow> 'db mysql_store \<Rightarrow> 'db mysql_store \<times> (string + unit)" where
  "connect api c st =
     (let st = (if conn st \<noteq> None then st\<lparr>conn := None\<rparr> else st);
          st = st\<lparr>cfg := c\<rparr>
      in if \<not> ma_init api then (st, Inl ''mysql_init failed'')
         else (case ma_real_connect api c of
                 Inl err \<Rightarrow> (st, Inl (''mysql_real_connect: '' @ err))
               | Inr raw \<Rightarrow> (st\<lparr>conn := Some raw\<rparr>, Inr ())))"

subsection \<open>One prepared statement\<close>

text \<open>
  The sequence every statement goes through: init, prepare, bind the parameters, bind the result
  buffers (where there are any), execute.  The outcome names the first step that failed.
\<close>

datatype stmt_outcome =
    NoStmt
  | PrepareFailed string
  | BindFailed
  | BindResultFailed
  | ExecFailed u32 string string
  | Executed u64 u64 u64 fetch_result

definition run_stmt :: "'db mysql_api \<Rightarrow> 'db \<Rightarrow> string \<Rightarrow> sqlval list \<Rightarrow> result_bind list \<Rightarrow> 'db \<times> stmt_outcome" where
  "run_stmt api db q ps rbs =
     (if \<not> ma_stmt_init api db then (db, NoStmt)
      else case ma_prepare api db q of
        Some e \<Rightarrow> (db, PrepareFailed e)
      | None \<Rightarrow>
          if ma_bind_param api db q ps then (db, BindFailed)
          else if rbs \<noteq> [] \<and> ma_bind_result api db q rbs then (db, BindResultFailed)
          else (case ma_execute api db q ps rbs of
                  (db', ExecErr en se ce) \<Rightarrow> (db', ExecFailed en se ce)
                | (db', ExecOk n aff ins f) \<Rightarrow> (db', Executed n aff ins f)))"

text \<open>Reading a result column; a NULL leaves the zero-initialised buffer as it is.\<close>

definition column :: "sqlval list \<Rightarrow> nat \<Rightarrow> sqlval" where
  "column row i = (if i < length row then row ! i else SqlNull)"

fun sql_u64 :: "sqlval \<Rightarrow> u64" where
  "sql_u64 (SqlInt i) = word_of_int i"
| "sql_u64 _ = 0"

fun sql_str :: "sqlval \<Rightarrow> string" where
  "sql_str (SqlStr s) = s"
| "sql_str _ = []"

fun sql_tiny :: "sqlval \<Rightarrow> 8 word" where
  "sql_tiny (SqlInt i) = word_of_int i"
| "sql_tiny _ = 0"

fun str_contains :: "string \<Rightarrow> string \<Rightarrow> bool" where
  "str_contains pat [] = (pat = [])"
| "str_contains pat (c # s) = (take (length pat) (c # s) = pat \<or> str_contains pat s)"

definition duplicate_error :: "string \<Rightarrow> bool" where
  "duplicate_error e \<longleftrightarrow> str_contains ''Duplicate'' e \<or> str_contains ''1062'' e"

subsection \<open>Login\<close>

definition ip_whitelisted :: "'db mysql_api \<Rightarrow> string \<Rightarrow> 'db mysql_store \<Rightarrow> 'db mysql_store \<times> bool" where
  "ip_whitelisted api ip st =
     (case conn st of
        None \<Rightarrow> (st, False)
      | Some db \<Rightarrow>
          (case run_stmt api db q_ip_select [SqlStr (take 255 ip)] [] of
             (db', Executed n _ _ _) \<Rightarrow> (st\<lparr>conn := Some db'\<rparr>, n > 0)
           | (db', _) \<Rightarrow> (st\<lparr>conn := Some db'\<rparr>, False)))"

text \<open>The rounds of the retry loop; \<open>n\<close> is the number of attempts left.\<close>

definition bool_int :: "bool \<Rightarrow> int" where
  "bool_int b = (if b then 1 else 0)"

definition check_account :: "string \<Rightarrow> bool \<Rightarrow> sqlval list \<Rightarrow> string + UserInfo" where
  "check_account pw want_admin row =
     (if column row 0 = SqlNull \<or> column row 1 = SqlNull then Inl txt_bad_data
      else if sql_str (column row 1) \<noteq> pw then Inl txt_no_user_or_bad_password
      else (let db_ad = (column row 2 \<noteq> SqlNull \<and> sql_tiny (column row 2) \<noteq> 0) in
            if db_ad \<noteq> want_admin then Inl txt_role_mismatch
            else Inr \<lparr>ui_id = sql_u64 (column row 0), ui_admin = db_ad\<rparr>))"

fun auth_attempts :: "'db mysql_api \<Rightarrow> string \<Rightarrow> string \<Rightarrow> bool \<Rightarrow> nat \<Rightarrow> 'db \<Rightarrow> 'db \<times> (string + UserInfo)" where
  "auth_attempts api un pw want_admin 0 db = (db, Inl txt_register_conflict)"
| "auth_attempts api un pw want_admin (Suc n) db =
     (case run_stmt api db q_user_select [SqlStr (take 511 un)] [BLong, BString 4096, BTiny] of
        (db1, NoStmt) \<Rightarrow> (db1, Inl ''mysql_stmt_init'')
      | (db1, PrepareFailed e) \<Rightarrow> (db1, Inl e)
      | (db1, BindFailed) \<Rightarrow> (db1, Inl ''bind param'')
      | (db1, BindResultFailed) \<Rightarrow> (db1, Inl ''bind result'')
      | (db1, ExecFailed _ e _) \<Rightarrow> (db1, Inl e)
      | (db1, Executed _ _ _ (FetchOk row)) \<Rightarrow> (db1, check_account pw want_admin row)
      | (db1, Executed _ _ _ FetchOther) \<Rightarrow> (db1, Inl txt_read_user_failed)
      | (db1, Executed _ _ _ FetchNoData) \<Rightarrow>
          (case run_stmt api db1 q_user_insert
              [SqlStr (take 511 un), SqlStr (take 4095 pw), SqlInt (bool_int want_admin)] [] of
             (db2, NoStmt) \<Rightarrow> (db2, Inl ''mysql_stmt_init'')
           | (db2, PrepareFailed e) \<Rightarrow> (db2, Inl e)
           | (db2, BindFailed) \<Rightarrow> (db2, Inl ''bind insert param'')
           | (db2, BindResultFailed) \<Rightarrow> (db2, Inl ''bind insert param'')
           | (db2, ExecFailed en _ ce) \<Rightarrow>
               if en = 1062 then auth_attempts api un pw want_admin n db2 else (db2, Inl ce)
           | (db2, Executed _ _ ins _) \<Rightarrow> (db2, Inr \<lparr>ui_id = ins, ui_admin = want_admin\<rparr>)))"

definition authenticate_or_register :: "'db mysql_api \<Rightarrow> string \<Rightarrow> string \<Rightarrow> bool \<Rightarrow> 'db mysql_store \<Rightarrow>
    'db mysql_store \<times> (string + UserInfo)" where
  "authenticate_or_register api un pw want_admin st =
     (case conn st of
        None \<Rightarrow> (st, Inl txt_db_not_connected)
      | Some db \<Rightarrow>
          (case auth_attempts api un pw want_admin 4 db of (db', r) \<Rightarrow> (st\<lparr>conn := Some db'\<rparr>, r)))"

definition user_id_by_username :: "'db mysql_api \<Rightarrow> string \<Rightarrow> 'db mysql_store \<Rightarrow> 'db mysql_store \<times> u64 option" where
  "user_id_by_username api un st =
     (case conn st of
        None \<Rightarrow> (st, None)
      | Some db \<Rightarrow>
          (case run_stmt api db q_user_id [SqlStr (take 511 un)] [BLong] of
             (db', Executed _ _ _ (FetchOk row)) \<Rightarrow>
               (st\<lparr>conn := Some db'\<rparr>, if column row 0 = SqlNull then None else Some (sql_u64 (column row 0)))
           | (db', _) \<Rightarrow> (st\<lparr>conn := Some db'\<rparr>, None)))"

subsection \<open>Listing\<close>

text \<open>\<^verbatim>\<open>std::stoull\<close>: optional white space and sign, decimal digits, any rest; \<open>None\<close> is a throw.\<close>

definition is_digit :: "char \<Rightarrow> bool" where
  "is_digit c \<longleftrightarrow> 48 \<le> (of_char c :: nat) \<and> (of_char c :: nat) \<le> 57"

definition is_space :: "char \<Rightarrow> bool" where
  "is_space c \<longleftrightarrow> (of_char c :: nat) = 32 \<or> 9 \<le> (of_char c :: nat) \<and> (of_char c :: nat) \<le> 13"

definition digits_value :: "string \<Rightarrow> nat" where
  "digits_value ds = foldl (\<lambda>n c. 10 * n + (of_char c - 48)) 0 ds"

definition stoull :: "string \<Rightarrow> u64 option" where
  "stoull s =
     (let s = dropWhile is_space s;
          neg = (s \<noteq> [] \<and> hd s = CHR ''-'');
          s = (if s \<noteq> [] \<and> (hd s = CHR ''-'' \<or> hd s = CHR ''+'') then tl s else s);
          ds = takeWhile is_digit s;
          n = digits_value ds
      in if ds = [] \<or> n \<ge> 2 ^ 64 then None
         else Some (if neg then - word_of_nat n else word_of_nat n))"

text \<open>A field as a C string: it ends at the first NUL.\<close>

definition c_str :: "string \<Rightarrow> string" where
  "c_str s = takeWhile (\<lambda>c. c \<noteq> CHR 0x00) s"

definition field :: "string option list \<Rightarrow> nat \<Rightarrow> string option" where
  "field row i = (if i < length row then map_option c_str (row ! i) else None)"

definition ip_row :: "string option list \<Rightarrow> AdminIpRow option" where
  "ip_row row =
     (case (field row 0, field row 1) of
        (Some i, Some ip) \<Rightarrow>
          (case stoull i of None \<Rightarrow> None | Some n \<Rightarrow> Some \<lparr>ip_row_id = n, ip_row_ip = ip\<rparr>)
      | _ \<Rightarrow> None)"

definition user_row :: "string option list \<Rightarrow> AdminUserRow option" where
  "user_row row =
     (case (field row 0, field row 1, field row 2) of
        (Some i, Some un, Some ad) \<Rightarrow>
          (case stoull i of
             None \<Rightarrow> None
           | Some n \<Rightarrow> Some \<lparr>user_row_id = n, user_row_name = un, user_row_admin = (ad = ''1'')\<rparr>)
      | _ \<Rightarrow> None)"

definition list_rows :: "'db mysql_api \<Rightarrow> string \<Rightarrow> (string option list \<Rightarrow> 'r option) \<Rightarrow> 'db mysql_store \<Rightarrow>
    string + 'r list" where
  "list_rows api q row_of st =
     (case conn st of
        None \<Rightarrow> Inl txt_db_not_connected
      | Some db \<Rightarrow>
          (case ma_query api db q of
             QueryErr e \<Rightarrow> Inl e
           | QueryNoResult e \<Rightarrow> Inl e
           | QueryRows rows \<Rightarrow> Inr (List.map_filter row_of rows)))"

definition admin_list_allowlist :: "'db mysql_api \<Rightarrow> 'db mysql_store \<Rightarrow> string + AdminIpRow list" where
  "admin_list_allowlist api st = list_rows api q_allow_list ip_row st"

definition admin_list_users :: "'db mysql_api \<Rightarrow> 'db mysql_store \<Rightarrow> string + AdminUserRow list" where
  "admin_list_users api st = list_rows api q_users_list user_row st"

subsection \<open>Table maintenance\<close>

text \<open>
  A statement that only reports success or an error text.  \<open>dup\<close> is the text for a duplicate key
  (\<open>None\<close> where the operation does not look for one), \<open>need_row\<close> whether no affected row is the
  error ``no such id''.
\<close>

definition exec_status :: "string option \<Rightarrow> bool \<Rightarrow> stmt_outcome \<Rightarrow> string option" where
  "exec_status dup need_row r =
     (case r of
        NoStmt \<Rightarrow> Some ''mysql_stmt_init''
      | PrepareFailed e \<Rightarrow> Some e
      | BindFailed \<Rightarrow> Some ''bind''
      | BindResultFailed \<Rightarrow> Some ''bind result''
      | ExecFailed _ e _ \<Rightarrow>
          (case dup of
             Some d \<Rightarrow> if duplicate_error e then Some d else Some e
           | None \<Rightarrow> Some e)
      | Executed _ aff _ _ \<Rightarrow> if need_row \<and> aff = 0 then Some txt_no_such_id else None)"

definition exec_op :: "'db mysql_api \<Rightarrow> string \<Rightarrow> sqlval list \<Rightarrow> string option \<Rightarrow> bool \<Rightarrow> 'db mysql_store \<Rightarrow>
    'db mysql_store \<times> string option" where
  "exec_op api q ps dup need_row st =
     (case conn st of
        None \<Rightarrow> (st, Some txt_db_not_connected)
      | Some db \<Rightarrow>
          (case run_stmt api db q ps [] of
             (db', r) \<Rightarrow> (st\<lparr>conn := Some db'\<rparr>, exec_status dup need_row r)))"

definition admin_insert_allowlist :: "'db mysql_api \<Rightarrow> string \<Rightarrow> 'db mysql_store \<Rightarrow> 'db mysql_store \<times> string option" where
  "admin_insert_allowlist api ip st =
     exec_op api q_allow_insert [SqlStr (take 255 ip)] (Some txt_ip_exists) False st"

definition admin_update_allowlist :: "'db mysql_api \<Rightarrow> u64 \<Rightarrow> string \<Rightarrow> 'db mysql_store \<Rightarrow> 'db mysql_store \<times> string option" where
  "admin_update_allowlist api i ip st =
     exec_op api q_allow_update [SqlStr (take 255 ip), SqlInt (uint i)] (Some txt_ip_conflict) True st"

definition admin_delete_allowlist :: "'db mysql_api \<Rightarrow> u64 \<Rightarrow> 'db mysql_store \<Rightarrow> 'db mysql_store \<times> string option" where
  "admin_delete_allowlist api i st = exec_op api q_allow_delete [SqlInt (uint i)] None True st"

definition admin_insert_user :: "'db mysql_api \<Rightarrow> string \<Rightarrow> string \<Rightarrow> bool \<Rightarrow> 'db mysql_store \<Rightarrow>
    'db mysql_store \<times> string option" where
  "admin_insert_user api un pw adm st =
     exec_op api q_user_insert [SqlStr (take 511 un), SqlStr (take 4095 pw), SqlInt (bool_int adm)]
       (Some txt_username_exists) False st"

text \<open>The lambda \<^verbatim>\<open>run_one\<close> of \<^verbatim>\<open>admin_update_user\<close>, and the three updates it is called for.\<close>

definition run_one :: "'db mysql_api \<Rightarrow> string \<Rightarrow> sqlval \<Rightarrow> u64 \<Rightarrow> 'db mysql_store \<Rightarrow> 'db mysql_store \<times> string option" where
  "run_one api q v i st = exec_op api q [v, SqlInt (uint i)] (Some txt_username_conflict) True st"

definition then_run :: "'db mysql_store \<times> string option \<Rightarrow> ('db mysql_store \<Rightarrow> 'db mysql_store \<times> string option) \<Rightarrow>
    'db mysql_store \<times> string option" where
  "then_run r f = (case r of (st, Some e) \<Rightarrow> (st, Some e) | (st, None) \<Rightarrow> f st)"

definition admin_update_user :: "'db mysql_api \<Rightarrow> u64 \<Rightarrow> string option \<Rightarrow> string option \<Rightarrow> bool option \<Rightarrow>
    'db mysql_store \<Rightarrow> 'db mysql_store \<times> string option" where
  "admin_update_user api i new_username new_password new_is_admin st =
     (if new_username = None \<and> new_password = None \<and> new_is_admin = None then (st, Some txt_no_field)
      else if conn st = None then (st, Some txt_db_not_connected)
      else
        then_run (then_run
          (case new_username of
             None \<Rightarrow> (st, None)
           | Some un \<Rightarrow> run_one api q_user_set_name (SqlStr (take 511 un)) i st)
          (\<lambda>st. case new_password of
             None \<Rightarrow> (st, None)
           | Some pw \<Rightarrow> run_one api q_user_set_pw (SqlStr (take 4095 pw)) i st))
          (\<lambda>st. case new_is_admin of
             None \<Rightarrow> (st, None)
           | Some adm \<Rightarrow> run_one api q_user_set_admin (SqlInt (bool_int adm)) i st))"

definition admin_delete_user :: "'db mysql_api \<Rightarrow> u64 \<Rightarrow> 'db mysql_store \<Rightarrow> 'db mysql_store \<times> string option" where
  "admin_delete_user api i st = exec_op api q_user_delete [SqlInt (uint i)] None True st"

definition admin_get_username_by_id :: "'db mysql_api \<Rightarrow> u64 \<Rightarrow> 'db mysql_store \<Rightarrow> 'db mysql_store \<times> (string + string)" where
  "admin_get_username_by_id api i st =
     (case conn st of
        None \<Rightarrow> (st, Inl txt_db_not_connected)
      | Some db \<Rightarrow>
          (case run_stmt api db q_user_name [SqlInt (uint i)] [BString 512] of
             (db', Executed _ _ _ (FetchOk row)) \<Rightarrow> (st\<lparr>conn := Some db'\<rparr>, Inr (sql_str (column row 0)))
           | (db', Executed _ _ _ _) \<Rightarrow> (st\<lparr>conn := Some db'\<rparr>, Inl txt_no_such_user)
           | (db', r) \<Rightarrow> (st\<lparr>conn := Some db'\<rparr>, Inl (the (exec_status None False r)))))"

subsection \<open>Reading back a printed number\<close>

lemma is_digit_char_of [simp]: "n < 10 \<Longrightarrow> is_digit (char_of (48 + n :: nat))"
  by (simp add: is_digit_def)

lemma dec_digits_all_digit: "list_all is_digit (dec_digits n)"
  by (induction n rule: dec_digits.induct) (subst dec_digits.simps, simp)

lemma digits_value_snoc: "digits_value (ds @ [c]) = 10 * digits_value ds + (of_char c - 48)"
  by (simp add: digits_value_def)

lemma digits_value_dec_digits [simp]: "digits_value (dec_digits n) = n"
proof (induction n rule: dec_digits.induct)
  case (1 n)
  show ?case
  proof (cases "n < 10")
    case True
    then show ?thesis by (subst dec_digits.simps) (simp add: digits_value_def)
  next
    case False
    with 1 have "digits_value (dec_digits (n div 10)) = n div 10" by simp
    with False show ?thesis by (subst dec_digits.simps) (simp add: digits_value_snoc)
  qed
qed

lemma takeWhile_all_digits [simp]: "takeWhile is_digit (dec_digits n) = dec_digits n"
  using dec_digits_all_digit [of n] by (simp add: list_all_iff)

lemma hd_dec_digits: "is_digit (hd (dec_digits n))"
  using dec_digits_all_digit [of n] dec_digits_ne [of n] by (cases "dec_digits n") auto

lemma is_digit_not: "is_digit c \<Longrightarrow> \<not> is_space c \<and> c \<noteq> CHR ''-'' \<and> c \<noteq> CHR ''+'' \<and> c \<noteq> CHR 0x00"
  by (auto simp: is_digit_def is_space_def)

lemma dropWhile_space_digits [simp]: "dropWhile is_space (dec_digits n) = dec_digits n"
  using hd_dec_digits [of n] is_digit_not by (cases "dec_digits n") auto

lemma stoull_dec_digits: "n < 2 ^ 64 \<Longrightarrow> stoull (dec_digits n) = Some (word_of_nat n)"
  using is_digit_not [OF hd_dec_digits [of n]] by (simp add: stoull_def Let_def)

lemma c_str_dec_digits [simp]: "c_str (dec_digits n) = dec_digits n"
  using dec_digits_all_digit [of n] is_digit_not by (auto simp: c_str_def list_all_iff)

lemma c_str_no_nul: "CHR 0x00 \<notin> set s \<Longrightarrow> c_str s = s"
  by (auto simp: c_str_def)

subsection \<open>Consequences that hold for every database\<close>

lemma check_account_admin: "check_account pw w row = Inr ui \<Longrightarrow> ui_admin ui = w"
  by (auto simp: check_account_def Let_def split: if_splits)

lemma auth_attempts_admin: "auth_attempts api un pw w n db = (db', Inr ui) \<Longrightarrow> ui_admin ui = w"
  by (induction n arbitrary: db)
    (auto simp: check_account_admin split: prod.splits stmt_outcome.splits fetch_result.splits if_splits)

lemma authenticate_admin:
  "authenticate_or_register api un pw w st = (st', Inr ui) \<Longrightarrow> ui_admin ui = w"
  by (auto simp: authenticate_or_register_def auth_attempts_admin split: option.splits prod.splits)

lemma authenticate_unfold:
  "conn st = Some db \<Longrightarrow> authenticate_or_register api un pw w st =
     (case auth_attempts api un pw w (Suc 3) db of (db', r) \<Rightarrow> (st\<lparr>conn := Some db'\<rparr>, r))"
  by (simp add: authenticate_or_register_def)

lemma authenticate_not_connected:
  "conn st = None \<Longrightarrow> authenticate_or_register api un pw w st = (st, Inl txt_db_not_connected)"
  by (simp add: authenticate_or_register_def)

end
