(* ===== verification/Sql_Database.thy ===== *)
theory Sql_Database
  imports Mysql_Store
begin

text \<open>
  What the account operations rely on, and a database that provides it.

  The locale \<open>account_db\<close> states the documented behaviour of the statements of the login path
  on a working connection: \<open>accounts\<close> is the account table as a map from user names, \<open>allowed\<close> the
  set of allowlisted addresses.  The lemmas of the locale describe \<^verbatim>\<open>authenticate_or_register\<close>,
  \<^verbatim>\<open>user_id_by_username\<close> and \<^verbatim>\<open>ip_whitelisted\<close> over that abstract table.

  The reference database has the two tables of \<^verbatim>\<open>schema.sql\<close> and executes the fourteen statement
  texts of the program: unique keys (error 1062), column widths (error 1406), auto-increment
  identifiers, and the MySQL rule that an UPDATE reports the rows whose value changed.
  Names are compared byte by byte, as under a binary collation.
\<close>

subsection \<open>The abstract table\<close>

type_synonym account = "u64 \<times> string \<times> bool" \<comment> \<open>id, password, administrator\<close>

definition login_result :: "account \<Rightarrow> string \<Rightarrow> bool \<Rightarrow> string + UserInfo" where
  "login_result a pw want_admin =
     (case a of (i, stored, adm) \<Rightarrow>
        if stored \<noteq> pw then Inl txt_no_user_or_bad_password
        else if adm \<noteq> want_admin then Inl txt_role_mismatch
        else Inr \<lparr>ui_id = i, ui_admin = adm\<rparr>)"

locale account_db =
  fixes api :: "'db mysql_api"
    and accounts :: "'db \<Rightarrow> string \<rightharpoonup> account"
    and allowed :: "'db \<Rightarrow> string set"
    and room :: "'db \<Rightarrow> bool"
  assumes stmt_init_ok: "ma_stmt_init api db"
    and prepare_ok: "ma_prepare api db q = None"
    and bind_param_ok: "\<not> ma_bind_param api db q ps"
    and bind_result_ok: "\<not> ma_bind_result api db q rbs"
    and select_missing: "accounts db un = None \<Longrightarrow>
      \<exists>n aff ins. ma_execute api db q_user_select [SqlStr un] rbs = (db, ExecOk n aff ins FetchNoData)"
    and select_found: "\<lbrakk>accounts db un = Some (i, pw, adm); length pw \<le> 4096\<rbrakk> \<Longrightarrow>
      \<exists>n aff ins. ma_execute api db q_user_select [SqlStr un] [BLong, BString 4096, BTiny] =
        (db, ExecOk n aff ins (FetchOk [SqlInt (uint i), SqlStr pw, SqlInt (bool_int adm)]))"
    and insert_new: "\<lbrakk>accounts db un = None; length un \<le> 255; length pw \<le> 4095; room db\<rbrakk> \<Longrightarrow>
      \<exists>db' n aff i f. ma_execute api db q_user_insert [SqlStr un, SqlStr pw, SqlInt (bool_int adm)] [] =
        (db', ExecOk n aff i f) \<and> accounts db' = (accounts db)(un \<mapsto> (i, pw, adm)) \<and> allowed db' = allowed db"
    and select_id_missing: "accounts db un = None \<Longrightarrow>
      \<exists>n aff ins. ma_execute api db q_user_id [SqlStr un] [BLong] = (db, ExecOk n aff ins FetchNoData)"
    and select_id_found: "accounts db un = Some (i, pw, adm) \<Longrightarrow>
      \<exists>n aff ins. ma_execute api db q_user_id [SqlStr un] [BLong] =
        (db, ExecOk n aff ins (FetchOk [SqlInt (uint i)]))"
    and select_ip: "\<exists>n aff ins f. ma_execute api db q_ip_select [SqlStr ip] [] =
        (db, ExecOk n aff ins f) \<and> (0 < n \<longleftrightarrow> ip \<in> allowed db)"
begin

lemmas stmt_ok = stmt_init_ok prepare_ok bind_param_ok bind_result_ok

lemma bool_int_tiny [simp]: "(sql_tiny (SqlInt (bool_int b)) \<noteq> 0) = b"
  by (simp add: bool_int_def)

lemma check_account_row:
  "check_account pw w [SqlInt (uint i), SqlStr stored, SqlInt (bool_int adm)] = login_result (i, stored, adm) pw w"
  using bool_int_tiny [of adm]
  by (auto simp: check_account_def login_result_def column_def Let_def simp del: bool_int_tiny)

lemma login_known:
  assumes "conn st = Some db" and "accounts db (take 511 un) = Some a" and "length (fst (snd a)) \<le> 4096"
  shows "authenticate_or_register api un pw w st = (st, login_result a pw w)"
proof -
  obtain i stored adm where a: "a = (i, stored, adm)" by (cases a) auto
  with assms obtain n aff ins where
    "ma_execute api db q_user_select [SqlStr (take 511 un)] [BLong, BString 4096, BTiny] =
      (db, ExecOk n aff ins (FetchOk [SqlInt (uint i), SqlStr stored, SqlInt (bool_int adm)]))"
    using select_found [of db "take 511 un" i stored adm] by auto
  then show ?thesis unfolding authenticate_unfold [OF assms(1)] auth_attempts.simps
    by (simp add: run_stmt_def stmt_ok a check_account_row assms(1))
qed

lemma login_unknown:
  assumes "conn st = Some db" and "accounts db un = None" and "length un \<le> 255" and "room db"
  shows "\<exists>db' i. authenticate_or_register api un pw w st =
      (st\<lparr>conn := Some db'\<rparr>, Inr \<lparr>ui_id = i, ui_admin = w\<rparr>) \<and>
    accounts db' = (accounts db)(un \<mapsto> (i, take 4095 pw, w)) \<and> allowed db' = allowed db"
proof -
  have [simp]: "take 511 un = un" using assms(3) by simp
  obtain n aff ins where sel:
    "ma_execute api db q_user_select [SqlStr un] [BLong, BString 4096, BTiny] = (db, ExecOk n aff ins FetchNoData)"
    using select_missing [OF assms(2)] by blast
  obtain db' n' aff' i f where ins:
    "ma_execute api db q_user_insert [SqlStr un, SqlStr (take 4095 pw), SqlInt (bool_int w)] [] =
      (db', ExecOk n' aff' i f)" "accounts db' = (accounts db)(un \<mapsto> (i, take 4095 pw, w))"
      "allowed db' = allowed db"
    using insert_new [OF assms(2,3) _ assms(4), of "take 4095 pw" w] by auto
  have "authenticate_or_register api un pw w st =
      (st\<lparr>conn := Some db'\<rparr>, Inr \<lparr>ui_id = i, ui_admin = w\<rparr>)"
    unfolding authenticate_unfold [OF assms(1)] auth_attempts.simps
    using sel ins(1) by (simp add: run_stmt_def stmt_ok)
  with ins(2,3) show ?thesis by blast
qed

lemma user_id_lookup:
  assumes "conn st = Some db"
  shows "user_id_by_username api un st = (st, map_option fst (accounts db (take 511 un)))"
proof (cases "accounts db (take 511 un)")
  case None
  with assms select_id_missing [of db "take 511 un"] show ?thesis
    by (auto simp: user_id_by_username_def run_stmt_def stmt_ok)
next
  case (Some a)
  then obtain i pw adm where a: "accounts db (take 511 un) = Some (i, pw, adm)" by (cases a) auto
  with assms select_id_found [OF a] show ?thesis
    by (auto simp: user_id_by_username_def run_stmt_def stmt_ok column_def)
qed

lemma ip_lookup:
  assumes "conn st = Some db"
  shows "ip_whitelisted api ip st = (st, take 255 ip \<in> allowed db)"
  using assms select_ip [of db "take 255 ip"] by (auto simp: ip_whitelisted_def run_stmt_def stmt_ok)

end

subsection \<open>The reference database\<close>

record sql_user =
  su_id :: u64
  su_name :: string
  su_pw :: string
  su_admin :: bool

record sql_db =
  t_allow :: "(u64 \<times> string) list"
  t_allow_next :: nat
  t_users :: "sql_user list"
  t_users_next :: nat

fun fits :: "result_bind \<Rightarrow> sqlval \<Rightarrow> bool" where
  "fits (BString n) (SqlStr s) = (length s \<le> n)"
| "fits _ _ = True"

text \<open>\<^verbatim>\<open>LIMIT 1\<close> into the result buffers: a value that does not fit is reported as truncated.\<close>

definition select_one :: "result_bind list \<Rightarrow> sqlval list list \<Rightarrow> exec_result" where
  "select_one rbs rows =
     (case rows of
        [] \<Rightarrow> ExecOk 0 0 0 FetchNoData
      | row # _ \<Rightarrow> ExecOk 1 1 0 (if list_all2 fits rbs row then FetchOk row else FetchOther))"

definition sql_error :: "u32 \<Rightarrow> string \<Rightarrow> exec_result" where
  "sql_error n msg = ExecErr n msg msg"

definition duplicate_key :: exec_result where
  "duplicate_key = sql_error 1062 ''Duplicate entry''"

definition too_long :: exec_result where
  "too_long = sql_error 1406 ''Data too long for column''"

definition auto_inc_failed :: exec_result where
  "auto_inc_failed = sql_error 1467 ''Failed to read auto-increment value from storage engine''"

definition kAutoIncMax :: nat where "kAutoIncMax = 2 ^ 63 - 1"

definition changed :: "nat \<Rightarrow> exec_result" where
  "changed n = ExecOk 0 (word_of_nat n) 0 FetchNoData"

definition insert_user :: "string \<Rightarrow> string \<Rightarrow> bool \<Rightarrow> sql_db \<Rightarrow> sql_db \<times> exec_result" where
  "insert_user un pw adm db =
     (if 255 < length un \<or> 4096 < length pw then (db, too_long)
      else if \<exists>r \<in> set (t_users db). su_name r = un then (db, duplicate_key)
      else if t_users_next db \<ge> kAutoIncMax then (db, auto_inc_failed)
      else (let i = word_of_nat (t_users_next db) in
            (db\<lparr>t_users := t_users db @ [\<lparr>su_id = i, su_name = un, su_pw = pw, su_admin = adm\<rparr>],
                t_users_next := t_users_next db + 1\<rparr>, ExecOk 0 1 i FetchNoData)))"

definition update_users :: "u64 \<Rightarrow> (sql_user \<Rightarrow> sql_user) \<Rightarrow> sql_db \<Rightarrow> sql_db \<times> exec_result" where
  "update_users i f db =
     (db\<lparr>t_users := map (\<lambda>r. if su_id r = i then f r else r) (t_users db)\<rparr>,
      changed (length (filter (\<lambda>r. su_id r = i \<and> f r \<noteq> r) (t_users db))))"

definition insert_allow :: "string \<Rightarrow> sql_db \<Rightarrow> sql_db \<times> exec_result" where
  "insert_allow ip db =
     (if 128 < length ip then (db, too_long)
      else if ip \<in> snd ` set (t_allow db) then (db, duplicate_key)
      else if t_allow_next db \<ge> kAutoIncMax then (db, auto_inc_failed)
      else (let i = word_of_nat (t_allow_next db) in
            (db\<lparr>t_allow := t_allow db @ [(i, ip)], t_allow_next := t_allow_next db + 1\<rparr>,
             ExecOk 0 1 i FetchNoData)))"

definition update_allow :: "u64 \<Rightarrow> string \<Rightarrow> sql_db \<Rightarrow> sql_db \<times> exec_result" where
  "update_allow i ip db =
     (if 128 < length ip then (db, too_long)
      else if \<exists>r \<in> set (t_allow db). fst r \<noteq> i \<and> snd r = ip \<and> i \<in> fst ` set (t_allow db) then (db, duplicate_key)
      else (db\<lparr>t_allow := map (\<lambda>r. if fst r = i then (i, ip) else r) (t_allow db)\<rparr>,
            changed (length (filter (\<lambda>r. fst r = i \<and> snd r \<noteq> ip) (t_allow db)))))"

definition rename_user :: "u64 \<Rightarrow> string \<Rightarrow> sql_db \<Rightarrow> sql_db \<times> exec_result" where
  "rename_user i un db =
     (if 255 < length un then (db, too_long)
      else if \<exists>r \<in> set (t_users db). su_id r \<noteq> i \<and> su_name r = un \<and> i \<in> su_id ` set (t_users db) then
        (db, duplicate_key)
      else update_users i (\<lambda>r. r\<lparr>su_name := un\<rparr>) db)"

definition delete_rows :: "('r \<Rightarrow> bool) \<Rightarrow> 'r list \<Rightarrow> 'r list \<times> nat" where
  "delete_rows p rs = (filter (\<lambda>r. \<not> p r) rs, length (filter p rs))"

definition sql_execute :: "sql_db \<Rightarrow> string \<Rightarrow> sqlval list \<Rightarrow> result_bind list \<Rightarrow> sql_db \<times> exec_result" where
  "sql_execute db q ps rbs =
     (let s = (\<lambda>k. sql_str (column ps k)); i = (\<lambda>k. sql_u64 (column ps k)); b = (\<lambda>k. sql_tiny (column ps k) \<noteq> 0) in
      if q = q_ip_select then
        (db, select_one rbs (map (\<lambda>_. [SqlInt 1]) (filter (\<lambda>r. snd r = s 0) (t_allow db))))
      else if q = q_user_select then
        (db, select_one rbs (map (\<lambda>r. [SqlInt (uint (su_id r)), SqlStr (su_pw r), SqlInt (bool_int (su_admin r))])
               (filter (\<lambda>r. su_name r = s 0) (t_users db))))
      else if q = q_user_id then
        (db, select_one rbs (map (\<lambda>r. [SqlInt (uint (su_id r))]) (filter (\<lambda>r. su_name r = s 0) (t_users db))))
      else if q = q_user_name then
        (db, select_one rbs (map (\<lambda>r. [SqlStr (su_name r)]) (filter (\<lambda>r. su_id r = i 0) (t_users db))))
      else if q = q_user_insert then insert_user (s 0) (s 1) (b 2) db
      else if q = q_user_set_name then rename_user (i 1) (s 0) db
      else if q = q_user_set_pw then update_users (i 1) (\<lambda>r. r\<lparr>su_pw := s 0\<rparr>) db
      else if q = q_user_set_admin then update_users (i 1) (\<lambda>r. r\<lparr>su_admin := b 0\<rparr>) db
      else if q = q_user_delete then
        (case delete_rows (\<lambda>r. su_id r = i 0) (t_users db) of (rs, n) \<Rightarrow> (db\<lparr>t_users := rs\<rparr>, changed n))
      else if q = q_allow_insert then insert_allow (s 0) db
      else if q = q_allow_update then update_allow (i 1) (s 0) db
      else if q = q_allow_delete then
        (case delete_rows (\<lambda>r. fst r = i 0) (t_allow db) of (rs, n) \<Rightarrow> (db\<lparr>t_allow := rs\<rparr>, changed n))
      else (db, sql_error 1064 ''You have an error in your SQL syntax''))"

definition sql_query :: "sql_db \<Rightarrow> string \<Rightarrow> query_result" where
  "sql_query db q =
     (if q = q_allow_list then
        QueryRows (map (\<lambda>(i, ip). [Some (dec_digits (unat i)), Some ip]) (sort_key (unat \<circ> fst) (t_allow db)))
      else if q = q_users_list then
        QueryRows (map (\<lambda>r. [Some (dec_digits (unat (su_id r))), Some (su_name r),
                             Some (if su_admin r then ''1'' else ''0'')])
                    (sort_key (unat \<circ> su_id) (t_users db)))
      else QueryErr ''You have an error in your SQL syntax'')"

definition empty_db :: sql_db where
  "empty_db = \<lparr>t_allow = [], t_allow_next = 1, t_users = [], t_users_next = 1\<rparr>"

text \<open>The data a connection finds: one allowed address and two accounts.\<close>

definition two_users :: sql_db where
  "two_users = \<lparr>t_allow = [(1, ''10.0.0.1'')], t_allow_next = 2,
     t_users = [\<lparr>su_id = 2, su_name = ''bob'', su_pw = ''b'', su_admin = False\<rparr>,
                \<lparr>su_id = 1, su_name = ''al'', su_pw = ''a'', su_admin = True\<rparr>], t_users_next = 3\<rparr>"

definition sql_api :: "sql_db mysql_api" where
  "sql_api = \<lparr>ma_init = True, ma_real_connect = (\<lambda>_. Inr two_users), ma_stmt_init = (\<lambda>_. True),
     ma_prepare = (\<lambda>_ _. None), ma_bind_param = (\<lambda>_ _ _. False), ma_bind_result = (\<lambda>_ _ _. False),
     ma_execute = sql_execute, ma_query = sql_query\<rparr>"

definition sql_accounts :: "sql_db \<Rightarrow> string \<rightharpoonup> account" where
  "sql_accounts db = map_of (map (\<lambda>r. (su_name r, (su_id r, su_pw r, su_admin r))) (t_users db))"

definition sql_allowed :: "sql_db \<Rightarrow> string set" where
  "sql_allowed db = snd ` set (t_allow db)"

definition sql_room :: "sql_db \<Rightarrow> bool" where
  "sql_room db \<longleftrightarrow> t_users_next db < kAutoIncMax"

lemma map_of_filter_None:
  "map_of (map (\<lambda>r. (f r, g r)) rs) x = None \<longleftrightarrow> filter (\<lambda>r. f r = x) rs = []"
  by (induction rs) auto

lemma map_of_filter_Some:
  "map_of (map (\<lambda>r. (f r, g r)) rs) x = Some y \<Longrightarrow> \<exists>r rs'. filter (\<lambda>r. f r = x) rs = r # rs' \<and> g r = y"
  by (induction rs) (auto split: if_splits)

lemma q_distinct [simp]:
  "q_user_select \<noteq> q_ip_select" "q_user_id \<noteq> q_ip_select" "q_user_id \<noteq> q_user_select"
  "q_user_name \<noteq> q_ip_select" "q_user_name \<noteq> q_user_select" "q_user_name \<noteq> q_user_id"
  by (simp_all add: q_defs)

lemma sql_user_select:
  "sql_execute db q_user_select [SqlStr un] rbs =
     (db, select_one rbs (map (\<lambda>r. [SqlInt (uint (su_id r)), SqlStr (su_pw r), SqlInt (bool_int (su_admin r))])
        (filter (\<lambda>r. su_name r = un) (t_users db))))"
  by (simp add: sql_execute_def column_def)

lemma sql_user_id:
  "sql_execute db q_user_id [SqlStr un] rbs =
     (db, select_one rbs (map (\<lambda>r. [SqlInt (uint (su_id r))]) (filter (\<lambda>r. su_name r = un) (t_users db))))"
  by (simp add: sql_execute_def column_def)

lemma sql_user_name:
  "sql_execute db q_user_name [SqlInt (uint i)] rbs =
     (db, select_one rbs (map (\<lambda>r. [SqlStr (su_name r)]) (filter (\<lambda>r. su_id r = i) (t_users db))))"
  by (simp add: sql_execute_def column_def)

lemma sql_ip_select:
  "sql_execute db q_ip_select [SqlStr ip] rbs =
     (db, select_one rbs (map (\<lambda>_. [SqlInt 1]) (filter (\<lambda>r. snd r = ip) (t_allow db))))"
  by (simp add: sql_execute_def column_def)

lemma sql_user_insert:
  "sql_execute db q_user_insert [SqlStr un, SqlStr pw, SqlInt (bool_int adm)] [] = insert_user un pw adm db"
  by (simp add: sql_execute_def column_def bool_int_def q_defs)

lemmas sql_statements = sql_user_select sql_user_id sql_user_name sql_ip_select sql_user_insert

lemma insert_user_new:
  assumes "sql_accounts db un = None" and "length un \<le> 255" and "length pw \<le> 4095" and "sql_room db"
  shows "\<exists>db' i. insert_user un pw adm db = (db', ExecOk 0 1 i FetchNoData) \<and>
    sql_accounts db' = (sql_accounts db)(un \<mapsto> (i, pw, adm)) \<and> t_allow db' = t_allow db"
proof -
  have no: "\<not> (\<exists>r \<in> set (t_users db). su_name r = un)"
    using assms(1) by (auto simp: sql_accounts_def map_of_filter_None filter_empty_conv)
  have "un \<notin> dom (map_of (map (\<lambda>r. (su_name r, su_id r, su_pw r, su_admin r)) (t_users db)))"
    using assms(1) by (simp add: sql_accounts_def domIff)
  with no assms show ?thesis
    by (simp add: insert_user_def sql_accounts_def sql_room_def map_add_upd_left Let_def)
qed

interpretation sql: account_db sql_api sql_accounts sql_allowed sql_room
proof
  fix db un i and pw :: string and adm
  assume "sql_accounts db un = Some (i, pw, adm)" "length pw \<le> 4096"
  then show "\<exists>n aff ins. ma_execute sql_api db q_user_select [SqlStr un] [BLong, BString 4096, BTiny] =
        (db, ExecOk n aff ins (FetchOk [SqlInt (uint i), SqlStr pw, SqlInt (bool_int adm)]))"
    unfolding sql_accounts_def
    by (auto dest!: map_of_filter_Some simp: sql_api_def sql_statements select_one_def)
next
  fix db un and pw :: string and adm
  assume "sql_accounts db un = None" "length un \<le> 255" "length pw \<le> 4095" "sql_room db"
  then show "\<exists>db' n aff i f. ma_execute sql_api db q_user_insert [SqlStr un, SqlStr pw, SqlInt (bool_int adm)] [] =
        (db', ExecOk n aff i f) \<and> sql_accounts db' = (sql_accounts db)(un \<mapsto> (i, pw, adm)) \<and>
        sql_allowed db' = sql_allowed db"
    using insert_user_new [of db un pw adm]
    by (auto simp: sql_api_def sql_statements sql_allowed_def sql_room_def)
next
  fix db un i and pw :: string and adm
  assume "sql_accounts db un = Some (i, pw, adm)"
  then show "\<exists>n aff ins. ma_execute sql_api db q_user_id [SqlStr un] [BLong] =
        (db, ExecOk n aff ins (FetchOk [SqlInt (uint i)]))"
    unfolding sql_accounts_def
    by (auto dest!: map_of_filter_Some simp: sql_api_def sql_statements select_one_def)
next
  fix db ip
  show "\<exists>n aff ins f. ma_execute sql_api db q_ip_select [SqlStr ip] [] =
        (db, ExecOk n aff ins f) \<and> (0 < n \<longleftrightarrow> ip \<in> sql_allowed db)"
    by (cases "filter (\<lambda>r. snd r = ip) (t_allow db)")
      (auto simp: sql_api_def sql_statements select_one_def sql_allowed_def filter_empty_conv filter_eq_Cons_iff)
qed (auto simp: sql_api_def sql_statements select_one_def sql_accounts_def map_of_filter_None split: list.splits)

lemma insert_user_row:
  "insert_user un pw adm db = (db', ExecOk n aff i f) \<Longrightarrow>
     length un \<le> 255 \<and> i = word_of_nat (t_users_next db) \<and>
     db' = db\<lparr>t_users := t_users db @ [\<lparr>su_id = i, su_name = un, su_pw = pw, su_admin = adm\<rparr>],
              t_users_next := t_users_next db + 1\<rparr>"
  by (auto simp: insert_user_def too_long_def duplicate_key_def auto_inc_failed_def sql_error_def Let_def split: if_splits)

lemma insert_user_no_conflict:
  assumes "sql_accounts db un = None"
  shows "insert_user un pw adm db \<noteq> (db', ExecErr 1062 m m')"
proof -
  have "\<not> (\<exists>r \<in> set (t_users db). su_name r = un)"
    using assms by (auto simp: sql_accounts_def map_of_filter_None filter_empty_conv)
  then show ?thesis by (auto simp: insert_user_def too_long_def auto_inc_failed_def sql_error_def Let_def)
qed

text \<open>A login that succeeds under an unknown name has added exactly the row of that name.\<close>

lemma login_registers:
  assumes "conn st = Some db" and "sql_accounts db (take 511 un) = None"
    and "authenticate_or_register sql_api un pw w st = (st', Inr ui)"
  shows "length un \<le> 255 \<and> ui_id ui = word_of_nat (t_users_next db) \<and>
    conn st' = Some (db\<lparr>t_users := t_users db @ [\<lparr>su_id = ui_id ui, su_name = un, su_pw = take 4095 pw, su_admin = w\<rparr>],
      t_users_next := t_users_next db + 1\<rparr>)"
proof -
  let ?ins = "insert_user (take 511 un) (take 4095 pw) w db"
  have sel: "run_stmt sql_api db q_user_select [SqlStr (take 511 un)] [BLong, BString 4096, BTiny] =
      (db, Executed 0 0 0 FetchNoData)"
    using assms(2) by (simp add: run_stmt_def sql_api_def sql_user_select select_one_def sql_accounts_def map_of_filter_None)
  obtain db' x where ins: "?ins = (db', x)" by fastforce
  show ?thesis
  proof (cases x)
    case (ExecOk n aff i f)
    with ins assms(1,3) sel have "ui = \<lparr>ui_id = i, ui_admin = w\<rparr>" "conn st' = Some db'"
      unfolding authenticate_unfold [OF assms(1)] auth_attempts.simps
      by (auto simp: run_stmt_def sql_api_def sql_user_insert)
    with insert_user_row [OF ins [unfolded ExecOk]] show ?thesis by auto
  next
    case (ExecErr en m m')
    with insert_user_no_conflict [OF assms(2)] ins have "en \<noteq> 1062" by metis
    with ExecErr ins assms(3) sel show ?thesis
      unfolding authenticate_unfold [OF assms(1)] auth_attempts.simps
      by (auto simp: run_stmt_def sql_api_def sql_user_insert)
  qed
qed

subsection \<open>Properties\<close>

text \<open>
  C23. Login against the account table.  On a connected store over the reference database, a known
  user name is answered by comparing the stored password and role and changes nothing; an unknown
  name of at most 255 bytes is registered with the given role and the first 4095 bytes of the
  password, under a new identifier that the reply carries.
\<close>

theorem authenticate_refines_table:
  assumes "conn st = Some db" and "length un \<le> 255"
    and "\<forall>r \<in> set (t_users db). length (su_pw r) \<le> 4096" and "sql_room db"
  shows "case sql_accounts db un of
      Some a \<Rightarrow> authenticate_or_register sql_api un pw w st = (st, login_result a pw w)
    | None \<Rightarrow> \<exists>db' i. authenticate_or_register sql_api un pw w st =
          (st\<lparr>conn := Some db'\<rparr>, Inr \<lparr>ui_id = i, ui_admin = w\<rparr>) \<and>
        sql_accounts db' = (sql_accounts db)(un \<mapsto> (i, take 4095 pw, w)) \<and> sql_allowed db' = sql_allowed db"
proof (cases "sql_accounts db un")
  case None
  then show ?thesis using sql.login_unknown [OF assms(1) None assms(2,4)] by simp
next
  case (Some a)
  then obtain r where "r \<in> set (t_users db)" "a = (su_id r, su_pw r, su_admin r)"
    by (auto simp: sql_accounts_def dest!: map_of_SomeD)
  with assms(3) have "length (fst (snd a)) \<le> 4096" by simp
  with Some assms(2) show ?thesis using sql.login_known [OF assms(1), of un a] by simp
qed

theorem authenticate_refines_table_witness:
  "\<exists>db' i. authenticate_or_register sql_api ''bob'' ''pw'' False
      \<lparr>conn = Some empty_db, cfg = mysql default_config\<rparr> =
        (\<lparr>conn = Some db', cfg = mysql default_config\<rparr>, Inr \<lparr>ui_id = i, ui_admin = False\<rparr>) \<and>
      sql_accounts db' = [''bob'' \<mapsto> (i, ''pw'', False)]"
  using authenticate_refines_table [of "\<lparr>conn = Some empty_db, cfg = mysql default_config\<rparr>" empty_db
      "''bob''" "''pw''" False]
  by (auto simp: empty_db_def sql_room_def kAutoIncMax_def sql_accounts_def)

text \<open>
  C24. Registration and later logins.  After the first login of a new user name with a password of
  at most 4095 bytes, a login with the same password and role succeeds with the same identifier,
  another password and another role are refused, and \<^verbatim>\<open>user_id_by_username\<close> finds the identifier.
\<close>

theorem register_then_login:
  assumes "conn st = Some db" and "sql_accounts db un = None" and "length un \<le> 255" and "sql_room db"
    and "length pw \<le> 4095"
    and "authenticate_or_register sql_api un pw w st = (st', r)"
  shows "\<exists>i. r = Inr \<lparr>ui_id = i, ui_admin = w\<rparr> \<and>
    authenticate_or_register sql_api un pw w st' = (st', Inr \<lparr>ui_id = i, ui_admin = w\<rparr>) \<and>
    (pw' \<noteq> pw \<longrightarrow> authenticate_or_register sql_api un pw' w' st' = (st', Inl txt_no_user_or_bad_password)) \<and>
    authenticate_or_register sql_api un pw (\<not> w) st' = (st', Inl txt_role_mismatch) \<and>
    user_id_by_username sql_api un st' = (st', Some i)"
proof -
  obtain db' i where r: "r = Inr \<lparr>ui_id = i, ui_admin = w\<rparr>" "conn st' = Some db'"
      "sql_accounts db' = (sql_accounts db)(un \<mapsto> (i, pw, w))"
    using sql.login_unknown [OF assms(1-4), of pw w] assms(5,6) by auto
  then have "sql_accounts db' (take 511 un) = Some (i, pw, w)" using assms(3) by simp
  with r assms(5) sql.login_known [OF r(2), of un "(i, pw, w)"] sql.user_id_lookup [OF r(2), of un]
  show ?thesis by (simp add: login_result_def)
qed

theorem register_then_login_witness:
  "\<exists>st' i. authenticate_or_register sql_api ''bob'' ''pw'' True
      \<lparr>conn = Some empty_db, cfg = mysql default_config\<rparr> = (st', Inr \<lparr>ui_id = i, ui_admin = True\<rparr>) \<and>
    authenticate_or_register sql_api ''bob'' ''pw'' True st' = (st', Inr \<lparr>ui_id = i, ui_admin = True\<rparr>)"
proof -
  let ?st = "\<lparr>conn = Some empty_db, cfg = mysql default_config\<rparr>"
  obtain st' r where a: "authenticate_or_register sql_api ''bob'' ''pw'' True ?st = (st', r)" by fastforce
  show ?thesis
    using register_then_login [of ?st empty_db "''bob''" "''pw''" True st' r] a
    by (auto simp: empty_db_def sql_room_def kAutoIncMax_def sql_accounts_def)
qed

text \<open>
  C35. A password longer than 4095 bytes locks its owner out.  Registration stores only the first
  4095 bytes but reports success, and the next login with the very same password compares it in
  full and is refused.
\<close>

theorem long_password_locked_out:
  assumes "conn st = Some db" and "sql_accounts db un = None" and "length un \<le> 255" and "sql_room db"
    and "4095 < length pw"
    and "authenticate_or_register sql_api un pw w st = (st', r)"
  shows "(\<exists>ui. r = Inr ui) \<and>
    authenticate_or_register sql_api un pw w st' = (st', Inl txt_no_user_or_bad_password)"
proof -
  obtain db' i where r: "r = Inr \<lparr>ui_id = i, ui_admin = w\<rparr>" "conn st' = Some db'"
      "sql_accounts db' = (sql_accounts db)(un \<mapsto> (i, take 4095 pw, w))"
    using sql.login_unknown [OF assms(1-4), of pw w] assms(6) by auto
  then have "sql_accounts db' (take 511 un) = Some (i, take 4095 pw, w)" using assms(3) by simp
  moreover have "take 4095 pw \<noteq> pw"
  proof
    assume "take 4095 pw = pw"
    then have "length (take 4095 pw) = length pw" by simp
    with assms(5) show False by simp
  qed
  ultimately show ?thesis using r(1) sql.login_known [OF r(2), of un "(i, take 4095 pw, w)" pw w]
    by (simp add: login_result_def)
qed

theorem long_password_locked_out_witness:
  "\<exists>st'. authenticate_or_register sql_api ''bob'' (replicate 5000 CHR ''x'') False st' =
      (st', Inl txt_no_user_or_bad_password)"
proof -
  let ?st = "\<lparr>conn = Some empty_db, cfg = mysql default_config\<rparr>"
  let ?pw = "replicate 5000 CHR ''x''"
  obtain st' r where a: "authenticate_or_register sql_api ''bob'' ?pw False ?st = (st', r)" by fastforce
  have "4095 < length ?pw" by (simp only: length_replicate)
  with long_password_locked_out [of ?st empty_db "''bob''" ?pw False st' r] a show ?thesis
    by (auto simp: empty_db_def sql_room_def kAutoIncMax_def sql_accounts_def)
qed

lemma filter_map_rows:
  "(\<And>r. r \<in> set rs \<Longrightarrow> f (g r) = Some (h r)) \<Longrightarrow> List.map_filter f (map g rs) = map h rs"
  by (induction rs) (auto simp: List.map_filter_simps)

lemma unat_u64_less: "unat (w :: u64) < 2 ^ 64"
  using unsigned_less [of w] by simp

lemma user_row_printed:
  "CHR 0x00 \<notin> set un \<Longrightarrow>
     user_row [Some (dec_digits (unat i)), Some un, Some (if a then ''1'' else ''0'')] =
       Some \<lparr>user_row_id = i, user_row_name = un, user_row_admin = a\<rparr>"
  using unat_u64_less [of i]
  by (simp add: user_row_def field_def stoull_dec_digits c_str_no_nul)

text \<open>
  \<^verbatim>\<open>admin_list_users\<close> is complete.  Over the reference database, with user names free of NUL
  bytes, it returns every account exactly once, in ascending order of identifiers, with its name
  and role as stored; no row is skipped by the number parser.
\<close>

lemma admin_list_users_complete:
  assumes "conn st = Some db" and "\<forall>r \<in> set (t_users db). CHR 0x00 \<notin> set (su_name r)"
  shows "admin_list_users sql_api st =
    Inr (map (\<lambda>r. \<lparr>user_row_id = su_id r, user_row_name = su_name r, user_row_admin = su_admin r\<rparr>)
          (sort_key (unat \<circ> su_id) (t_users db)))"
  using assms user_row_printed
  by (simp add: admin_list_users_def list_rows_def sql_api_def sql_query_def q_defs)
    (rule filter_map_rows, simp)

subsubsection \<open>Updates\<close>

lemma sql_set_name:
  "sql_execute db q_user_set_name [SqlStr un, SqlInt (uint i)] [] = rename_user i un db"
  by (simp add: sql_execute_def column_def q_defs)

lemma sql_set_pw:
  "sql_execute db q_user_set_pw [SqlStr pw, SqlInt (uint i)] [] = update_users i (\<lambda>r. r\<lparr>su_pw := pw\<rparr>) db"
  by (simp add: sql_execute_def column_def q_defs)

lemma run_one_sql:
  "conn st = Some db \<Longrightarrow> run_one sql_api q v i st =
     (case sql_execute db q [v, SqlInt (uint i)] [] of
        (db', ExecErr _ e _) \<Rightarrow> (st\<lparr>conn := Some db'\<rparr>, Some (if duplicate_error e then txt_username_conflict else e))
      | (db', ExecOk _ aff _ _) \<Rightarrow> (st\<lparr>conn := Some db'\<rparr>, if aff = 0 then Some txt_no_such_id else None))"
  by (simp add: run_one_def exec_op_def run_stmt_def sql_api_def exec_status_def
      split: prod.splits exec_result.splits)

lemma update_users_unchanged:
  "(\<And>r. r \<in> set (t_users db) \<Longrightarrow> su_id r = i \<Longrightarrow> f r = r) \<Longrightarrow> update_users i f db = (db, changed 0)"
proof -
  assume u: "\<And>r. r \<in> set (t_users db) \<Longrightarrow> su_id r = i \<Longrightarrow> f r = r"
  then have "map (\<lambda>r. if su_id r = i then f r else r) (t_users db) = t_users db"
    by (intro map_idI) auto
  moreover have "filter (\<lambda>r. su_id r = i \<and> f r \<noteq> r) (t_users db) = []"
    using u by (auto simp: filter_empty_conv)
  ultimately show ?thesis by (simp add: update_users_def)
qed

text \<open>
  C36. An update that does not change the stored value is reported as a missing row.  The code takes
  zero affected rows for ``no such id'', but MySQL counts changed rows: setting the password that an
  existing account already has answers with that error, and nothing is changed.
\<close>

theorem unchanged_password_reported_missing:
  assumes "conn st = Some db" and "x \<in> set (t_users db)" and "distinct (map su_id (t_users db))" and "length (su_pw x) \<le> 4095"
  shows "admin_update_user sql_api (su_id x) None (Some (su_pw x)) None st = (st, Some txt_no_such_id)"
proof -
  have "r = x" if "r \<in> set (t_users db)" "su_id r = su_id x" for r
    using assms(2,3) that by (simp add: distinct_map inj_on_def)
  then have "update_users (su_id x) (\<lambda>r. r\<lparr>su_pw := su_pw x\<rparr>) db = (db, changed 0)"
    by (intro update_users_unchanged) (metis sql_user.surjective sql_user.update_convs(3))
  with assms(1,4) show ?thesis
    by (simp add: admin_update_user_def then_run_def run_one_sql sql_set_pw changed_def)
qed

theorem unchanged_password_reported_missing_witness:
  "admin_update_user sql_api 2 None (Some ''b'') None \<lparr>conn = Some two_users, cfg = mysql default_config\<rparr> =
     (\<lparr>conn = Some two_users, cfg = mysql default_config\<rparr>, Some txt_no_such_id)"
  using unchanged_password_reported_missing [of "\<lparr>conn = Some two_users, cfg = mysql default_config\<rparr>" two_users
      "\<lparr>su_id = 2, su_name = ''bob'', su_pw = ''b'', su_admin = False\<rparr>"]
  by (simp add: two_users_def)

text \<open>
  C37. A multi-field update is not atomic.  Renaming an existing account to an unused name and
  ``changing'' its password to the one it has answers with an error, but the rename has been done.
\<close>

theorem failed_update_renames:
  assumes "conn st = Some db" and "length pw \<le> 4095" and "length un \<le> 255"
    and "r \<in> set (t_users db)" and "su_id r = i" and "su_name r \<noteq> un"
    and "\<forall>r \<in> set (t_users db). su_id r = i \<longrightarrow> su_pw r = pw"
    and "\<forall>r \<in> set (t_users db). su_name r \<noteq> un"
    and "length (t_users db) < 2 ^ 64"
  shows "\<exists>db'. admin_update_user sql_api i (Some un) (Some pw) None st =
      (st\<lparr>conn := Some db'\<rparr>, Some txt_no_such_id) \<and>
    t_users db' = map (\<lambda>r. if su_id r = i then r\<lparr>su_name := un\<rparr> else r) (t_users db)"
proof -
  let ?rs = "map (\<lambda>r. if su_id r = i then r\<lparr>su_name := un\<rparr> else r) (t_users db)"
  let ?hit = "filter (\<lambda>r. su_id r = i \<and> r\<lparr>su_name := un\<rparr> \<noteq> r) (t_users db)"
  have "r\<lparr>su_name := un\<rparr> \<noteq> r"
  proof
    assume "r\<lparr>su_name := un\<rparr> = r"
    then have "su_name (r\<lparr>su_name := un\<rparr>) = su_name r" by simp
    with assms(6) show False by simp
  qed
  with assms(4,5) have "?hit \<noteq> []" by (auto simp: filter_empty_conv)
  moreover have "length ?hit < 2 ^ 64"
    using length_filter_le [of "\<lambda>r. su_id r = i \<and> r\<lparr>su_name := un\<rparr> \<noteq> r" "t_users db"] assms(9)
    by (rule le_less_trans)
  ultimately have "(word_of_nat (length ?hit) :: u64) \<noteq> 0"
    using word_of_nat_inj [where 'a = 64, of "length ?hit" 0] by auto
  with assms(8) have ren: "rename_user i un db = (db\<lparr>t_users := ?rs\<rparr>, ExecOk 0 (word_of_nat (length ?hit)) 0 FetchNoData)"
    using assms(3) by (simp add: rename_user_def update_users_def changed_def)
  have pw: "update_users i (\<lambda>r. r\<lparr>su_pw := pw\<rparr>) (db\<lparr>t_users := ?rs\<rparr>) = (db\<lparr>t_users := ?rs\<rparr>, changed 0)"
  proof (rule update_users_unchanged)
    fix r assume "r \<in> set (t_users (db\<lparr>t_users := ?rs\<rparr>))" "su_id r = i"
    then have "r \<in> (\<lambda>r. if su_id r = i then r\<lparr>su_name := un\<rparr> else r) ` set (t_users db)" by simp
    then obtain r0 where "r0 \<in> set (t_users db)" "r = (if su_id r0 = i then r0\<lparr>su_name := un\<rparr> else r0)"
      by blast
    with assms(7) \<open>su_id r = i\<close> have "su_pw r = pw" by (simp split: if_splits)
    then show "r\<lparr>su_pw := pw\<rparr> = r" by simp
  qed
  have "run_one sql_api q_user_set_name (SqlStr un) i st = (st\<lparr>conn := Some (db\<lparr>t_users := ?rs\<rparr>)\<rparr>, None)"
    using \<open>word_of_nat (length ?hit) \<noteq> 0\<close> by (simp add: run_one_sql [OF assms(1)] sql_set_name ren)
  moreover have "run_one sql_api q_user_set_pw (SqlStr pw) i (st\<lparr>conn := Some (db\<lparr>t_users := ?rs\<rparr>)\<rparr>) =
      (st\<lparr>conn := Some (db\<lparr>t_users := ?rs\<rparr>)\<rparr>, Some txt_no_such_id)"
    using pw by (simp add: run_one_sql [where db = "db\<lparr>t_users := ?rs\<rparr>"] sql_set_pw changed_def)
  ultimately have "admin_update_user sql_api i (Some un) (Some pw) None st =
      (st\<lparr>conn := Some (db\<lparr>t_users := ?rs\<rparr>)\<rparr>, Some txt_no_such_id)"
    using assms(1-3) by (simp add: admin_update_user_def then_run_def)
  then show ?thesis by (intro exI [of _ "db\<lparr>t_users := ?rs\<rparr>"]) simp
qed

theorem failed_update_renames_witness:
  "\<exists>db'. admin_update_user sql_api 2 (Some ''eve'') (Some ''b'') None
      \<lparr>conn = Some two_users, cfg = mysql default_config\<rparr> =
      (\<lparr>conn = Some db', cfg = mysql default_config\<rparr>, Some txt_no_such_id) \<and>
    map su_name (t_users db') = [''eve'', ''al'']"
  using failed_update_renames [of "\<lparr>conn = Some two_users, cfg = mysql default_config\<rparr>" two_users "''b''" "''eve''"
      "\<lparr>su_id = 2, su_name = ''bob'', su_pw = ''b'', su_admin = False\<rparr>" 2]
  by (auto simp: two_users_def)

end
