(* ===== verification/Endian.thy ===== *)
theory Endian
  imports Prelude
begin

text \<open>
  \<^verbatim>\<open>deliver/client/include/fwd/endian.hpp\<close>: little-endian readers and writers on byte buffers.
  A pointer \<open>p + off\<close> into a buffer is the buffer and the offset; a reader takes the buffer
  from \<open>p\<close> on, a writer updates the buffer in place.  Reads and writes past the end of a buffer
  are undefined behaviour in the source; every caller passes a buffer that is long enough, which
  the lemmas below take as their length premise.
\<close>

subsection \<open>Readers\<close>

definition read_u16_le :: "bytes \<Rightarrow> u16" where
  "read_u16_le p = ucast (p ! 0) OR push_bit 8 (ucast (p ! 1))"

definition read_u32_le :: "bytes \<Rightarrow> u32" where
  "read_u32_le p =
     ucast (p ! 0) OR push_bit 8 (ucast (p ! 1)) OR push_bit 16 (ucast (p ! 2)) OR
     push_bit 24 (ucast (p ! 3))"

definition read_u64_le :: "bytes \<Rightarrow> u64" where
  "read_u64_le p =
     ucast (p ! 0) OR push_bit 8 (ucast (p ! 1)) OR push_bit 16 (ucast (p ! 2)) OR
     push_bit 24 (ucast (p ! 3)) OR push_bit 32 (ucast (p ! 4)) OR push_bit 40 (ucast (p ! 5)) OR
     push_bit 48 (ucast (p ! 6)) OR push_bit 56 (ucast (p ! 7))"

subsection \<open>Writers\<close>

definition write_u16_le :: "bytes \<Rightarrow> nat \<Rightarrow> u16 \<Rightarrow> bytes" where
  "write_u16_le b p v = b[p := ucast (v AND 0xff), p + 1 := ucast (drop_bit 8 v AND 0xff)]"

definition write_u32_le :: "bytes \<Rightarrow> nat \<Rightarrow> u32 \<Rightarrow> bytes" where
  "write_u32_le b p v =
     b[p := ucast (v AND 0xff), p + 1 := ucast (drop_bit 8 v AND 0xff),
       p + 2 := ucast (drop_bit 16 v AND 0xff), p + 3 := ucast (drop_bit 24 v AND 0xff)]"

definition write_u64_le :: "bytes \<Rightarrow> nat \<Rightarrow> u64 \<Rightarrow> bytes" where
  "write_u64_le b p v =
     b[p := ucast (v AND 0xff), p + 1 := ucast (drop_bit 8 v AND 0xff),
       p + 2 := ucast (drop_bit 16 v AND 0xff), p + 3 := ucast (drop_bit 24 v AND 0xff),
       p + 4 := ucast (drop_bit 32 v AND 0xff), p + 5 := ucast (drop_bit 40 v AND 0xff),
       p + 6 := ucast (drop_bit 48 v AND 0xff), p + 7 := ucast (drop_bit 56 v AND 0xff)]"

subsection \<open>Bytes of a word\<close>

lemma bit_and_ff:
  fixes v :: "'a::len word"
  shows "bit (v AND 0xff) i \<longleftrightarrow> i < 8 \<and> bit v i"
proof -
  have m: "(0xff :: 'a word) = mask 8" by (simp add: mask_eq_exp_minus_1)
  show ?thesis unfolding m by (auto simp: bit_simps dest: bit_imp_le_length)
qed

lemma bit_pushed_byte:
  fixes v :: "'a::len word"
  shows "bit (push_bit k (ucast (ucast (drop_bit k v AND 0xff) :: u8)) :: 'a word) n \<longleftrightarrow>
    k \<le> n \<and> n < k + 8 \<and> bit v n"
  by (auto simp: bit_push_bit_iff bit_ucast_iff bit_and_ff bit_drop_bit_eq dest: bit_imp_le_length)

lemma bit_low_byte:
  fixes v :: "'a::len word"
  shows "bit (ucast (ucast (v AND 0xff) :: u8) :: 'a word) n \<longleftrightarrow> n < 8 \<and> bit v n"
  using bit_pushed_byte [of 0 v n] by simp

lemmas byte_bits = bit_or_iff bit_pushed_byte bit_low_byte

lemma join_u16_bytes:
  fixes v :: u16
  shows "ucast (ucast (v AND 0xff) :: u8) OR push_bit 8 (ucast (ucast (drop_bit 8 v AND 0xff) :: u8)) = v" (is "?l = v")
proof (rule bit_word_eqI)
  fix n assume "n < LENGTH(16)"
  then have "n < 8 \<or> 8 \<le> n \<and> n < 8 + 8" by simp arith
  then show "bit ?l n = bit v n"
    unfolding byte_bits by blast
qed

lemma join_u32_bytes:
  fixes v :: u32
  shows "ucast (ucast (v AND 0xff) :: u8) OR push_bit 8 (ucast (ucast (drop_bit 8 v AND 0xff) :: u8)) OR
    push_bit 16 (ucast (ucast (drop_bit 16 v AND 0xff) :: u8)) OR
    push_bit 24 (ucast (ucast (drop_bit 24 v AND 0xff) :: u8)) = v" (is "?l = v")
proof (rule bit_word_eqI)
  fix n assume "n < LENGTH(32)"
  then have "n < 8 \<or> 8 \<le> n \<and> n < 8 + 8 \<or> 16 \<le> n \<and> n < 16 + 8 \<or> 24 \<le> n \<and> n < 24 + 8" by simp arith
  then show "bit ?l n = bit v n"
    unfolding byte_bits by blast
qed

lemma join_u64_bytes:
  fixes v :: u64
  shows "ucast (ucast (v AND 0xff) :: u8) OR push_bit 8 (ucast (ucast (drop_bit 8 v AND 0xff) :: u8)) OR
    push_bit 16 (ucast (ucast (drop_bit 16 v AND 0xff) :: u8)) OR
    push_bit 24 (ucast (ucast (drop_bit 24 v AND 0xff) :: u8)) OR
    push_bit 32 (ucast (ucast (drop_bit 32 v AND 0xff) :: u8)) OR
    push_bit 40 (ucast (ucast (drop_bit 40 v AND 0xff) :: u8)) OR
    push_bit 48 (ucast (ucast (drop_bit 48 v AND 0xff) :: u8)) OR
    push_bit 56 (ucast (ucast (drop_bit 56 v AND 0xff) :: u8)) = v" (is "?l = v")
proof (rule bit_word_eqI)
  fix n assume "n < LENGTH(64)"
  then have "n < 8 \<or> 8 \<le> n \<and> n < 8 + 8 \<or> 16 \<le> n \<and> n < 16 + 8 \<or> 24 \<le> n \<and> n < 24 + 8 \<or>
    32 \<le> n \<and> n < 32 + 8 \<or> 40 \<le> n \<and> n < 40 + 8 \<or> 48 \<le> n \<and> n < 48 + 8 \<or> 56 \<le> n \<and> n < 56 + 8"
    by simp arith
  then show "bit ?l n = bit v n"
    unfolding byte_bits by blast
qed

lemmas byte_split_simps = bit_or_iff bit_push_bit_iff bit_ucast_iff bit_and_ff bit_drop_bit_eq

lemma split_u16_bytes:
  fixes a b :: u8
  defines "v \<equiv> (ucast a OR push_bit 8 (ucast b) :: u16)"
  shows "ucast (v AND 0xff) = a" and "ucast (drop_bit 8 v AND 0xff) = b"
  unfolding v_def by (rule bit_word_eqI; auto simp: byte_split_simps dest: bit_imp_le_length)+

lemma split_u32_bytes:
  fixes a b c d :: u8
  defines "v \<equiv> (ucast a OR push_bit 8 (ucast b) OR push_bit 16 (ucast c) OR push_bit 24 (ucast d) :: u32)"
  shows "ucast (v AND 0xff) = a" and "ucast (drop_bit 8 v AND 0xff) = b"
    and "ucast (drop_bit 16 v AND 0xff) = c" and "ucast (drop_bit 24 v AND 0xff) = d"
  unfolding v_def by (rule bit_word_eqI; auto simp: byte_split_simps dest: bit_imp_le_length)+

lemma bytes_of_read_u16_le:
  "ucast (read_u16_le p AND 0xff) = p ! 0" "ucast (drop_bit 8 (read_u16_le p) AND 0xff) = p ! 1"
  unfolding read_u16_le_def by (rule split_u16_bytes)+

lemma bytes_of_read_u32_le:
  "ucast (read_u32_le p AND 0xff) = p ! 0" "ucast (drop_bit 8 (read_u32_le p) AND 0xff) = p ! 1"
  "ucast (drop_bit 16 (read_u32_le p) AND 0xff) = p ! 2" "ucast (drop_bit 24 (read_u32_le p) AND 0xff) = p ! 3"
  unfolding read_u32_le_def by (rule split_u32_bytes)+

subsection \<open>Reading back what was written\<close>

lemma length_write_le [simp]:
  "length (write_u16_le b p v16) = length b"
  "length (write_u32_le b p v32) = length b"
  "length (write_u64_le b p v64) = length b"
  by (simp_all add: write_u16_le_def write_u32_le_def write_u64_le_def)

lemma read_write_u16_le: "p + 2 \<le> length b \<Longrightarrow> read_u16_le (drop p (write_u16_le b p v)) = v"
  by (simp add: read_u16_le_def write_u16_le_def join_u16_bytes)

lemma read_write_u32_le: "p + 4 \<le> length b \<Longrightarrow> read_u32_le (drop p (write_u32_le b p v)) = v"
  by (simp add: read_u32_le_def write_u32_le_def join_u32_bytes)

lemma read_write_u64_le: "p + 8 \<le> length b \<Longrightarrow> read_u64_le (drop p (write_u64_le b p v)) = v"
  by (simp add: read_u64_le_def write_u64_le_def join_u64_bytes)

end
