(* ===== verification/Protocol.thy ===== *)
theory Protocol
  imports Endian
begin

text \<open>
  \<^verbatim>\<open>fwd/protocol.hpp\<close> and \<^verbatim>\<open>fwd/relay_constants.hpp\<close>: the 24-byte little-endian v3 header, its
  encoder and decoder, and the message type and error code constants.
  The lemmas show that encoder and decoder are inverse in both directions.
\<close>

subsection \<open>The header\<close>

definition kMagic :: u32 where "kMagic = 0x44574641"
definition kVersion :: u16 where "kVersion = 3"
definition kHeaderLen :: u16 where "kHeaderLen = 24"

record Header =
  magic :: u32
  version :: u16
  header_len :: u16
  body_len :: u32
  msg_type :: u32
  seq :: u32
  reserved0 :: u32

text \<open>\<^verbatim>\<open>Header h{}\<close>: the default member initialisers.\<close>

definition default_header :: Header where
  "default_header = \<lparr>magic = kMagic, version = kVersion, header_len = kHeaderLen, body_len = 0,
     msg_type = 0, seq = 0, reserved0 = 0\<rparr>"

definition wire_size :: nat where "wire_size = unat kHeaderLen"

definition pack_le :: "Header \<Rightarrow> bytes" where
  "pack_le h =
     (let b = replicate (unat kHeaderLen) 0;
          b = write_u32_le b 0 (magic h);
          b = write_u16_le b 4 (version h);
          b = write_u16_le b 6 (header_len h);
          b = write_u32_le b 8 (body_len h);
          b = write_u32_le b 12 (msg_type h);
          b = write_u32_le b 16 (seq h);
          b = write_u32_le b 20 (reserved0 h)
      in b)"

definition unpack_le :: "bytes \<Rightarrow> Header" where
  "unpack_le p =
     \<lparr>magic = read_u32_le p, version = read_u16_le (drop 4 p), header_len = read_u16_le (drop 6 p),
      body_len = read_u32_le (drop 8 p), msg_type = read_u32_le (drop 12 p),
      seq = read_u32_le (drop 16 p), reserved0 = read_u32_le (drop 20 p)\<rparr>"

text \<open>The acceptance test every reader of a frame makes before it trusts a header.\<close>

definition header_valid :: "Header \<Rightarrow> bool" where
  "header_valid h \<longleftrightarrow> \<not> (magic h \<noteq> kMagic \<or> version h \<noteq> kVersion \<or> header_len h \<noteq> kHeaderLen)"

record Frame =
  frame_header :: Header
  frame_body :: string

subsection \<open>Message types and error codes\<close>

definition kClientLogin :: u32 where "kClientLogin = 1"
definition kClientHeartbeat :: u32 where "kClientHeartbeat = 2"
definition kClientControl :: u32 where "kClientControl = 3"
definition kClientData :: u32 where "kClientData = 4"
definition kMsgDeliver :: u32 where "kMsgDeliver = 200"
definition kMsgServerReply :: u32 where "kMsgServerReply = 201"
definition kMsgKick :: u32 where "kMsgKick = 202"

definition kIpNotAllowed :: int where "kIpNotAllowed = 1001"
definition kAuthFailed :: int where "kAuthFailed = 1002"
definition kInvalidLoginBody :: int where "kInvalidLoginBody = 1003"
definition kRoleMismatch :: int where "kRoleMismatch = 1004"
definition kProtocol :: int where "kProtocol = 1005"

lemmas msg_type_defs = kClientLogin_def kClientHeartbeat_def kClientControl_def kClientData_def
  kMsgDeliver_def kMsgServerReply_def kMsgKick_def

lemmas errc_defs = kIpNotAllowed_def kAuthFailed_def kInvalidLoginBody_def kRoleMismatch_def
  kProtocol_def

lemmas header_consts = kMagic_def kVersion_def kHeaderLen_def wire_size_def

subsection \<open>The wire image of a header\<close>

lemma length_pack_le [simp]: "length (pack_le h) = 24"
  by (simp add: pack_le_def header_consts Let_def)

lemma replicate_24: "replicate 24 (x :: 'a) = [x,x,x,x,x,x,x,x,x,x,x,x,x,x,x,x,x,x,x,x,x,x,x,x]"
  by (simp add: numeral_eq_Suc)

lemma pack_le_image [wire_simps]:
  "pack_le h =
     [ucast (magic h AND 0xff), ucast (drop_bit 8 (magic h) AND 0xff),
      ucast (drop_bit 16 (magic h) AND 0xff), ucast (drop_bit 24 (magic h) AND 0xff),
      ucast (version h AND 0xff), ucast (drop_bit 8 (version h) AND 0xff),
      ucast (header_len h AND 0xff), ucast (drop_bit 8 (header_len h) AND 0xff),
      ucast (body_len h AND 0xff), ucast (drop_bit 8 (body_len h) AND 0xff),
      ucast (drop_bit 16 (body_len h) AND 0xff), ucast (drop_bit 24 (body_len h) AND 0xff),
      ucast (msg_type h AND 0xff), ucast (drop_bit 8 (msg_type h) AND 0xff),
      ucast (drop_bit 16 (msg_type h) AND 0xff), ucast (drop_bit 24 (msg_type h) AND 0xff),
      ucast (seq h AND 0xff), ucast (drop_bit 8 (seq h) AND 0xff),
      ucast (drop_bit 16 (seq h) AND 0xff), ucast (drop_bit 24 (seq h) AND 0xff),
      ucast (reserved0 h AND 0xff), ucast (drop_bit 8 (reserved0 h) AND 0xff),
      ucast (drop_bit 16 (reserved0 h) AND 0xff), ucast (drop_bit 24 (reserved0 h) AND 0xff)]"
  by (simp add: pack_le_def header_consts Let_def write_u32_le_def write_u16_le_def replicate_24
      list_update_code)

lemma unpack_pack_le [simp]: "unpack_le (pack_le h) = h"
  by (simp add: unpack_le_def pack_le_image read_u32_le_def read_u16_le_def join_u32_bytes
      join_u16_bytes)

text \<open>A buffer of at least 24 bytes, taken apart byte by byte.\<close>

lemma take_24:
  assumes "24 \<le> length p"
  shows "take 24 p =
    [p ! 0, p ! 1, p ! 2, p ! 3, p ! 4, p ! 5, p ! 6, p ! 7, p ! 8, p ! 9, p ! 10, p ! 11,
     p ! 12, p ! 13, p ! 14, p ! 15, p ! 16, p ! 17, p ! 18, p ! 19, p ! 20, p ! 21, p ! 22, p ! 23]"
proof -
  have "take 24 p = map ((!) p) [0..<24]"
    using assms by (intro nth_equalityI) simp_all
  then show ?thesis by (simp add: upt_rec numeral_eq_Suc)
qed

lemma pack_unpack_le: "24 \<le> length p \<Longrightarrow> pack_le (unpack_le p) = take 24 p"
  by (simp add: take_24 pack_le_image unpack_le_def bytes_of_read_u32_le bytes_of_read_u16_le)

lemma header_valid_default [simp]:
  "header_valid (default_header\<lparr>body_len := n, msg_type := t, seq := s, reserved0 := r\<rparr>)"
  by (simp add: header_valid_def default_header_def)

end
