(* ===== verification/Frame_IO.thy ===== *)
theory Frame_IO
  imports Protocol
begin

text \<open>
  \<^verbatim>\<open>fwd/frame_io.hpp\<close>: blocking frame input and output over a POSIX socket.
  The system calls are parameters.  \<open>recv n s\<close> stands for \<^verbatim>\<open>::recv(fd, buf, n, 0)\<close> in the socket
  state \<open>s\<close>: \<open>None\<close> is a negative return, \<open>Some c\<close> the bytes it stored (\<open>Some []\<close> is the return
  value 0, the end of the stream).  \<open>send d s\<close> stands for \<^verbatim>\<open>::send(fd, d, len, 0)\<close>: the returned
  count and the new state.  What the code relies on is collected in the locales \<open>byte_source\<close>
  and \<open>byte_sink\<close>: a receive delivers a non-empty prefix of what is left of the stream, of any
  length up to the requested one, and a send accepts a non-empty prefix of the data.

  The lemmas show that the two loops hide the chunking completely: \<open>recv_exact\<close> returns the
  next \<open>len\<close> bytes of the stream whatever the chunks are, \<open>send_all\<close> transmits all data in order,
  and a frame written by \<open>pack_frame\<close> is read back by \<open>recv_frame\<close>.
\<close>

type_synonym 's recv_call = "nat \<Rightarrow> 's \<Rightarrow> bytes option \<times> 's"
type_synonym 's send_call = "bytes \<Rightarrow> 's \<Rightarrow> int \<times> 's"

lemma diff_shrinks: "\<lbrakk>c \<noteq> []; a < n\<rbrakk> \<Longrightarrow> n - (a + length c) < n - a"
  by (cases c) auto

subsection \<open>The loops\<close>

text \<open>\<open>off\<close> is the loop variable; \<open>send_all\<close> itself starts it at 0.\<close>

function send_all_from :: "'s send_call \<Rightarrow> bytes \<Rightarrow> nat \<Rightarrow> 's \<Rightarrow> bool \<times> 's" where
  "send_all_from send data off s =
     (if off < length data then
        (case send (drop off data) s of
           (n, s') \<Rightarrow> if n \<le> 0 then (False, s') else send_all_from send data (off + nat n) s')
      else (True, s))"
  by pat_completeness auto
termination
  by (relation "measure (\<lambda>(send, data, off, s). length data - off)") auto

declare send_all_from.simps [simp del]

definition send_all :: "'s send_call \<Rightarrow> bytes \<Rightarrow> 's \<Rightarrow> bool \<times> 's" where
  "send_all send data s = send_all_from send data 0 s"

text \<open>The buffer filled so far is \<open>acc\<close>, so \<open>off\<close> is its length.\<close>

function recv_exact_from :: "'s recv_call \<Rightarrow> nat \<Rightarrow> bytes \<Rightarrow> 's \<Rightarrow> bytes option \<times> 's" where
  "recv_exact_from recv len acc s =
     (if length acc < len then
        (case recv (len - length acc) s of
           (None, s') \<Rightarrow> (None, s')
         | (Some c, s') \<Rightarrow>
             if c = [] then (None, s') else recv_exact_from recv len (acc @ c) s')
      else (Some acc, s))"
  by pat_completeness auto
termination
  by (relation "measure (\<lambda>(recv, len, acc, s). len - length acc)") (auto simp: diff_shrinks)

declare recv_exact_from.simps [simp del]

definition recv_exact :: "'s recv_call \<Rightarrow> nat \<Rightarrow> 's \<Rightarrow> bytes option \<times> 's" where
  "recv_exact recv len s = recv_exact_from recv len [] s"

subsection \<open>Frames\<close>

record ParsedFrame =
  pf_header :: Header
  pf_body :: string

definition pack_frame :: "Header \<Rightarrow> string \<Rightarrow> string" where
  "pack_frame h body =
     (let h = h\<lparr>body_len := word_of_nat (length body)\<rparr> in chars_of_bytes (pack_le h) @ body)"

definition recv_frame :: "'s recv_call \<Rightarrow> u32 \<Rightarrow> 's \<Rightarrow> ParsedFrame option \<times> 's" where
  "recv_frame recv max_body_len s =
     (case recv_exact recv (unat kHeaderLen) s of
        (None, s') \<Rightarrow> (None, s')
      | (Some hb, s') \<Rightarrow>
          (let h = unpack_le hb in
           if magic h \<noteq> kMagic \<or> version h \<noteq> kVersion \<or> header_len h \<noteq> kHeaderLen then (None, s')
           else if body_len h > max_body_len then (None, s')
           else if body_len h > 0 then
             (case recv_exact recv (unat (body_len h)) s' of
                (None, s'') \<Rightarrow> (None, s'')
              | (Some b, s'') \<Rightarrow> (Some \<lparr>pf_header = h, pf_body = chars_of_bytes b\<rparr>, s''))
           else (Some \<lparr>pf_header = h, pf_body = []\<rparr>, s')))"

text \<open>
  The two plain socket helpers.  The results of the system calls are inputs; the second component of
  \<open>tcp_connect\<close> has the descriptors it closed, \<open>set_recv_timeout\<close> gives the \<^verbatim>\<open>timeval\<close> it sets, if any.
\<close>

definition tcp_connect :: "int \<Rightarrow> int \<Rightarrow> int \<Rightarrow> int \<times> int list" where
  "tcp_connect fd inet_pton_result connect_result =
     (if fd < 0 then (- 1, [])
      else if inet_pton_result \<noteq> 1 then (- 1, [fd])
      else if connect_result \<noteq> 0 then (- 1, [fd])
      else (fd, []))"

definition set_recv_timeout :: "int \<Rightarrow> (int \<times> int) option" where
  "set_recv_timeout timeout_sec = (if timeout_sec \<le> 0 then None else Some (timeout_sec, 0))"

subsection \<open>A socket that delivers its stream in chunks\<close>

text \<open>
  The reference socket: the bytes left in the stream and a schedule of chunk sizes (each at
  least 1; an exhausted schedule delivers whatever is asked for).
\<close>

fun chunk_recv :: "(bytes \<times> nat list) recv_call" where
  "chunk_recv n (bs, []) = (Some (take n bs), (drop n bs, []))"
| "chunk_recv n (bs, k # ks) =
     (let m = min n (Suc k) in (Some (take m bs), (drop m bs, ks)))"

fun chunk_send :: "(bytes \<times> nat list) send_call" where
  "chunk_send d (out, []) = (int (length d), (out @ d, []))"
| "chunk_send d (out, k # ks) =
     (let m = min (length d) (Suc k) in (int m, (out @ take m d, ks)))"

subsection \<open>What the loops rely on\<close>

locale byte_source =
  fixes recv :: "'s recv_call"
    and view :: "'s \<Rightarrow> bytes"
  assumes recv_progress: "0 < n \<Longrightarrow> view s \<noteq> [] \<Longrightarrow>
      \<exists>c s'. recv n s = (Some c, s') \<and> c \<noteq> [] \<and> length c \<le> n \<and> view s = c @ view s'"
    and recv_eof: "view s = [] \<Longrightarrow> \<exists>s'. recv n s = (Some [], s') \<and> view s' = []"
begin

lemma recv_exact_from_ok:
  "\<lbrakk>length acc \<le> len; len \<le> length acc + length (view s)\<rbrakk> \<Longrightarrow>
     \<exists>s'. recv_exact_from recv len acc s = (Some (acc @ take (len - length acc) (view s)), s') \<and>
       view s' = drop (len - length acc) (view s)"
proof (induction "len - length acc" arbitrary: acc s rule: less_induct)
  case less
  show ?case
  proof (cases "length acc < len")
    case False
    with less.prems show ?thesis by (simp add: recv_exact_from.simps)
  next
    case True
    with less.prems have "view s \<noteq> []" by auto
    with True obtain c s' where r: "recv (len - length acc) s = (Some c, s')" "c \<noteq> []"
      "length c \<le> len - length acc" "view s = c @ view s'"
      using recv_progress [of "len - length acc" s] by auto
    have "len - length (acc @ c) < len - length acc"
      using True r(2) by (simp add: diff_shrinks)
    from less.hyps [OF this, of s'] less.prems r True show ?thesis
      by (auto simp: recv_exact_from.simps [of recv len acc s])
  qed
qed

lemma recv_exact_ok:
  assumes "len \<le> length (view s)"
  shows "\<exists>s'. recv_exact recv len s = (Some (take len (view s)), s') \<and> view s' = drop len (view s)"
  using recv_exact_from_ok [of "[]" len s] assms by (simp add: recv_exact_def)

lemma recv_frame_accepts:
  assumes "view s = pack_le h @ bytes_of_chars body @ rest"
    and "header_valid h" and "body_len h \<le> limit" and "unat (body_len h) = length body"
  shows "\<exists>s'. recv_frame recv limit s = (Some \<lparr>pf_header = h, pf_body = body\<rparr>, s') \<and> view s' = rest"
proof -
  obtain s1 where s1: "recv_exact recv 24 s = (Some (pack_le h), s1)"
      "view s1 = bytes_of_chars body @ rest"
    using recv_exact_ok [of 24 s] assms(1) by auto
  obtain s2 where s2: "recv_exact recv (length body) s1 = (Some (bytes_of_chars body), s2)"
      "view s2 = rest"
    using recv_exact_ok [of "length body" s1] s1(2) by auto
  show ?thesis
  proof (cases "body = []")
    case True
    with assms s1 show ?thesis
      by (auto simp: recv_frame_def header_valid_def kHeaderLen_def unat_eq_zero Let_def)
  next
    case False
    with assms(4) have "body_len h \<noteq> 0" by auto
    then have "body_len h > 0" by (simp add: word_gt_0)
    with assms s1 s2 show ?thesis
      by (auto simp: recv_frame_def header_valid_def kHeaderLen_def Let_def)
  qed
qed

lemma recv_exact_from_short:
  "\<lbrakk>length acc + length (view s) < len\<rbrakk> \<Longrightarrow> fst (recv_exact_from recv len acc s) = None"
proof (induction "len - length acc" arbitrary: acc s rule: less_induct)
  case less
  then have lt: "length acc < len" by simp
  show ?case
  proof (cases "view s = []")
    case True
    with recv_eof obtain s' where "recv (len - length acc) s = (Some [], s')" by blast
    with lt show ?thesis by (simp add: recv_exact_from.simps [of recv len acc s])
  next
    case False
    with lt obtain c s' where r: "recv (len - length acc) s = (Some c, s')" "c \<noteq> []"
      "length c \<le> len - length acc" "view s = c @ view s'"
      using recv_progress [of "len - length acc" s] by auto
    have "len - length (acc @ c) < len - length acc"
      using lt r(2) by (simp add: diff_shrinks)
    from less.hyps [OF this, of s'] less.prems r lt show ?thesis
      by (simp add: recv_exact_from.simps [of recv len acc s])
  qed
qed

lemma recv_exact_short:
  "length (view s) < len \<Longrightarrow> fst (recv_exact recv len s) = None"
  using recv_exact_from_short [of "[]" s len] by (simp add: recv_exact_def)

end

locale byte_sink =
  fixes send :: "'s send_call"
    and sent :: "'s \<Rightarrow> bytes"
  assumes send_progress: "d \<noteq> [] \<Longrightarrow> \<exists>n s'. send d s = (int n, s') \<and> 0 < n \<and> n \<le> length d \<and>
      sent s' = sent s @ take n d"
begin

lemma send_all_from_ok:
  "off \<le> length data \<Longrightarrow>
     \<exists>s'. send_all_from send data off s = (True, s') \<and> sent s' = sent s @ drop off data"
proof (induction "length data - off" arbitrary: off s rule: less_induct)
  case less
  show ?case
  proof (cases "off < length data")
    case False
    with less.prems show ?thesis by (simp add: send_all_from.simps)
  next
    case True
    then obtain n s' where r: "send (drop off data) s = (int n, s')" "0 < n"
      "n \<le> length data - off" "sent s' = sent s @ take n (drop off data)"
      using send_progress [of "drop off data" s] by auto
    have "length data - (off + n) < length data - off" using True r(2) by simp
    moreover have "off + n \<le> length data" using True r(3) by simp
    ultimately obtain s'' where
      "send_all_from send data (off + n) s' = (True, s'')" "sent s'' = sent s' @ drop (off + n) data"
      using less.hyps by blast
    moreover have "drop off data = take n (drop off data) @ drop (off + n) data"
      by (metis add.commute append_take_drop_id drop_drop)
    ultimately show ?thesis using True r
      by (simp add: send_all_from.simps [of send data off s])
  qed
qed

lemma send_all_ok: "\<exists>s'. send_all send data s = (True, s') \<and> sent s' = sent s @ data"
  using send_all_from_ok [of 0 data s] by (simp add: send_all_def)

end

interpretation chunked: byte_source chunk_recv fst
proof
  fix n :: nat and s :: "bytes \<times> nat list"
  assume "0 < n" "fst s \<noteq> []"
  then show "\<exists>c s'. chunk_recv n s = (Some c, s') \<and> c \<noteq> [] \<and> length c \<le> n \<and> fst s = c @ fst s'"
    by (cases "(n, s)" rule: chunk_recv.cases) (auto simp: Let_def)
next
  fix n :: nat and s :: "bytes \<times> nat list"
  assume "fst s = []"
  then show "\<exists>s'. chunk_recv n s = (Some [], s') \<and> fst s' = []"
    by (cases "(n, s)" rule: chunk_recv.cases) (auto simp: Let_def)
qed

interpretation chunked_out: byte_sink chunk_send fst
proof
  fix d :: bytes and s :: "bytes \<times> nat list"
  assume "d \<noteq> []"
  then show "\<exists>n s'. chunk_send d s = (int n, s') \<and> 0 < n \<and> n \<le> length d \<and> fst s' = fst s @ take n d"
    by (cases "(d, s)" rule: chunk_send.cases) (auto simp: Let_def)
qed

subsection \<open>Properties\<close>

lemma pack_frame_bytes:
  "bytes_of_chars (pack_frame h body) =
     pack_le (h\<lparr>body_len := word_of_nat (length body)\<rparr>) @ bytes_of_chars body"
  by (simp add: pack_frame_def Let_def)

text \<open>
  C12. Framing round trip over a chunked stream.  A frame packed by \<^verbatim>\<open>pack_frame\<close> with a valid header
  and a body within the reader's limit is read back by \<^verbatim>\<open>recv_frame\<close> unchanged (with \<^verbatim>\<open>body_len\<close>
  filled in), however the socket cuts the stream into chunks, and the bytes after the frame are
  left unread.
\<close>

theorem recv_frame_pack_frame:
  assumes "header_valid h" and "length body < 2 ^ 32" and "length body \<le> unat limit"
  shows "\<exists>ks'. recv_frame chunk_recv limit (bytes_of_chars (pack_frame h body) @ rest, ks) =
     (Some \<lparr>pf_header = h\<lparr>body_len := word_of_nat (length body)\<rparr>, pf_body = body\<rparr>, (rest, ks'))"
proof -
  let ?h = "h\<lparr>body_len := word_of_nat (length body)\<rparr>"
  have "header_valid ?h" using assms(1) by (simp add: header_valid_def)
  moreover have "body_len ?h \<le> limit"
    using assms(2,3) by (simp add: word_le_nat_alt)
  moreover have "unat (body_len ?h) = length body" using assms(2) by simp
  moreover have "fst (bytes_of_chars (pack_frame h body) @ rest, ks) =
      pack_le ?h @ bytes_of_chars body @ rest"
    unfolding fst_conv pack_frame_bytes by simp
  ultimately show ?thesis
    using chunked.recv_frame_accepts [of "(bytes_of_chars (pack_frame h body) @ rest, ks)" ?h body rest limit]
    by fastforce
qed

theorem recv_frame_pack_frame_witness:
  "\<exists>ks'. recv_frame chunk_recv 4
      (bytes_of_chars (pack_frame (default_header\<lparr>msg_type := kClientData, seq := 7\<rparr>) ''abc'') @ [9, 9],
       [0, 3, 30, 0]) =
    (Some \<lparr>pf_header = default_header\<lparr>msg_type := kClientData, seq := 7, body_len := 3\<rparr>,
      pf_body = ''abc''\<rparr>, ([9, 9], ks'))"
  using recv_frame_pack_frame [of "default_header\<lparr>msg_type := kClientData, seq := 7\<rparr>" "''abc''" 4 "[9, 9]" "[0, 3, 30, 0]"]
  by (simp add: header_valid_def default_header_def)

end
