(* ===== verification/Relay_State.thy ===== *)
theory Relay_State
  imports Tcp_Session MsgPack Sql_Database Frame_IO
begin

text \<open>
  \<^verbatim>\<open>class RelayServer\<close> of \<^verbatim>\<open>main.cpp\<close>: its state and the small operations every handler is built of.

  A \<^verbatim>\<open>shared_ptr<TcpSession>\<close> is the connection number of the session; \<open>heap\<close> holds the sessions
  themselves.  Numbers are handed out by \<^verbatim>\<open>++next_conn_id_\<close> and identify a session as long as fewer
  than $2^{64}$ connections have been accepted.  \<open>readers\<close> has the running \<^verbatim>\<open>read_loop\<close> coroutines,
  each with its local variable \<^verbatim>\<open>last_activity\<close>.

  The environment of the program is the record \<open>env\<close>: the MySQL client, msgpack-c, the iteration
  order of a \<^verbatim>\<open>std::unordered_map\<close>, and the two clocks.  A handler is one atomic step: the model has
  the interleavings of handlers, not of the critical sections inside one.
\<close>

subsection \<open>Environment and state\<close>

datatype RecvMode = kBroadcast | kRoundRobin

datatype Level = kInfo | kWarn | kError | kDebug

record AdminEvent =
  ev_ts_ms :: u64
  ev_level :: string
  ev_msg :: string

record 'db env =
  e_api :: "'db mysql_api"
  e_pack :: "pk_call list \<Rightarrow> string"
  e_unpack :: "string \<Rightarrow> mobj option"
  e_order :: "(u64 \<rightharpoonup> u64 list) \<Rightarrow> u64 list" \<comment> \<open>iteration order of \<^verbatim>\<open>user_deque_\<close>\<close>
  e_now :: int \<comment> \<open>\<^verbatim>\<open>steady_clock\<close>, milliseconds\<close>
  e_wall :: u64 \<comment> \<open>\<^verbatim>\<open>now_ms_wall()\<close>\<close>

record 'db relay =
  r_cfg :: Config
  heap :: "u64 \<rightharpoonup> tcp_session"
  readers :: "u64 \<rightharpoonup> int"
  next_conn_id :: u64
  all_sessions :: "u64 list"
  by_id :: "u64 \<rightharpoonup> u64"
  user_deque :: "u64 \<rightharpoonup> u64 list"
  uid_to_username :: "u64 \<rightharpoonup> string"
  name_to_uid :: "string \<rightharpoonup> u64"
  user_recv_mode :: "u64 \<rightharpoonup> RecvMode"
  rr_next_index :: "u64 \<rightharpoonup> u64"
  r_db :: "'db mysql_store"
  r_metrics :: Metrics
  started_ms :: u64
  events :: "AdminEvent list"

definition new_relay :: "Config \<Rightarrow> u64 \<Rightarrow> 'db relay" where
  "new_relay c wall =
     \<lparr>r_cfg = c, heap = Map.empty, readers = Map.empty, next_conn_id = 0, all_sessions = [], by_id = Map.empty,
      user_deque = Map.empty, uid_to_username = Map.empty, name_to_uid = Map.empty, user_recv_mode = Map.empty,
      rr_next_index = Map.empty, r_db = \<lparr>conn = None, cfg = mysql default_config\<rparr>, r_metrics = zero_metrics,
      started_ms = wall, events = []\<rparr>"

text \<open>The session behind a pointer, and an update of it.\<close>

definition the_sess :: "'db relay \<Rightarrow> u64 \<Rightarrow> tcp_session" where
  "the_sess r c = (case heap r c of Some s \<Rightarrow> s | None \<Rightarrow> new_session c None)"

definition upd_sess :: "u64 \<Rightarrow> (tcp_session \<Rightarrow> tcp_session) \<Rightarrow> 'db relay \<Rightarrow> 'db relay" where
  "upd_sess c f r = r\<lparr>heap := (heap r)(c := map_option f (heap r c))\<rparr>"

definition is_open :: "'db relay \<Rightarrow> u64 \<Rightarrow> bool" where
  "is_open r c = sock_open (the_sess r c)"

subsection \<open>Modes, levels and events\<close>

definition parse_recv_mode_str :: "string \<Rightarrow> RecvMode option" where
  "parse_recv_mode_str s =
     (if s = ''broadcast'' then Some kBroadcast
      else if s = ''round_robin'' \<or> s = ''roundrobin'' then Some kRoundRobin
      else None)"

definition recv_mode_cstr :: "RecvMode \<Rightarrow> string" where
  "recv_mode_cstr m = (if m = kBroadcast then ''broadcast'' else ''round_robin'')"

fun level_name :: "Level \<Rightarrow> string" where
  "level_name kInfo = ''INFO''"
| "level_name kWarn = ''WARN''"
| "level_name kError = ''ERROR''"
| "level_name kDebug = ''DEBUG''"

fun trim_events :: "int \<Rightarrow> 'e list \<Rightarrow> 'e list" where
  "trim_events m [] = []"
| "trim_events m (e # es) = (if int (length (e # es)) > m then trim_events m es else e # es)"

definition push_event :: "'db env \<Rightarrow> Level \<Rightarrow> string \<Rightarrow> 'db relay \<Rightarrow> 'db relay" where
  "push_event e lv msg r =
     (if events_max (admin (r_cfg r)) \<le> 0 then r
      else (let ev = \<lparr>ev_ts_ms = e_wall e, ev_level = level_name lv, ev_msg = msg\<rparr> in
            r\<lparr>events := trim_events (events_max (admin (r_cfg r))) (events r @ [ev])\<rparr>))"

subsection \<open>Frames and replies\<close>

definition pack_wire :: "u32 \<Rightarrow> u32 \<Rightarrow> string \<Rightarrow> string" where
  "pack_wire mt sq body =
     (let h = default_header\<lparr>msg_type := mt, seq := sq, reserved0 := 0, body_len := word_of_nat (length body)\<rparr>
      in chars_of_bytes (pack_le h) @ body)"

definition send_reply :: "'db env \<Rightarrow> u64 \<Rightarrow> pk_call list \<Rightarrow> u32 \<Rightarrow> 'db relay \<Rightarrow> 'db relay" where
  "send_reply e to buf sq r = upd_sess to (send_frame (pack_wire kMsgServerReply sq (e_pack e buf))) r"

definition err_reply :: "int \<Rightarrow> string \<Rightarrow> pk_call list" where
  "err_reply code message =
     [PackMap 3, PackStr ''ok'', PackBool False, PackStr ''code'', PackInt code,
      PackStr ''message'', PackStr message]"

definition send_err_reply :: "'db env \<Rightarrow> u64 \<Rightarrow> u32 \<Rightarrow> int \<Rightarrow> string \<Rightarrow> 'db relay \<Rightarrow> 'db relay" where
  "send_err_reply e from sq code message = send_reply e from (err_reply code message) sq"

definition pack_deliver_envelope :: "string \<Rightarrow> u64 \<Rightarrow> u64 \<Rightarrow> string \<Rightarrow> string \<Rightarrow> pk_call list" where
  "pack_deliver_envelope payload src_conn dst_conn src_username dst_username =
     [PackMap 5,
      PackStr ''payload'', PackBin (word_of_nat (length payload)),
      PackBinBody (take (unat (word_of_nat (length payload) :: u32)) payload),
      PackStr ''src_conn_id'', PackInt (uint src_conn),
      PackStr ''dst_conn_id'', PackInt (uint dst_conn),
      PackStr ''src_username'', PackStr src_username,
      PackStr ''dst_username'', PackStr dst_username]"

definition kick_notice :: "string \<Rightarrow> pk_call list" where
  "kick_notice reason = [PackMap 2, PackStr ''op'', PackStr ''KICK'', PackStr ''reason'', PackStr reason]"

definition notify_and_close :: "'db env \<Rightarrow> u64 \<Rightarrow> string \<Rightarrow> string \<Rightarrow> 'db relay \<Rightarrow> 'db relay" where
  "notify_and_close e c user_reason log_why r =
     (if \<not> logged_in (the_sess r c) then upd_sess c (stop log_why) r
      else
        (let body = e_pack e (kick_notice user_reason); wire = pack_wire kMsgKick 0 body
         in upd_sess c (kick_notify_and_close wire log_why) r))"

subsection \<open>Connections coming and going\<close>

text \<open>The completion of \<^verbatim>\<open>async_accept\<close>: an error, or a new socket with its peer address.\<close>

definition accept_clients :: "'db env \<Rightarrow> (string + (string \<times> u16) option) \<Rightarrow> 'db relay \<Rightarrow> 'db relay" where
  "accept_clients e res r =
     (case res of
        Inl msg \<Rightarrow> push_event e kError (''accept client error: '' @ msg) r
      | Inr ep \<Rightarrow>
          (let r = r\<lparr>r_metrics := (r_metrics r)\<lparr>client_connects := client_connects (r_metrics r) + 1\<rparr>\<rparr>;
               i = next_conn_id r + 1;
               r = r\<lparr>next_conn_id := i, heap := (heap r)(i \<mapsto> new_session i ep)\<rparr>;
               r = r\<lparr>by_id := (by_id r)(i \<mapsto> i), all_sessions := all_sessions r @ [i]\<rparr>;
               r = push_event e kInfo (''client connected conn='' @ dec_digits (unat i)) r
           in r\<lparr>readers := (readers r)(i \<mapsto> e_now e)\<rparr>))"

text \<open>\<^verbatim>\<open>remove1\<close> is the loop that erases the first element equal to the session.\<close>

definition remove_session :: "u64 \<Rightarrow> 'db relay \<Rightarrow> 'db relay" where
  "remove_session c r =
     (let s = the_sess r c;
          r = r\<lparr>by_id := (by_id r)(conn_id s := None)\<rparr>;
          r = r\<lparr>all_sessions := remove1 c (all_sessions r)\<rparr>
      in if logged_in s then
           (let uid = user_id s in
            case user_deque r uid of
              None \<Rightarrow> r
            | Some dq \<Rightarrow>
                (let dq = remove1 c dq in
                 if dq = [] then
                   r\<lparr>user_deque := (user_deque r)(uid := None), user_recv_mode := (user_recv_mode r)(uid := None),
                     rr_next_index := (rr_next_index r)(uid := None)\<rparr>
                 else r\<lparr>user_deque := (user_deque r)(uid \<mapsto> dq)\<rparr>))
         else r)"

subsection \<open>Timers\<close>

definition heartbeat_expired :: "'db env \<Rightarrow> 'db relay \<Rightarrow> u64 \<Rightarrow> bool" where
  "heartbeat_expired e r c \<longleftrightarrow>
     logged_in (the_sess r c) \<and> is_open r c \<and>
     e_now e - last_hb (the_sess r c) > heartbeat_timeout_ms (session (r_cfg r))"

fun check_each :: "'db env \<Rightarrow> u64 list \<Rightarrow> 'db relay \<Rightarrow> 'db relay" where
  "check_each e [] r = r"
| "check_each e (c # snap) r =
     (if \<not> heartbeat_expired e r c then check_each e snap r
      else check_each e snap
        (push_event e kWarn (''heartbeat timeout conn='' @ dec_digits (unat (conn_id (the_sess r c))))
          (notify_and_close e c txt_hb_timeout ''heartbeat timeout'' r)))"

definition check_heartbeats :: "'db env \<Rightarrow> 'db relay \<Rightarrow> 'db relay" where
  "check_heartbeats e r = check_each e (all_sessions r) r"

record StatsSnapshot =
  st_ts_ms :: u64
  st_started_ms :: u64
  sessions_alive :: nat
  sessions_logged_in :: nat
  unique_users :: nat
  st_pending_bytes :: nat
  st_frames_in :: u64
  st_bytes_in :: u64
  st_frames_out :: u64
  st_bytes_out :: u64
  st_drops :: u64

text \<open>The pass over \<^verbatim>\<open>all_\<close> also compacts it: closed sessions are dropped from the vector.\<close>

definition snapshot_stats :: "'db env \<Rightarrow> 'db relay \<Rightarrow> 'db relay \<times> StatsSnapshot" where
  "snapshot_stats e r =
     (let open_list = filter (is_open r) (all_sessions r);
          logged = filter (\<lambda>c. logged_in (the_sess r c)) open_list;
          m = r_metrics r
      in (r\<lparr>all_sessions := open_list\<rparr>,
          \<lparr>st_ts_ms = e_wall e, st_started_ms = started_ms r, sessions_alive = length open_list,
           sessions_logged_in = length logged,
           unique_users = card (set (map (\<lambda>c. user_id (the_sess r c)) logged)),
           st_pending_bytes = sum_list (map (\<lambda>c. pending_bytes (the_sess r c)) open_list),
           st_frames_in = frames_in m, st_bytes_in = bytes_in m, st_frames_out = frames_out m,
           st_bytes_out = bytes_out m, st_drops = drops m\<rparr>))"

subsection \<open>Sessions behind pointers\<close>

lemma heap_upd_sess [simp]:
  "heap (upd_sess c f r) = (heap r)(c := map_option f (heap r c))"
  by (simp add: upd_sess_def)

lemma upd_sess_fields [simp, frame_simps]:
  "r_cfg (upd_sess c f r) = r_cfg r" "readers (upd_sess c f r) = readers r"
  "next_conn_id (upd_sess c f r) = next_conn_id r" "all_sessions (upd_sess c f r) = all_sessions r"
  "by_id (upd_sess c f r) = by_id r" "user_deque (upd_sess c f r) = user_deque r"
  "uid_to_username (upd_sess c f r) = uid_to_username r" "name_to_uid (upd_sess c f r) = name_to_uid r"
  "user_recv_mode (upd_sess c f r) = user_recv_mode r" "rr_next_index (upd_sess c f r) = rr_next_index r"
  "r_db (upd_sess c f r) = r_db r" "r_metrics (upd_sess c f r) = r_metrics r"
  "events (upd_sess c f r) = events r" "started_ms (upd_sess c f r) = started_ms r"
  by (simp_all add: upd_sess_def)

lemma push_event_fields [simp, frame_simps]:
  "r_cfg (push_event e lv m r) = r_cfg r" "heap (push_event e lv m r) = heap r"
  "readers (push_event e lv m r) = readers r" "next_conn_id (push_event e lv m r) = next_conn_id r"
  "all_sessions (push_event e lv m r) = all_sessions r" "by_id (push_event e lv m r) = by_id r"
  "user_deque (push_event e lv m r) = user_deque r" "uid_to_username (push_event e lv m r) = uid_to_username r"
  "name_to_uid (push_event e lv m r) = name_to_uid r" "user_recv_mode (push_event e lv m r) = user_recv_mode r"
  "rr_next_index (push_event e lv m r) = rr_next_index r" "r_db (push_event e lv m r) = r_db r"
  "r_metrics (push_event e lv m r) = r_metrics r" "started_ms (push_event e lv m r) = started_ms r"
  by (simp_all add: push_event_def Let_def)

lemma the_sess_Some [simp]: "heap r c = Some s \<Longrightarrow> the_sess r c = s"
  by (simp add: the_sess_def)

lemma the_sess_cong: "heap r c = heap r' c \<Longrightarrow> the_sess r c = the_sess r' c"
  by (simp add: the_sess_def)

text \<open>
  Handlers reach a session only by posting on its strand.  \<open>post_all ts h\<close> is the heap after the tasks
  \<open>ts c\<close> have been posted to every session \<open>c\<close>, in order.
\<close>

definition post_all :: "(u64 \<Rightarrow> strand_task list) \<Rightarrow> (u64 \<rightharpoonup> tcp_session) \<Rightarrow> (u64 \<rightharpoonup> tcp_session)" where
  "post_all ts h c = map_option (\<lambda>s. s\<lparr>strand := strand s @ ts c\<rparr>) (h c)"

lemma post_all_none [simp]: "post_all (\<lambda>_. []) h = h"
  by (simp add: post_all_def fun_eq_iff option.map_ident)

lemma post_all_twice: "post_all ts' (post_all ts h) = post_all (\<lambda>c. ts c @ ts' c) h"
  by (simp add: post_all_def fun_eq_iff option.map_comp o_def)

lemma heap_post: "heap (upd_sess c (post t) r) = post_all ((\<lambda>_. [])(c := [t])) (heap r)"
  by (auto simp: post_all_def fun_eq_iff option.map_ident post_def [abs_def])

lemma dom_post_all [simp]: "dom (post_all ts h) = dom h"
  by (auto simp: post_all_def dom_def)

lemma the_sess_post_all:
  assumes "heap r' = post_all ts (heap r)" and "c \<in> dom (heap r)"
  shows "the_sess r' c = (the_sess r c)\<lparr>strand := strand (the_sess r c) @ ts c\<rparr>"
  using assms by (auto simp: the_sess_def post_all_def)

lemma sess_post_all [simp]:
  assumes "heap r' = post_all ts (heap r)"
  shows "sock_open (the_sess r' c) = sock_open (the_sess r c)" "conn_id (the_sess r' c) = conn_id (the_sess r c)"
    "logged_in (the_sess r' c) = logged_in (the_sess r c)" "user_id (the_sess r' c) = user_id (the_sess r c)"
    "is_open r' c = is_open r c"
  using assms by (auto simp: the_sess_def post_all_def is_open_def split: option.splits)

lemma is_open_cong: "heap r' = heap r \<Longrightarrow> is_open r' = is_open r"
  by (simp add: is_open_def the_sess_def fun_eq_iff)

subsection \<open>The event log\<close>

lemma trim_events_drop: "0 \<le> m \<Longrightarrow> trim_events m es = drop (length es - nat m) es"
  by (induction es) (auto simp: Suc_diff_le nat_less_iff not_less intro: Suc_diff_le)

end
