(* ===== verification/MsgPack_Format.thy ===== *)
theory MsgPack_Format
  imports MsgPack
begin

text \<open>
  The MessagePack wire format as its published specification gives it, restricted to what a
  packer emits: the shortest encoding of each value, big-endian lengths and numbers.
  \<open>mp_pack\<close> concatenates the encodings of the packer calls, \<open>mp_unpack\<close> decodes the first object
  of a buffer (bytes after it are ignored, as \<^verbatim>\<open>msgpack::unpack(data, len)\<close> does) and fails on
  truncated or reserved input.  The interpretation at the end shows that this format keeps the
  promise of \<open>msgpack_codec\<close>; the concrete runs of the development use it.
  The decoder's fuel bounds the nesting depth; the length of the buffer is always enough
  (\<open>dec_encs\<close>).
\<close>

subsection \<open>Big-endian numbers\<close>

fun be :: "nat \<Rightarrow> nat \<Rightarrow> string" where
  "be 0 n = []"
| "be (Suc w) n = be w (n div 256) @ [char_of (n mod 256)]"

definition unbe :: "string \<Rightarrow> nat" where
  "unbe s = foldl (\<lambda>a c. a * 256 + of_char c) 0 s"

definition take_be :: "nat \<Rightarrow> string \<Rightarrow> (nat \<times> string) option" where
  "take_be w s = (if w \<le> length s then Some (unbe (take w s), drop w s) else None)"

definition take_str :: "nat \<Rightarrow> string \<Rightarrow> (string \<times> string) option" where
  "take_str n s = (if n \<le> length s then Some (take n s, drop n s) else None)"

lemma length_be [simp]: "length (be w n) = w"
  by (induction w arbitrary: n) simp_all

lemma unbe_be [simp]: "n < 256 ^ w \<Longrightarrow> unbe (be w n) = n"
proof (induction w arbitrary: n)
  case (Suc w)
  then have "n div 256 < 256 ^ w" by (simp add: less_mult_imp_div_less mult.commute)
  from Suc.IH [OF this] show ?case by (simp add: unbe_def)
qed (simp add: unbe_def)

lemma take_be_be [simp]: "n < 256 ^ w \<Longrightarrow> take_be w (be w n @ s) = Some (n, s)"
  by (simp add: take_be_def)

lemma take_be_1 [simp]: "n < 256 \<Longrightarrow> take_be (Suc 0) (char_of n # s) = Some (n, s)"
  using take_be_be [of n "Suc 0" s] by simp

lemma take_str_append [simp]: "take_str (length a) (a @ s) = Some (a, s)"
  by (simp add: take_str_def)

subsection \<open>Encoder\<close>

definition enc_len :: "nat \<Rightarrow> (nat \<times> nat) list \<Rightarrow> nat \<Rightarrow> string" where
  "enc_len n alts big =
     (case List.find (\<lambda>(w, t). n < 256 ^ w) alts of
        Some (w, t) \<Rightarrow> char_of t # be w n
      | None \<Rightarrow> char_of big # be 4 n)"

fun enc_int :: "int \<Rightarrow> string" where
  "enc_int i =
     (if 0 \<le> i then
        (let n = nat i in
         if n < 0x80 then [char_of n]
         else if n < 256 then char_of (0xcc :: nat) # be 1 n
         else if n < 256 ^ 2 then char_of (0xcd :: nat) # be 2 n
         else if n < 256 ^ 4 then char_of (0xce :: nat) # be 4 n
         else char_of (0xcf :: nat) # be 8 n)
      else if -32 \<le> i then [char_of (nat (256 + i))]
      else if -(2 ^ 7) \<le> i then char_of (0xd0 :: nat) # be 1 (nat (256 + i))
      else if -(2 ^ 15) \<le> i then char_of (0xd1 :: nat) # be 2 (nat (256 ^ 2 + i))
      else if -(2 ^ 31) \<le> i then char_of (0xd2 :: nat) # be 4 (nat (256 ^ 4 + i))
      else char_of (0xd3 :: nat) # be 8 (nat (256 ^ 8 + i)))"

fun enc :: "pk_call \<Rightarrow> string" where
  "enc PackNil = [char_of (0xc0 :: nat)]"
| "enc (PackBool b) = [char_of (if b then 0xc3 else 0xc2 :: nat)]"
| "enc (PackInt i) = enc_int i"
| "enc (PackFloat w) = char_of (0xcb :: nat) # be 8 (unat w)"
| "enc (PackStr s) =
     (if length s < 32 then [char_of (0xa0 + length s)]
      else enc_len (length s) [(1, 0xd9), (2, 0xda)] 0xdb) @ s"
| "enc (PackBin n) = enc_len (unat n) [(1, 0xc4), (2, 0xc5)] 0xc6"
| "enc (PackBinBody s) = s"
| "enc (PackExt t s) = enc_len (length s) [(1, 0xc7), (2, 0xc8)] 0xc9 @ char_of_byte t # s"
| "enc (PackArray n) =
     (if n < 16 then [char_of (0x90 + n)] else enc_len n [(2, 0xdc)] 0xdd)"
| "enc (PackMap n) =
     (if n < 16 then [char_of (0x80 + n)] else enc_len n [(2, 0xde)] 0xdf)"

definition mp_pack :: "pk_call list \<Rightarrow> string" where
  "mp_pack cs = concat (map enc cs)"

subsection \<open>Decoder\<close>

primrec rep :: "(string \<Rightarrow> ('a \<times> string) option) \<Rightarrow> nat \<Rightarrow> string \<Rightarrow> ('a list \<times> string) option" where
  "rep p 0 s = Some ([], s)"
| "rep p (Suc n) s =
     (case p s of
        None \<Rightarrow> None
      | Some (x, s') \<Rightarrow> (case rep p n s' of None \<Rightarrow> None | Some (xs, s'') \<Rightarrow> Some (x # xs, s'')))"

definition pair_of :: "(string \<Rightarrow> ('a \<times> string) option) \<Rightarrow> string \<Rightarrow> (('a \<times> 'a) \<times> string) option" where
  "pair_of p s =
     (case p s of
        None \<Rightarrow> None
      | Some (k, s') \<Rightarrow> (case p s' of None \<Rightarrow> None | Some (v, s'') \<Rightarrow> Some ((k, v), s'')))"

definition dec_signed :: "nat \<Rightarrow> nat \<Rightarrow> mobj" where
  "dec_signed w n =
     (if 2 * n < 256 ^ w then MPosInt (word_of_nat n) else MNegInt (int n - 256 ^ w))"

definition then_str :: "(string \<Rightarrow> mobj) \<Rightarrow> (nat \<times> string) option \<Rightarrow> (mobj \<times> string) option" where
  "then_str mk r = (case r of None \<Rightarrow> None | Some (n, s) \<Rightarrow> map_option (apfst mk) (take_str n s))"

definition then_ext :: "(nat \<times> string) option \<Rightarrow> (mobj \<times> string) option" where
  "then_ext r =
     (case r of
        Some (n, t # s) \<Rightarrow> map_option (apfst (MExt (byte_of_char t))) (take_str n s)
      | _ \<Rightarrow> None)"

primrec dec :: "nat \<Rightarrow> string \<Rightarrow> (mobj \<times> string) option" where
  "dec 0 s = None"
| "dec (Suc f) s =
     (case s of
        [] \<Rightarrow> None
      | c # s \<Rightarrow>
        (let t = of_char c :: nat;
             arr = (\<lambda>r. case r of None \<Rightarrow> None
                        | Some (n, s) \<Rightarrow> map_option (apfst MArray) (rep (dec f) n s));
             mp = (\<lambda>r. case r of None \<Rightarrow> None
                        | Some (n, s) \<Rightarrow> map_option (apfst MMap) (rep (pair_of (dec f)) n s))
         in
         if t < 0x80 then Some (MPosInt (word_of_nat t), s)
         else if t < 0x90 then mp (Some (t - 0x80, s))
         else if t < 0xa0 then arr (Some (t - 0x90, s))
         else if t < 0xc0 then then_str MStr (Some (t - 0xa0, s))
         else if t = 0xc0 then Some (MNil, s)
         else if t = 0xc2 then Some (MBool False, s)
         else if t = 0xc3 then Some (MBool True, s)
         else if t = 0xc4 then then_str MBin (take_be 1 s)
         else if t = 0xc5 then then_str MBin (take_be 2 s)
         else if t = 0xc6 then then_str MBin (take_be 4 s)
         else if t = 0xc7 then then_ext (take_be 1 s)
         else if t = 0xc8 then then_ext (take_be 2 s)
         else if t = 0xc9 then then_ext (take_be 4 s)
         else if t = 0xcb then map_option (apfst (MFloat \<circ> word_of_nat)) (take_be 8 s)
         else if t = 0xcc then map_option (apfst (MPosInt \<circ> word_of_nat)) (take_be 1 s)
         else if t = 0xcd then map_option (apfst (MPosInt \<circ> word_of_nat)) (take_be 2 s)
         else if t = 0xce then map_option (apfst (MPosInt \<circ> word_of_nat)) (take_be 4 s)
         else if t = 0xcf then map_option (apfst (MPosInt \<circ> word_of_nat)) (take_be 8 s)
         else if t = 0xd0 then map_option (apfst (dec_signed 1)) (take_be 1 s)
         else if t = 0xd1 then map_option (apfst (dec_signed 2)) (take_be 2 s)
         else if t = 0xd2 then map_option (apfst (dec_signed 4)) (take_be 4 s)
         else if t = 0xd3 then map_option (apfst (dec_signed 8)) (take_be 8 s)
         else if t = 0xd9 then then_str MStr (take_be 1 s)
         else if t = 0xda then then_str MStr (take_be 2 s)
         else if t = 0xdb then then_str MStr (take_be 4 s)
         else if t = 0xdc then arr (take_be 2 s)
         else if t = 0xdd then arr (take_be 4 s)
         else if t = 0xde then mp (take_be 2 s)
         else if t = 0xdf then mp (take_be 4 s)
         else if 0xe0 \<le> t then Some (MNegInt (int t - 256), s)
         else None))"

definition mp_unpack :: "string \<Rightarrow> mobj option" where
  "mp_unpack s = map_option fst (dec (length s) s)"

subsection \<open>Decoding what was encoded\<close>

lemma rep_concat:
  "\<lbrakk>\<And>x r. x \<in> set xs \<Longrightarrow> p (e x @ r) = Some (x, r)\<rbrakk> \<Longrightarrow>
     rep p (length xs) (concat (map e xs) @ rest) = Some (xs, rest)"
proof (induction xs)
  case (Cons x xs)
  have "p (e x @ concat (map e xs) @ rest) = Some (x, concat (map e xs) @ rest)"
    using Cons.prems [of x] by simp
  moreover have "rep p (length xs) (concat (map e xs) @ rest) = Some (xs, rest)"
    using Cons by simp
  ultimately show ?case by simp
qed simp

lemma mp_pack_append [simp]: "mp_pack (xs @ ys) = mp_pack xs @ mp_pack ys"
  by (simp add: mp_pack_def)

lemma mp_pack_Cons: "mp_pack (x # xs) = enc x @ mp_pack xs"
  by (simp add: mp_pack_def)

lemma mp_pack_concat: "mp_pack (concat xss) = concat (map mp_pack xss)"
  by (induction xss) (simp_all add: mp_pack_def)

lemma mp_pack_Nil [simp]: "mp_pack [] = []"
  by (simp add: mp_pack_def)

lemmas dec_step = dec.simps(2) Let_def then_str_def then_ext_def

lemma dec_int:
  assumes "- (2 ^ 63) \<le> i" "i < 2 ^ 64"
  shows "dec (Suc f) (enc_int i @ r) =
    Some (if 0 \<le> i then MPosInt (word_of_int i) else MNegInt i, r)"
proof (cases "0 \<le> i")
  case True
  then obtain n where n: "i = int n" by (metis nonneg_int_cases)
  have "n < 256 ^ 8" using assms(2) n by simp
  with n show ?thesis
    by (simp add: dec_step)
next
  case False
  show ?thesis
  proof (cases "-32 \<le> i")
    case True
    define n where "n = nat (256 + i)"
    have "224 \<le> n" "n < 256" "i = int n - 256" using True \<open>\<not> 0 \<le> i\<close> by (auto simp: n_def)
    then show ?thesis by (simp add: dec_step)
  next
    case low: False
    have e: "dec_signed w (nat (256 ^ w + i)) = MNegInt i" if "- (256 ^ w) \<le> 2 * i" for w
    proof -
      have "(0::int) < 256 ^ w" by simp
      with that have "0 \<le> 256 ^ w + i" by linarith
      moreover have "\<not> 2 * nat (256 ^ w + i) < 256 ^ w"
        using that calculation by (simp add: nat_less_iff [symmetric] not_less le_nat_iff flip: of_nat_le_iff [where 'a = int])
      ultimately show ?thesis by (simp add: dec_signed_def)
    qed
    show ?thesis using low assms \<open>\<not> 0 \<le> i\<close> e [of 1] e [of 2] e [of 4] e [of 8]
      by (simp add: dec_step nat_less_iff)
  qed
qed

lemma dec_str: "length s < 2 ^ 32 \<Longrightarrow> dec (Suc f) (enc (PackStr s) @ r) = Some (MStr s, r)"
  by (simp add: dec_step enc_len_def)

lemma dec_bin:
  "length s < 2 ^ 32 \<Longrightarrow>
     dec (Suc f) (enc (PackBin (word_of_nat (length s))) @ s @ r) = Some (MBin s, r)"
  by (simp add: dec_step enc_len_def)

lemma dec_ext: "length s < 2 ^ 32 \<Longrightarrow> dec (Suc f) (enc (PackExt t s) @ r) = Some (MExt t s, r)"
  by (simp add: dec_step enc_len_def)

lemma dec_array:
  assumes "n < 2 ^ 32"
  shows "dec (Suc f) (enc (PackArray n) @ r) = map_option (apfst MArray) (rep (dec f) n r)"
  using assms by (simp add: dec_step enc_len_def)

lemma dec_map:
  assumes "n < 2 ^ 32"
  shows "dec (Suc f) (enc (PackMap n) @ r) = map_option (apfst MMap) (rep (pair_of (dec f)) n r)"
  using assms by (simp add: dec_step enc_len_def)

lemma enc_length: "enc (PackArray n) \<noteq> []" "enc (PackMap n) \<noteq> []"
  by (simp_all add: enc_len_def split: option.split prod.split)

lemma length_mem_concat: "x \<in> set xs \<Longrightarrow> length (e x) \<le> length (concat (map e xs))"
  by (induction xs) auto

lemma enc_head_len:
  "length (enc (PackArray n)) > 0" "length (enc (PackMap n)) > 0" "length (enc (PackBin k)) > 0"
  "length (enc (PackStr t)) > 0" "length (enc (PackExt b t)) > 0" "length (enc_int i) > 0"
  by (auto simp: enc_len_def Let_def split: option.split prod.split)

lemma fuel_Suc: "\<lbrakk>0 < length h; length (h @ t) \<le> f\<rbrakk> \<Longrightarrow> \<exists>g. f = Suc g \<and> length t \<le> g"
  by (cases f; cases h) auto

lemma dec_mp_pack_array:
  fixes xs :: "mobj list"
  defines "e \<equiv> \<lambda>x. mp_pack (calls x)"
  assumes IH: "\<And>x g r. \<lbrakk>x \<in> set xs; length (e x) \<le> g\<rbrakk> \<Longrightarrow> dec g (e x @ r) = Some (x, r)"
    and wf: "length xs < 2 ^ 32" and f: "length (mp_pack (calls (MArray xs))) \<le> f"
  shows "dec f (mp_pack (calls (MArray xs)) @ rest) = Some (MArray xs, rest)"
proof -
  have img: "mp_pack (calls (MArray xs)) = enc (PackArray (length xs)) @ concat (map e xs)"
    by (simp add: mp_pack_Cons mp_pack_concat comp_def e_def)
  obtain g where g: "f = Suc g" "length (concat (map e xs)) \<le> g"
    using fuel_Suc [OF enc_head_len(1)] f unfolding img by blast
  have "dec g (e x @ r) = Some (x, r)" if "x \<in> set xs" for x r
    using IH [OF that] length_mem_concat [OF that, of e] g(2) by simp
  then have "rep (dec g) (length xs) (concat (map e xs) @ rest) = Some (xs, rest)"
    by (rule rep_concat)
  with g(1) dec_array [OF wf, of g "concat (map e xs) @ rest"] show ?thesis
    unfolding img by (simp del: enc.simps dec.simps)
qed

lemma dec_mp_pack_map:
  fixes kvs :: mmap
  defines "e \<equiv> \<lambda>x. mp_pack (calls x)"
  assumes IH: "\<And>kv g r. \<lbrakk>kv \<in> set kvs; length (e (fst kv) @ e (snd kv)) \<le> g\<rbrakk> \<Longrightarrow>
      pair_of (dec g) ((e (fst kv) @ e (snd kv)) @ r) = Some (kv, r)"
    and wf: "length kvs < 2 ^ 32" and f: "length (mp_pack (calls (MMap kvs))) \<le> f"
  shows "dec f (mp_pack (calls (MMap kvs)) @ rest) = Some (MMap kvs, rest)"
proof -
  let ?e = "\<lambda>kv. e (fst kv) @ e (snd kv)"
  have img: "mp_pack (calls (MMap kvs)) = enc (PackMap (length kvs)) @ concat (map ?e kvs)"
    by (simp add: mp_pack_Cons mp_pack_concat comp_def e_def)
  obtain g where g: "f = Suc g" "length (concat (map ?e kvs)) \<le> g"
    using fuel_Suc [OF enc_head_len(2)] f unfolding img by blast
  have "pair_of (dec g) (?e kv @ r) = Some (kv, r)" if "kv \<in> set kvs" for kv r
    by (rule IH [OF that order_trans [OF length_mem_concat [OF that, of ?e] g(2)]])
  then have "rep (pair_of (dec g)) (length kvs) (concat (map ?e kvs) @ rest) = Some (kvs, rest)"
    by (rule rep_concat)
  with g(1) dec_map [OF wf, of g "concat (map ?e kvs) @ rest"] show ?thesis
    unfolding img by (simp del: enc.simps dec.simps)
qed

lemma dec_scalar:
  "\<lbrakk>wf_obj m; \<forall>xs. m \<noteq> MArray xs; \<forall>kvs. m \<noteq> MMap kvs\<rbrakk> \<Longrightarrow>
     dec (Suc f) (mp_pack (calls m) @ rest) = Some (m, rest)"
proof (cases m)
  case (MPosInt w)
  have "uint w < 2 ^ 64" "- (2 ^ 63) \<le> uint w"
    using uint_lt2p [of w] order_trans [OF _ uint_ge_0 [of w], of "- (2 ^ 63)"] by simp_all
  with MPosInt dec_int [of "uint w" f rest] show ?thesis
    by (simp add: mp_pack_Cons del: enc_int.simps dec.simps)
next
  case (MFloat w)
  have "unat w < 256 ^ 8" using unsigned_less [of w, where 'a = nat] by simp
  with MFloat show ?thesis by (simp add: mp_pack_Cons dec_step)
next
  case (MNegInt i)
  moreover assume "wf_obj m"
  ultimately show ?thesis using dec_int [of i f rest]
    by (simp add: mp_pack_Cons del: enc_int.simps dec.simps)
next
  case (MBin s)
  moreover assume "wf_obj m"
  moreover have "enc (PackBinBody s) = s" by simp
  ultimately show ?thesis using dec_bin [of s f rest]
    by (simp add: mp_pack_Cons del: enc.simps dec.simps)
qed (simp_all add: mp_pack_Cons dec_str dec_ext del: enc.simps dec.simps, simp_all add: dec_step)

lemma calls_nonempty: "0 < length (mp_pack (calls m))"
  by (cases m) (auto simp: mp_pack_Cons enc_len_def Let_def split: option.split prod.split)

lemma dec_scalar_fuel:
  "\<lbrakk>wf_obj m; length (mp_pack (calls m)) \<le> f; \<forall>xs. m \<noteq> MArray xs; \<forall>kvs. m \<noteq> MMap kvs\<rbrakk> \<Longrightarrow>
     dec f (mp_pack (calls m) @ rest) = Some (m, rest)"
  using dec_scalar [of m] calls_nonempty [of m] by (cases f) auto

lemma dec_mp_pack:
  "\<lbrakk>wf_obj m; length (mp_pack (calls m)) \<le> f\<rbrakk> \<Longrightarrow> dec f (mp_pack (calls m) @ rest) = Some (m, rest)"
proof (induction m arbitrary: f rest rule: wf_obj.induct)
  case (9 xs)
  then show ?case by (intro dec_mp_pack_array) (auto simp: list_all_iff)
next
  case (10 kvs)
  then show ?case by (intro dec_mp_pack_map) (auto simp: list_all_iff pair_of_def)
qed (rule dec_scalar_fuel; (assumption | blast))+

interpretation mp: msgpack_codec mp_pack mp_unpack
proof
  fix m :: mobj
  assume "wf_obj m"
  then show "mp_unpack (mp_pack (calls m)) = Some m"
    using dec_mp_pack [of m "length (mp_pack (calls m))" "[]"] by (simp add: mp_unpack_def)
qed

end
