(* ===== verification/Relay_Routing.thy ===== *)
theory Relay_Routing
  imports Relay_State MsgPack_Format
begin

text \<open>
  The two heart pieces of \<^verbatim>\<open>RelayServer\<close>: \<^verbatim>\<open>try_authenticate\<close>, which registers a connection with
  its user and evicts the oldest connections beyond the limit, and
  \<^verbatim>\<open>deliver_to_user_by_recv_mode\<close>, which hands a payload to one or all connections of a user.

  \<open>recipients\<close> is the specification of the delivery: which connections receive the payload, in which
  order.  \<open>deliver_posts\<close> shows that the code posts exactly one frame to each of them and touches
  no other session.
\<close>

subsection \<open>Login\<close>

record LoginOk =
  effective_mode :: RecvMode
  recv_mode_notice :: "string option"

text \<open>The loop that pops the front of the deque while it is longer than the limit.\<close>

fun trim_deque :: "nat \<Rightarrow> u64 list \<Rightarrow> u64 list \<times> u64 list" where
  "trim_deque m [] = ([], [])"
| "trim_deque m (c # dq) =
     (if length (c # dq) > m then (case trim_deque m dq of (d, vs) \<Rightarrow> (d, c # vs)) else (c # dq, []))"

definition choose_mode :: "u64 \<Rightarrow> RecvMode \<Rightarrow> 'db relay \<Rightarrow> 'db relay \<times> LoginOk" where
  "choose_mode uid want r =
     (if user_deque r uid = None \<or> user_deque r uid = Some [] then
        (r\<lparr>user_recv_mode := (user_recv_mode r)(uid \<mapsto> want)\<rparr>,
         \<lparr>effective_mode = want, recv_mode_notice = None\<rparr>)
      else
        (let established = (case user_recv_mode r uid of Some m \<Rightarrow> m | None \<Rightarrow> kBroadcast) in
         (r\<lparr>user_recv_mode := (user_recv_mode r)(uid \<mapsto> established)\<rparr>,
          \<lparr>effective_mode = established,
           recv_mode_notice = (if established \<noteq> want then Some txt_recv_mode_fixed else None)\<rparr>)))"

text \<open>The critical section of a successful login, and the notification of the evicted sessions after it.\<close>

definition register_login :: "'db env \<Rightarrow> u64 \<Rightarrow> u64 \<Rightarrow> bool \<Rightarrow> string \<Rightarrow> RecvMode \<Rightarrow> 'db relay \<Rightarrow>
    'db relay \<times> u64 list \<times> LoginOk" where
  "register_login e self uid adm un want r =
     (let r = r\<lparr>uid_to_username := (uid_to_username r)(uid \<mapsto> un), name_to_uid := (name_to_uid r)(un \<mapsto> uid)\<rparr>;
          (r, ok) = choose_mode uid want r;
          dq = (case user_deque r uid of Some dq \<Rightarrow> dq | None \<Rightarrow> []) @ [self];
          (dq, victims) = trim_deque (nat (max_connections_per_user (session (r_cfg r)))) dq;
          r = r\<lparr>user_deque := (user_deque r)(uid \<mapsto> dq)\<rparr>
      in (upd_sess self (mark_login (e_now e) uid adm un) r, victims, ok))"

fun notify_each :: "'db env \<Rightarrow> string \<Rightarrow> string \<Rightarrow> u64 list \<Rightarrow> 'db relay \<Rightarrow> 'db relay" where
  "notify_each e reason why [] r = r"
| "notify_each e reason why (c # cs) r = notify_each e reason why cs (notify_and_close e c reason why r)"

definition try_authenticate :: "'db env \<Rightarrow> u64 \<Rightarrow> mmap \<Rightarrow> 'db relay \<Rightarrow> 'db relay \<times> (int \<times> string + LoginOk)" where
  "try_authenticate e self mp r =
     (let un = map_get_str mp ''username''; pw = map_get_str mp ''password'';
          pr = map_get_str mp ''peer_role''; rm = map_get_str mp ''recv_mode''
      in if un = None \<or> un = Some [] then (r, Inl (kInvalidLoginBody, txt_no_username))
         else if pw = None then (r, Inl (kInvalidLoginBody, txt_no_password))
         else if pr = None then (r, Inl (kInvalidLoginBody, txt_no_peer_role))
         else if rm = None then (r, Inl (kInvalidLoginBody, txt_no_recv_mode))
         else if the pr \<noteq> ''admin'' \<and> the pr \<noteq> ''user'' then (r, Inl (kInvalidLoginBody, txt_bad_peer_role))
         else
           (let want_admin = (the pr = ''admin'') in
            case parse_recv_mode_str (the rm) of
              None \<Rightarrow> (r, Inl (kInvalidLoginBody, txt_bad_recv_mode))
            | Some want_mode \<Rightarrow>
                (let cip = client_ip (the_sess r self) in
                 if cip = [] then (r, Inl (kIpNotAllowed, txt_ip_not_allowed))
                 else
                   (case ip_whitelisted (e_api e) cip (r_db r) of
                      (db, False) \<Rightarrow> (r\<lparr>r_db := db\<rparr>, Inl (kIpNotAllowed, txt_ip_not_allowed))
                    | (db, True) \<Rightarrow>
                        (case authenticate_or_register (e_api e) (the un) (the pw) want_admin db of
                           (db, Inl err) \<Rightarrow> (r\<lparr>r_db := db\<rparr>, Inl (kAuthFailed, err))
                         | (db, Inr uinfo) \<Rightarrow>
                             (case register_login e self (ui_id uinfo) (ui_admin uinfo) (the un) want_mode
                                (r\<lparr>r_db := db\<rparr>) of
                                (r, victims, ok) \<Rightarrow>
                                  (notify_each e txt_conn_limit ''max_connections_per_user''
                                     (filter (\<lambda>v. v \<noteq> self) victims) r, Inr ok)))))))"

subsection \<open>Delivery\<close>

definition ensure_uid_for_username :: "'db env \<Rightarrow> string \<Rightarrow> 'db relay \<Rightarrow> 'db relay \<times> u64 option" where
  "ensure_uid_for_username e un r =
     (case name_to_uid r un of
        Some uid \<Rightarrow> (r, Some uid)
      | None \<Rightarrow>
          (case user_id_by_username (e_api e) un (r_db r) of
             (db, None) \<Rightarrow> (r\<lparr>r_db := db\<rparr>, None)
           | (db, Some uid) \<Rightarrow> (r\<lparr>r_db := db, name_to_uid := (name_to_uid r)(un \<mapsto> uid)\<rparr>, Some uid)))"

definition list_user_connections :: "u64 \<Rightarrow> 'db relay \<Rightarrow> u64 list" where
  "list_user_connections uid r =
     (case user_deque r uid of None \<Rightarrow> [] | Some dq \<Rightarrow> filter (is_open r) dq)"

definition send_deliver :: "'db env \<Rightarrow> string \<Rightarrow> u64 \<Rightarrow> string \<Rightarrow> string \<Rightarrow> u32 \<Rightarrow> u64 \<Rightarrow> 'db relay \<Rightarrow> 'db relay" where
  "send_deliver e src_un src_conn dst_un payload sq c r =
     (let body = e_pack e (pack_deliver_envelope payload src_conn (conn_id (the_sess r c)) src_un dst_un)
      in upd_sess c (send_frame (pack_wire kMsgDeliver sq body)) r)"

text \<open>The broadcast loop; \<open>n\<close> is the local counter \<^verbatim>\<open>sent\<close>.\<close>

fun broadcast_loop :: "'db env \<Rightarrow> string \<Rightarrow> u64 \<Rightarrow> string \<Rightarrow> string \<Rightarrow> u32 \<Rightarrow> int \<Rightarrow> u64 list \<Rightarrow> 'db relay \<Rightarrow> 'db relay" where
  "broadcast_loop e src_un src_conn dst_un payload sq n [] r = r"
| "broadcast_loop e src_un src_conn dst_un payload sq n (c # cs) r =
     (if n \<ge> broadcast_max_recipients (session (r_cfg r)) then
        push_event e kWarn ''broadcast truncated at max_recipients'' r
      else broadcast_loop e src_un src_conn dst_un payload sq (n + 1) cs
             (send_deliver e src_un src_conn dst_un payload sq c r))"

definition deliver_to_user_by_recv_mode :: "'db env \<Rightarrow> string \<Rightarrow> u64 \<Rightarrow> string \<Rightarrow> string \<Rightarrow> u32 \<Rightarrow> 'db relay \<Rightarrow> 'db relay" where
  "deliver_to_user_by_recv_mode e src_un src_conn dst_un payload sq r =
     (case ensure_uid_for_username e dst_un r of
        (r, None) \<Rightarrow> r
      | (r, Some dst_uid) \<Rightarrow>
          (case user_deque r dst_uid of
             None \<Rightarrow> r
           | Some dq \<Rightarrow>
               if dq = [] then r
               else
                 (let mode = (case user_recv_mode r dst_uid of Some m \<Rightarrow> m | None \<Rightarrow> kBroadcast);
                      open_list = filter (is_open r) dq
                  in if open_list = [] then r
                     else if mode = kBroadcast then
                       broadcast_loop e src_un src_conn dst_un payload sq 0 open_list r
                     else
                       (let cur = (case rr_next_index r dst_uid of Some k \<Rightarrow> k | None \<Rightarrow> 0);
                            pick = unat (cur mod word_of_nat (length open_list));
                            r = r\<lparr>rr_next_index := (rr_next_index r)(dst_uid \<mapsto> cur + 1)\<rparr>
                        in send_deliver e src_un src_conn dst_un payload sq (open_list ! pick) r))))"

definition admin_kick_uid_sessions :: "'db env \<Rightarrow> u64 \<Rightarrow> string \<Rightarrow> string \<Rightarrow> 'db relay \<Rightarrow> 'db relay" where
  "admin_kick_uid_sessions e uid reason tag r =
     (let victims = (case user_deque r uid of Some dq \<Rightarrow> dq | None \<Rightarrow> [])
      in notify_each e reason tag victims r)"

subsection \<open>Eviction\<close>

lemma trim_deque_eq: "trim_deque m dq = (drop (length dq - m) dq, take (length dq - m) dq)"
  by (induction dq) (auto simp: Suc_diff_le not_less)

subsection \<open>Delivery\<close>

text \<open>The frame connection \<open>c\<close> gets, and the connections that get one.\<close>

definition deliver_frame :: "'db env \<Rightarrow> string \<Rightarrow> u64 \<Rightarrow> string \<Rightarrow> string \<Rightarrow> u32 \<Rightarrow> 'db relay \<Rightarrow> u64 \<Rightarrow> string" where
  "deliver_frame e src_un src_conn dst_un payload sq r c =
     pack_wire kMsgDeliver sq
       (e_pack e (pack_deliver_envelope payload src_conn (conn_id (the_sess r c)) src_un dst_un))"

definition rr_cursor :: "'db relay \<Rightarrow> u64 \<Rightarrow> u64" where
  "rr_cursor r uid = (case rr_next_index r uid of Some k \<Rightarrow> k | None \<Rightarrow> 0)"

definition mode_of :: "'db relay \<Rightarrow> u64 \<Rightarrow> RecvMode" where
  "mode_of r uid = (case user_recv_mode r uid of Some m \<Rightarrow> m | None \<Rightarrow> kBroadcast)"

definition recipients :: "'db relay \<Rightarrow> u64 \<Rightarrow> u64 list" where
  "recipients r uid =
     (let cs = list_user_connections uid r in
      if mode_of r uid = kBroadcast then take (nat (broadcast_max_recipients (session (r_cfg r)))) cs
      else if cs = [] then []
      else [cs ! (unat (rr_cursor r uid) mod length cs)])"

lemma heap_send_deliver:
  "heap (send_deliver e su sc du p sq c r) =
     post_all ((\<lambda>_. [])(c := [PostSend (deliver_frame e su sc du p sq r c)])) (heap r)"
  by (simp add: send_deliver_def send_frame_def heap_post deliver_frame_def Let_def del: heap_upd_sess)

lemma send_deliver_fields [simp, frame_simps]:
  "r_cfg (send_deliver e su sc du p sq c r) = r_cfg r" "user_deque (send_deliver e su sc du p sq c r) = user_deque r"
  "name_to_uid (send_deliver e su sc du p sq c r) = name_to_uid r"
  "user_recv_mode (send_deliver e su sc du p sq c r) = user_recv_mode r"
  "rr_next_index (send_deliver e su sc du p sq c r) = rr_next_index r"
  "readers (send_deliver e su sc du p sq c r) = readers r" "next_conn_id (send_deliver e su sc du p sq c r) = next_conn_id r"
  "all_sessions (send_deliver e su sc du p sq c r) = all_sessions r" "by_id (send_deliver e su sc du p sq c r) = by_id r"
  "uid_to_username (send_deliver e su sc du p sq c r) = uid_to_username r" "r_db (send_deliver e su sc du p sq c r) = r_db r"
  "r_metrics (send_deliver e su sc du p sq c r) = r_metrics r" "events (send_deliver e su sc du p sq c r) = events r"
  "started_ms (send_deliver e su sc du p sq c r) = started_ms r"
  by (simp_all add: send_deliver_def Let_def)

lemma deliver_frame_post_all:
  "heap r' = post_all ts (heap r) \<Longrightarrow> deliver_frame (e :: 'db env) su sc du p sq r' = deliver_frame e su sc du p sq r"
  by (rule ext) (simp add: deliver_frame_def)

lemma broadcast_loop_heap:
  assumes "distinct cs"
  shows "heap (broadcast_loop e su sc du p sq n cs r) =
    post_all (\<lambda>c. if c \<in> set (take (nat (broadcast_max_recipients (session (r_cfg r)) - n)) cs)
        then [PostSend (deliver_frame e su sc du p sq r c)] else []) (heap r)"
  using assms
proof (induction cs arbitrary: n r)
  case Nil
  then show ?case by simp
next
  case (Cons c cs)
  let ?cap = "broadcast_max_recipients (session (r_cfg r))"
  let ?r = "send_deliver e su sc du p sq c r"
  show ?case
  proof (cases "n \<ge> ?cap")
    case True
    then show ?thesis by simp
  next
    case False
    then have k: "nat (?cap - n) = Suc (nat (?cap - (n + 1)))" by simp
    have fr: "deliver_frame e su sc du p sq ?r = deliver_frame e su sc du p sq r"
      by (rule deliver_frame_post_all [OF heap_send_deliver])
    have nc: "c \<notin> set (take k cs)" for k using Cons.prems by (auto dest: in_set_takeD)
    have "heap (broadcast_loop e su sc du p sq n (c # cs) r) =
        post_all (\<lambda>d. if d \<in> set (take (nat (?cap - (n + 1))) cs)
          then [PostSend (deliver_frame e su sc du p sq r d)] else []) (heap ?r)"
      using False Cons.IH [of "n + 1" ?r] Cons.prems by (simp add: fr cong: if_cong)
    then show ?thesis
      by (simp only: heap_send_deliver post_all_twice k)
        (rule arg_cong2 [where f = post_all], auto simp: fun_eq_iff nc)
  qed
qed

lemma broadcast_loop_fields [simp, frame_simps]:
  "user_deque (broadcast_loop e su sc du p sq n cs r) = user_deque r"
  "user_recv_mode (broadcast_loop e su sc du p sq n cs r) = user_recv_mode r"
  "rr_next_index (broadcast_loop e su sc du p sq n cs r) = rr_next_index r"
  "name_to_uid (broadcast_loop e su sc du p sq n cs r) = name_to_uid r"
  "r_cfg (broadcast_loop e su sc du p sq n cs r) = r_cfg r"
  "readers (broadcast_loop e su sc du p sq n cs r) = readers r"
  "next_conn_id (broadcast_loop e su sc du p sq n cs r) = next_conn_id r"
  "all_sessions (broadcast_loop e su sc du p sq n cs r) = all_sessions r"
  "by_id (broadcast_loop e su sc du p sq n cs r) = by_id r"
  "uid_to_username (broadcast_loop e su sc du p sq n cs r) = uid_to_username r"
  "r_db (broadcast_loop e su sc du p sq n cs r) = r_db r"
  by (induction cs arbitrary: n r; simp)+
lemma ensure_uid_fields:
  assumes "ensure_uid_for_username e un r = (r1, u)"
  shows "heap r1 = heap r" "user_deque r1 = user_deque r" "user_recv_mode r1 = user_recv_mode r"
    "rr_next_index r1 = rr_next_index r" "r_cfg r1 = r_cfg r" "readers r1 = readers r"
    "next_conn_id r1 = next_conn_id r" "all_sessions r1 = all_sessions r" "by_id r1 = by_id r"
    "uid_to_username r1 = uid_to_username r" "r_metrics r1 = r_metrics r" "events r1 = events r"
  using assms by (auto simp: ensure_uid_for_username_def split: option.splits prod.splits)

lemma unat_mod_length:
  "length xs < 2 ^ 64 \<Longrightarrow> unat (k mod word_of_nat (length xs) :: u64) = unat k mod length xs"
  by (simp add: unat_mod_distrib)

lemma deliver_unfold:
  assumes "ensure_uid_for_username e du r = (r1, Some uid)"
  shows "deliver_to_user_by_recv_mode e su sc du p sq r =
    (if list_user_connections uid r1 = [] then r1
     else if mode_of r1 uid = kBroadcast then broadcast_loop e su sc du p sq 0 (list_user_connections uid r1) r1
     else send_deliver e su sc du p sq
       (list_user_connections uid r1 !
         unat (rr_cursor r1 uid mod word_of_nat (length (list_user_connections uid r1))))
       (r1\<lparr>rr_next_index := (rr_next_index r1)(uid \<mapsto> rr_cursor r1 uid + 1)\<rparr>))"
  using assms
  by (auto simp: deliver_to_user_by_recv_mode_def list_user_connections_def mode_of_def rr_cursor_def Let_def
      split: option.splits)

lemma deliver_unknown:
  "ensure_uid_for_username e du r = (r1, None) \<Longrightarrow> deliver_to_user_by_recv_mode e su sc du p sq r = r1"
  by (simp add: deliver_to_user_by_recv_mode_def)

lemma deliver_posts:
  assumes "ensure_uid_for_username e du r = (r1, Some uid)"
    and "distinct (list_user_connections uid r1)" and "length (list_user_connections uid r1) < 2 ^ 64"
  shows "heap (deliver_to_user_by_recv_mode e su sc du p sq r) =
    post_all (\<lambda>c. if c \<in> set (recipients r1 uid)
        then [PostSend (deliver_frame e su sc du p sq r1 c)] else []) (heap r1)"
proof -
  have "deliver_frame e su sc du p sq (r1\<lparr>rr_next_index := x\<rparr>) = deliver_frame e su sc du p sq r1" for x
    by (simp add: deliver_frame_def the_sess_def fun_eq_iff)
  then show ?thesis using assms(2,3)
    by (auto simp: deliver_unfold [OF assms(1)] recipients_def broadcast_loop_heap heap_send_deliver
        unat_mod_length Let_def cong: if_cong intro!: arg_cong2 [where f = post_all])
qed

subsection \<open>Round robin over many deliveries\<close>

fun deliver_seq :: "'db env \<Rightarrow> string \<Rightarrow> u64 \<Rightarrow> string \<Rightarrow> (string \<times> u32) list \<Rightarrow> 'db relay \<Rightarrow> 'db relay" where
  "deliver_seq e su sc du [] r = r"
| "deliver_seq e su sc du ((p, sq) # ms) r =
     deliver_seq e su sc du ms (deliver_to_user_by_recv_mode e su sc du p sq r)"

fun rr_targets :: "u64 list \<Rightarrow> nat \<Rightarrow> nat \<Rightarrow> u64 list" where
  "rr_targets cs k 0 = []"
| "rr_targets cs k (Suc m) = cs ! (k mod length cs) # rr_targets cs (Suc k) m"

lemma length_rr_targets [simp]: "length (rr_targets cs k m) = m"
  by (induction m arbitrary: k) simp_all

lemma rr_targets_nth: "i < m \<Longrightarrow> rr_targets cs k m ! i = cs ! ((k + i) mod length cs)"
  by (induction m arbitrary: k i) (auto simp: nth_Cons split: nat.splits)

lemma rr_targets_rotate: "rr_targets cs k (length cs) = rotate k cs"
  by (rule nth_equalityI) (simp_all add: rr_targets_nth nth_rotate)

text \<open>The tasks one session gets when message \<open>i\<close> of \<open>ms\<close> goes to target \<open>i\<close> of \<open>rs\<close>.\<close>

definition tasks_for :: "(string \<Rightarrow> u32 \<Rightarrow> u64 \<Rightarrow> string) \<Rightarrow> u64 list \<Rightarrow> (string \<times> u32) list \<Rightarrow> u64 \<Rightarrow> strand_task list" where
  "tasks_for fr rs ms c =
     map (\<lambda>(_, p, sq). PostSend (fr p sq c)) (filter (\<lambda>(d, _). d = c) (zip rs ms))"

lemma rr_deliver_one:
  fixes e :: "'db env" and su du p :: string and sc :: u64 and sq :: u32
  assumes "name_to_uid r du = Some uid" and "mode_of r uid = kRoundRobin"
    and "list_user_connections uid r = cs" and "cs \<noteq> []" and "length cs < 2 ^ 64"
  defines "r' \<equiv> deliver_to_user_by_recv_mode e su sc du p sq r"
  shows "heap r' = post_all ((\<lambda>_. [])(cs ! (unat (rr_cursor r uid) mod length cs) :=
        [PostSend (deliver_frame e su sc du p sq r (cs ! (unat (rr_cursor r uid) mod length cs)))])) (heap r)"
    and "rr_cursor r' uid = rr_cursor r uid + 1" and "name_to_uid r' = name_to_uid r"
    and "mode_of r' uid = mode_of r uid" and "list_user_connections uid r' = cs"
proof -
  let ?c = "cs ! (unat (rr_cursor r uid) mod length cs)"
  let ?r = "r\<lparr>rr_next_index := (rr_next_index r)(uid \<mapsto> rr_cursor r uid + 1)\<rparr>"
  have en: "ensure_uid_for_username e du r = (r, Some uid)"
    using assms(1) by (simp add: ensure_uid_for_username_def)
  have r': "r' = send_deliver e su sc du p sq ?c ?r"
    using assms(2-5) by (simp add: r'_def deliver_unfold [OF en] unat_mod_length)
  have "deliver_frame e su sc du p sq ?r = deliver_frame e su sc du p sq r"
    by (simp add: deliver_frame_def the_sess_def fun_eq_iff)
  then show heap: "heap r' = post_all ((\<lambda>_. [])(?c := [PostSend (deliver_frame e su sc du p sq r ?c)])) (heap r)"
    by (simp add: r' heap_send_deliver)
  show "rr_cursor r' uid = rr_cursor r uid + 1" "name_to_uid r' = name_to_uid r" "mode_of r' uid = mode_of r uid"
    by (simp_all add: r' mode_of_def rr_cursor_def)
  show "list_user_connections uid r' = cs"
  proof -
    have "is_open r' = is_open r" by (rule ext) (rule sess_post_all(5) [OF heap])
    moreover have "user_deque r' = user_deque r" by (simp add: r')
    ultimately show ?thesis using assms(3) by (auto simp: list_user_connections_def split: option.splits)
  qed
qed

lemma rr_deliver_seq:
  assumes "name_to_uid r du = Some uid" and "mode_of r uid = kRoundRobin"
    and "list_user_connections uid r = cs" and "cs \<noteq> []" and "length cs < 2 ^ 64"
    and "unat (rr_cursor r uid) + length ms < 2 ^ 64"
  shows "heap (deliver_seq e su sc du ms r) =
    post_all (tasks_for (\<lambda>p sq. deliver_frame e su sc du p sq r)
      (rr_targets cs (unat (rr_cursor r uid)) (length ms)) ms) (heap r)"
  using assms
proof (induction ms arbitrary: r)
  case Nil
  then show ?case by (simp add: tasks_for_def [abs_def])
next
  case (Cons m ms)
  obtain p sq where m: "m = (p, sq)" by (cases m)
  let ?r = "deliver_to_user_by_recv_mode e su sc du p sq r"
  note one = rr_deliver_one [OF Cons.prems(1-5), where e = e and su = su and sc = sc and p = p and sq = sq]
  have k: "unat (rr_cursor r uid + 1) = Suc (unat (rr_cursor r uid))"
    using Cons.prems(6) by (simp add: unat_word_ariths)
  have fr: "(\<lambda>p sq. deliver_frame e su sc du p sq ?r) = (\<lambda>p sq. deliver_frame e su sc du p sq r)"
    by (intro ext) (simp only: deliver_frame_post_all [OF one(1)])
  have "heap (deliver_seq e su sc du ms ?r) =
      post_all (tasks_for (\<lambda>p sq. deliver_frame e su sc du p sq ?r)
        (rr_targets cs (unat (rr_cursor ?r uid)) (length ms)) ms) (heap ?r)"
    using Cons.prems one k by (intro Cons.IH) simp_all
  then show ?case
    by (simp only: m deliver_seq.simps fr one(1,2) k post_all_twice)
      (rule arg_cong2 [where f = post_all], auto simp: tasks_for_def fun_eq_iff)
qed

lemma length_tasks_for:
  "length rs = length ms \<Longrightarrow> length (tasks_for fr rs ms c) = count_list rs c"
  by (induction rs ms rule: list_induct2) (auto simp: tasks_for_def)

lemma count_distinct: "distinct xs \<Longrightarrow> count_list xs c = (if c \<in> set xs then 1 else 0)"
  by (induction xs) auto

subsection \<open>A concrete server\<close>

definition demo_env :: "sql_db env" where
  "demo_env = \<lparr>e_api = sql_api, e_pack = mp_pack, e_unpack = mp_unpack, e_order = (\<lambda>m. sorted_list_of_set (dom m)), e_now = 0, e_wall = 0\<rparr>"

definition demo_relay :: "RecvMode \<Rightarrow> sql_db relay" where
  "demo_relay m =
     (new_relay shipped_config 0)\<lparr>
       heap := [1 \<mapsto> (new_session 1 None)\<lparr>logged_in := True, user_id := 7\<rparr>,
                2 \<mapsto> (new_session 2 None)\<lparr>logged_in := True, user_id := 7\<rparr>,
                3 \<mapsto> (new_session 3 None)\<lparr>logged_in := True, user_id := 7, sock_open := False\<rparr>],
       user_deque := [7 \<mapsto> [1, 2, 3]], name_to_uid := [''bob'' \<mapsto> 7],
       user_recv_mode := [7 \<mapsto> m]\<rparr>"

lemma demo_connections [simp]: "list_user_connections 7 (demo_relay m) = [1, 2]"
  by (simp add: list_user_connections_def demo_relay_def is_open_def the_sess_def new_session_def)

lemma demo_lookup [simp]: "ensure_uid_for_username e ''bob'' (demo_relay m) = (demo_relay m, Some 7)"
  by (simp add: ensure_uid_for_username_def demo_relay_def)

lemma demo_mode [simp]: "mode_of (demo_relay m) 7 = m" "rr_cursor (demo_relay m) 7 = 0"
  by (simp_all add: mode_of_def rr_cursor_def demo_relay_def new_relay_def)

lemma demo_cap [simp]: "broadcast_max_recipients (session (r_cfg (demo_relay m))) = 10000"
  by (simp add: demo_relay_def new_relay_def shipped_config_def default_config_def default_session_policy_def)

lemma demo_heap:
  "heap (demo_relay m) 1 = Some ((new_session 1 None)\<lparr>logged_in := True, user_id := 7\<rparr>)"
  "heap (demo_relay m) 2 = Some ((new_session 2 None)\<lparr>logged_in := True, user_id := 7\<rparr>)"
  by (simp_all add: demo_relay_def)

subsection \<open>Properties\<close>

text \<open>
  C6. Round robin is fair.  As many deliveries in a row as the user has open connections reach every
  open connection exactly once; message \<open>i\<close> goes to the connection \<open>i\<close> places after the cursor.
  (The 64-bit cursor must not wrap around during the sequence.)
\<close>

theorem round_robin_fair:
  assumes "name_to_uid r dst = Some uid" and "mode_of r uid = kRoundRobin"
    and "list_user_connections uid r = cs" and "cs \<noteq> []" and "distinct cs"
    and "unat (rr_cursor r uid) + length ms < 2 ^ 64" and "length ms = length cs"
  shows "let ts = tasks_for (\<lambda>p sq. deliver_frame e src src_conn dst p sq r) (rotate (unat (rr_cursor r uid)) cs) ms in
    heap (deliver_seq e src src_conn dst ms r) = post_all ts (heap r) \<and>
    (\<forall>c. length (ts c) = (if c \<in> set cs then 1 else 0))"
proof -
  have "length cs < 2 ^ 64" using assms(6,7) by simp
  then show ?thesis
    using rr_deliver_seq [OF assms(1-4) _ assms(6), of e src src_conn] assms(5,7)
    by (simp add: rr_targets_rotate length_tasks_for count_distinct Let_def)
qed

theorem round_robin_fair_witness:
  "\<exists>ts. heap (deliver_seq demo_env ''al'' 9 ''bob'' [(''x'', 1), (''y'', 2)] (demo_relay kRoundRobin)) =
      post_all ts (heap (demo_relay kRoundRobin)) \<and> 
      length (ts 1) = 1 \<and> length (ts 2) = 1"
proof -
  have n: "name_to_uid (demo_relay kRoundRobin) ''bob'' = Some 7" by (simp add: demo_relay_def)
  note fair = round_robin_fair [OF n, of "[1, 2]" "[(''x'', 1), (''y'', 2)]" demo_env "''al''" 9, unfolded Let_def]
  show ?thesis
    by (rule exI, rule conjI, rule fair [THEN conjunct1]; (simp del: deliver_seq.simps)?)
      (use fair [THEN conjunct2] in simp)
qed

text \<open>
  C22. The connection limit.  A successful login appends the connection to the deque of its user and releases
  exactly the surplus over \<^verbatim>\<open>max_connections_per_user\<close>, oldest first: the victims followed by the new
  deque are the old deque followed by the new connection, the new deque is as long as the limit allows, nobody
  is released while the user is below the limit, and the new connection itself is never a victim.
\<close>

theorem login_evicts_oldest:
  assumes "register_login e self uid adm un want r = (r', victims, ok)"
    and "1 \<le> max_connections_per_user (session (r_cfg r))"
    and "self \<notin> set (case user_deque r uid of Some dq \<Rightarrow> dq | None \<Rightarrow> [])"
  shows "let old = (case user_deque r uid of Some dq \<Rightarrow> dq | None \<Rightarrow> []);
      m = nat (max_connections_per_user (session (r_cfg r)))
    in \<exists>dq. user_deque r' = (user_deque r)(uid \<mapsto> dq) \<and> victims @ dq = old @ [self] \<and>
      length dq = min (length old + 1) m \<and> length victims = length old + 1 - m \<and>
      (length old < m \<longrightarrow> victims = []) \<and> last dq = self \<and> dq \<noteq> [] \<and> self \<notin> set victims"
proof -
  let ?old = "case user_deque r uid of Some dq \<Rightarrow> dq | None \<Rightarrow> []"
  let ?m = "nat (max_connections_per_user (session (r_cfg r)))"
  let ?k = "length (?old @ [self]) - ?m"
  have k: "?k \<le> length ?old" using assms(2) by simp
  have r': "user_deque r' = (user_deque r)(uid \<mapsto> drop ?k (?old @ [self]))" "victims = take ?k (?old @ [self])"
    using assms(1)
    by (auto simp: register_login_def choose_mode_def trim_deque_eq Let_def split: prod.splits if_splits)
  moreover have "drop ?k (?old @ [self]) = drop ?k ?old @ [self]" "take ?k (?old @ [self]) = take ?k ?old"
    using k by simp_all
  ultimately show ?thesis
    using assms(2,3) in_set_takeD [of self ?k ?old] unfolding Let_def
    by (intro exI [of _ "drop ?k (?old @ [self])"]) auto
qed

definition small_limit :: "sql_db relay" where
  "small_limit = (demo_relay kBroadcast)\<lparr>r_cfg := shipped_config\<lparr>session := default_session_policy\<lparr>max_connections_per_user := 3\<rparr>\<rparr>\<rparr>"

theorem login_evicts_oldest_witness:
  "\<exists>r' ok. register_login demo_env 4 7 False ''bob'' kBroadcast small_limit = (r', [1], ok) \<and>
     user_deque r' 7 = Some [2, 3, 4]"
proof -
  obtain r' victims ok where
    r: "register_login demo_env 4 7 False ''bob'' kBroadcast small_limit = (r', victims, ok)"
    by (cases "register_login demo_env 4 7 False ''bob'' kBroadcast small_limit") auto
  have "user_deque small_limit 7 = Some [1, 2, 3]" "max_connections_per_user (session (r_cfg small_limit)) = 3"
    by (simp_all add: small_limit_def demo_relay_def)
  then have "\<exists>dq. user_deque r' 7 = Some dq \<and> victims @ dq = [1, 2, 3, 4] \<and> length victims = 1"
    using login_evicts_oldest [OF r] by (auto simp: Let_def)
  with r show ?thesis by (auto simp: length_Suc_conv)
qed

end
