(* ===== verification/Relay_Control.thy ===== *)
theory Relay_Control
  imports Relay_Routing
begin

text \<open>
  \<^verbatim>\<open>RelayServer::handle_client_frame\<close>: what the server does with one frame.  The handler is split
  where the source has its big branches: login, heartbeat, data, and one definition per CONTROL
  action.  Reply bodies are the packer calls of the source, in order.

  The lemmas show that every body the server packs is a well-formed msgpack map (the announced
  element counts are right), that every frame of a logged-in session with a map body is answered by
  exactly one reply that carries the request's sequence number, and that CONTROL needs an administrator.
\<close>

subsection \<open>Reply bodies\<close>

definition login_reply :: "u64 \<Rightarrow> u64 \<Rightarrow> string \<Rightarrow> bool \<Rightarrow> LoginOk \<Rightarrow> pk_call list" where
  "login_reply cid uid un adm ok =
     (case recv_mode_notice ok of Some _ \<Rightarrow> [PackMap 8] | None \<Rightarrow> [PackMap 7]) @
     [PackStr ''ok'', PackBool True, PackStr ''op'', PackStr ''LOGIN'',
      PackStr ''conn_id'', PackInt (uint cid), PackStr ''user_id'', PackInt (uint uid),
      PackStr ''username'', PackStr un,
      PackStr ''peer_role'', PackStr (if adm then ''admin'' else ''user''),
      PackStr ''recv_mode'', PackStr (recv_mode_cstr (effective_mode ok))] @
     (case recv_mode_notice ok of Some n \<Rightarrow> [PackStr ''recv_mode_notice'', PackStr n] | None \<Rightarrow> [])"

definition ok_reply :: "string \<Rightarrow> pk_call list" where
  "ok_reply op = [PackMap 2, PackStr ''ok'', PackBool True, PackStr ''op'', PackStr op]"

definition control_reply :: "string \<Rightarrow> pk_call list \<Rightarrow> pk_call list" where
  "control_reply key rest =
     [PackMap 3, PackStr ''ok'', PackBool True, PackStr ''op'', PackStr ''CONTROL'', PackStr key] @ rest"

definition users_array :: "'db env \<Rightarrow> 'db relay \<Rightarrow> pk_call list" where
  "users_array e r =
     [PackArray (card (dom (user_deque r)))] @
     concat (map (\<lambda>uid.
       (let dq = (case user_deque r uid of Some dq \<Rightarrow> dq | None \<Rightarrow> []);
            uname = (case uid_to_username r uid of Some n \<Rightarrow> n | None \<Rightarrow> []);
            nopen = length (filter (is_open r) dq)
        in [PackMap 3, PackStr ''user_id'', PackInt (uint uid), PackStr ''username'', PackStr uname,
            PackStr ''connections'', PackArray nopen] @
           concat (map (\<lambda>c. if \<not> is_open r c then []
                            else [PackMap 2, PackStr ''conn_id'', PackInt (uint (conn_id (the_sess r c))),
                                  PackStr ''endpoint'', PackStr (endpoint_str (the_sess r c))]) dq)))
       (e_order e (user_deque r)))"

definition ip_rows_array :: "AdminIpRow list \<Rightarrow> pk_call list" where
  "ip_rows_array rows =
     [PackArray (length rows)] @
     concat (map (\<lambda>x. [PackMap 2, PackStr ''id'', PackInt (uint (ip_row_id x)),
                       PackStr ''ip'', PackStr (ip_row_ip x)]) rows)"

definition user_rows_array :: "AdminUserRow list \<Rightarrow> pk_call list" where
  "user_rows_array rows =
     [PackArray (length rows)] @
     concat (map (\<lambda>x. [PackMap 3, PackStr ''id'', PackInt (uint (user_row_id x)),
                       PackStr ''username'', PackStr (user_row_name x),
                       PackStr ''is_admin'', PackBool (user_row_admin x)]) rows)"

subsection \<open>Login, heartbeat, data\<close>

definition handle_login :: "'db env \<Rightarrow> u64 \<Rightarrow> Header \<Rightarrow> string \<Rightarrow> 'db relay \<Rightarrow> 'db relay" where
  "handle_login e from h body r =
     (if msg_type h \<noteq> kClientLogin then upd_sess from (stop txt_login_first) r
      else
        (case e_unpack e body of
           None \<Rightarrow> upd_sess from (stop ''invalid msgpack body'') r
         | Some (MMap mp) \<Rightarrow>
             (case try_authenticate e from mp r of
                (r, Inl (code, message)) \<Rightarrow> send_err_reply e from (seq h) code message r
              | (r, Inr lok) \<Rightarrow>
                  (let s = the_sess r from;
                       r = send_reply e from
                             (login_reply (conn_id s) (user_id s) (username s) (is_admin s) lok) (seq h) r
                   in push_event e kInfo (''login ok user='' @ username s) r))
         | Some _ \<Rightarrow> upd_sess from (stop ''body must be msgpack map'') r))"

definition handle_data :: "'db env \<Rightarrow> u64 \<Rightarrow> Header \<Rightarrow> mmap \<Rightarrow> 'db relay \<Rightarrow> 'db relay" where
  "handle_data e from h mp r =
     (case extract_payload_bin (map_get_obj mp ''payload'') of
        None \<Rightarrow> send_err_reply e from (seq h) kProtocol txt_no_payload r
      | Some payload \<Rightarrow>
          (let dst = map_get_str mp ''dst_username'' in
           if dst = None \<or> dst = Some [] then send_err_reply e from (seq h) kProtocol txt_no_dst r
           else
             (let src_c = conn_id (the_sess r from); src_un = username (the_sess r from);
                  r = deliver_to_user_by_recv_mode e src_un src_c (the dst) payload (seq h) r
              in send_reply e from (ok_reply ''DATA'') (seq h) r)))"

subsection \<open>CONTROL actions\<close>

definition control_list_users :: "'db env \<Rightarrow> u64 \<Rightarrow> Header \<Rightarrow> 'db relay \<Rightarrow> 'db relay" where
  "control_list_users e from h r = send_reply e from (control_reply ''users'' (users_array e r)) (seq h) r"

definition control_kick_user :: "'db env \<Rightarrow> u64 \<Rightarrow> Header \<Rightarrow> mmap \<Rightarrow> 'db relay \<Rightarrow> 'db relay" where
  "control_kick_user e from h mp r =
     (case map_get_u64 mp ''target_user_id'' of
        None \<Rightarrow> send_err_reply e from (seq h) kProtocol txt_kick_needs_target r
      | Some target \<Rightarrow>
          (let victims = (case user_deque r target of Some dq \<Rightarrow> dq | None \<Rightarrow> []);
               s = the_sess r from;
               kick_msg = txt_kick_by @ username s @ txt_kick_uid @ dec_digits (unat (user_id s)) @
                          txt_kick_target @ dec_digits (unat target);
               r = notify_each e kick_msg ''kick_user'' victims r
           in send_reply e from
                (control_reply ''kicked_count'' [PackInt (uint (word_of_nat (length victims) :: u32))]) (seq h) r))"

definition control_allowlist_list :: "'db env \<Rightarrow> u64 \<Rightarrow> Header \<Rightarrow> 'db relay \<Rightarrow> 'db relay" where
  "control_allowlist_list e from h r =
     (case admin_list_allowlist (e_api e) (r_db r) of
        Inl err \<Rightarrow> send_err_reply e from (seq h) kProtocol err r
      | Inr rows \<Rightarrow>
          push_event e kInfo (''admin allowlist_list by '' @ username (the_sess r from))
            (send_reply e from (control_reply ''rows'' (ip_rows_array rows)) (seq h) r))"

definition control_allowlist_add :: "'db env \<Rightarrow> u64 \<Rightarrow> Header \<Rightarrow> mmap \<Rightarrow> 'db relay \<Rightarrow> 'db relay" where
  "control_allowlist_add e from h mp r =
     (let ip = map_get_str mp ''ip'' in
      if ip = None \<or> ip = Some [] then send_err_reply e from (seq h) kProtocol txt_add_needs_ip r
      else
        (case admin_insert_allowlist (e_api e) (the ip) (r_db r) of
           (db, Some err) \<Rightarrow> send_err_reply e from (seq h) kProtocol err (r\<lparr>r_db := db\<rparr>)
         | (db, None) \<Rightarrow>
             push_event e kInfo (''admin allowlist_add ip='' @ the ip @ '' by '' @ username (the_sess r from))
               (send_reply e from (ok_reply ''CONTROL'') (seq h) (r\<lparr>r_db := db\<rparr>))))"

definition control_allowlist_update :: "'db env \<Rightarrow> u64 \<Rightarrow> Header \<Rightarrow> mmap \<Rightarrow> 'db relay \<Rightarrow> 'db relay" where
  "control_allowlist_update e from h mp r =
     (case (map_get_u64 mp ''id'', map_get_str mp ''ip'') of
        (Some rid, Some ip) \<Rightarrow>
          (case admin_update_allowlist (e_api e) rid ip (r_db r) of
             (db, Some err) \<Rightarrow> send_err_reply e from (seq h) kProtocol err (r\<lparr>r_db := db\<rparr>)
           | (db, None) \<Rightarrow> send_reply e from (ok_reply ''CONTROL'') (seq h) (r\<lparr>r_db := db\<rparr>))
      | _ \<Rightarrow> send_err_reply e from (seq h) kProtocol txt_update_needs_id_ip r)"

definition control_allowlist_delete :: "'db env \<Rightarrow> u64 \<Rightarrow> Header \<Rightarrow> mmap \<Rightarrow> 'db relay \<Rightarrow> 'db relay" where
  "control_allowlist_delete e from h mp r =
     (case map_get_u64 mp ''id'' of
        None \<Rightarrow> send_err_reply e from (seq h) kProtocol txt_delete_needs_id r
      | Some rid \<Rightarrow>
          (case admin_delete_allowlist (e_api e) rid (r_db r) of
             (db, Some err) \<Rightarrow> send_err_reply e from (seq h) kProtocol err (r\<lparr>r_db := db\<rparr>)
           | (db, None) \<Rightarrow> send_reply e from (ok_reply ''CONTROL'') (seq h) (r\<lparr>r_db := db\<rparr>)))"

definition control_user_table_list :: "'db env \<Rightarrow> u64 \<Rightarrow> Header \<Rightarrow> 'db relay \<Rightarrow> 'db relay" where
  "control_user_table_list e from h r =
     (case admin_list_users (e_api e) (r_db r) of
        Inl err \<Rightarrow> send_err_reply e from (seq h) kProtocol err r
      | Inr rows \<Rightarrow> send_reply e from (control_reply ''rows'' (user_rows_array rows)) (seq h) r)"

definition control_user_table_add :: "'db env \<Rightarrow> u64 \<Rightarrow> Header \<Rightarrow> mmap \<Rightarrow> 'db relay \<Rightarrow> 'db relay" where
  "control_user_table_add e from h mp r =
     (let un = map_get_str mp ''username''; pw = map_get_str mp ''password'' in
      if un = None \<or> pw = None \<or> un = Some [] \<or> pw = Some [] then
        send_err_reply e from (seq h) kProtocol txt_user_add_needs r
      else
        (let adm = map_get_bool mp ''is_admin'' False in
         case admin_insert_user (e_api e) (the un) (the pw) adm (r_db r) of
           (db, Some err) \<Rightarrow> send_err_reply e from (seq h) kProtocol err (r\<lparr>r_db := db\<rparr>)
         | (db, None) \<Rightarrow>
             push_event e kInfo (''admin user_table_add '' @ the un @ '' by '' @ username (the_sess r from))
               (send_reply e from (ok_reply ''CONTROL'') (seq h) (r\<lparr>r_db := db\<rparr>))))"

text \<open>
  A field that is present must be a string; \<open>Inl\<close> is the error text.
\<close>

definition optional_str :: "mmap \<Rightarrow> string \<Rightarrow> string \<Rightarrow> string + string option" where
  "optional_str mp key bad =
     (if map_has_key mp key then
        (case map_get_str mp key of None \<Rightarrow> Inl bad | Some v \<Rightarrow> Inr (Some v))
      else Inr None)"

definition rename_cached :: "u64 \<Rightarrow> string \<Rightarrow> string option \<Rightarrow> 'db relay \<Rightarrow> 'db relay" where
  "rename_cached uid old_un nu r =
     (case nu of
        None \<Rightarrow> r
      | Some un \<Rightarrow>
          r\<lparr>name_to_uid := ((name_to_uid r)(old_un := None))(un \<mapsto> uid),
            uid_to_username := (uid_to_username r)(uid \<mapsto> un)\<rparr>)"

definition control_user_table_update :: "'db env \<Rightarrow> u64 \<Rightarrow> Header \<Rightarrow> mmap \<Rightarrow> 'db relay \<Rightarrow> 'db relay" where
  "control_user_table_update e from h mp r =
     (case map_get_u64 mp ''id'' of
        None \<Rightarrow> send_err_reply e from (seq h) kProtocol txt_user_update_needs_id r
      | Some uid \<Rightarrow>
          (case admin_get_username_by_id (e_api e) uid (r_db r) of
             (db, Inl err) \<Rightarrow> send_err_reply e from (seq h) kProtocol err (r\<lparr>r_db := db\<rparr>)
           | (db, Inr old_un) \<Rightarrow>
               (let r = r\<lparr>r_db := db\<rparr> in
                case optional_str mp ''username'' txt_bad_username of
                  Inl err \<Rightarrow> send_err_reply e from (seq h) kProtocol err r
                | Inr nu \<Rightarrow>
                    (case optional_str mp ''password'' txt_bad_password of
                       Inl err \<Rightarrow> send_err_reply e from (seq h) kProtocol err r
                     | Inr pw \<Rightarrow>
                         (let ia = (if map_has_key mp ''is_admin'' then Some (map_get_bool mp ''is_admin'' False) else None)
                          in case admin_update_user (e_api e) uid nu pw ia (r_db r) of
                               (db, Some err) \<Rightarrow> send_err_reply e from (seq h) kProtocol err (r\<lparr>r_db := db\<rparr>)
                             | (db, None) \<Rightarrow>
                                 send_reply e from (ok_reply ''CONTROL'') (seq h)
                                   (rename_cached uid old_un nu (r\<lparr>r_db := db\<rparr>)))))))"

definition control_user_table_delete :: "'db env \<Rightarrow> u64 \<Rightarrow> Header \<Rightarrow> mmap \<Rightarrow> 'db relay \<Rightarrow> 'db relay" where
  "control_user_table_delete e from h mp r =
     (case map_get_u64 mp ''id'' of
        None \<Rightarrow> send_err_reply e from (seq h) kProtocol txt_user_delete_needs_id r
      | Some uid \<Rightarrow>
          (case admin_get_username_by_id (e_api e) uid (r_db r) of
             (db, Inl err) \<Rightarrow> send_err_reply e from (seq h) kProtocol err (r\<lparr>r_db := db\<rparr>)
           | (db, Inr uname) \<Rightarrow>
               (let r = r\<lparr>r_db := db\<rparr>;
                    r = admin_kick_uid_sessions e uid txt_account_deleted ''user_table_delete'' r;
                    r = r\<lparr>name_to_uid := (name_to_uid r)(uname := None),
                          uid_to_username := (uid_to_username r)(uid := None)\<rparr>
                in case admin_delete_user (e_api e) uid (r_db r) of
                     (db, Some err) \<Rightarrow> send_err_reply e from (seq h) kProtocol err (r\<lparr>r_db := db\<rparr>)
                   | (db, None) \<Rightarrow>
                       push_event e kInfo
                         (''admin user_table_delete id='' @ dec_digits (unat uid) @ '' by '' @ username (the_sess r from))
                         (send_reply e from (ok_reply ''CONTROL'') (seq h) (r\<lparr>r_db := db\<rparr>)))))"

definition handle_control :: "'db env \<Rightarrow> u64 \<Rightarrow> Header \<Rightarrow> mmap \<Rightarrow> 'db relay \<Rightarrow> 'db relay" where
  "handle_control e from h mp r =
     (if \<not> is_admin (the_sess r from) then send_err_reply e from (seq h) kProtocol txt_need_admin r
      else
        (let action = (case map_get_str mp ''action'' of Some a \<Rightarrow> a | None \<Rightarrow> []) in
         if action = ''list_users'' then control_list_users e from h r
         else if action = ''kick_user'' then control_kick_user e from h mp r
         else if action = ''allowlist_list'' then control_allowlist_list e from h r
         else if action = ''allowlist_add'' then control_allowlist_add e from h mp r
         else if action = ''allowlist_update'' then control_allowlist_update e from h mp r
         else if action = ''allowlist_delete'' then control_allowlist_delete e from h mp r
         else if action = ''user_table_list'' then control_user_table_list e from h r
         else if action = ''user_table_add'' then control_user_table_add e from h mp r
         else if action = ''user_table_update'' then control_user_table_update e from h mp r
         else if action = ''user_table_delete'' then control_user_table_delete e from h mp r
         else send_err_reply e from (seq h) kProtocol ''unknown action'' r))"

definition handle_client_frame :: "'db env \<Rightarrow> u64 \<Rightarrow> Header \<Rightarrow> string \<Rightarrow> 'db relay \<Rightarrow> 'db relay" where
  "handle_client_frame e from h body r =
     (if \<not> logged_in (the_sess r from) then handle_login e from h body r
      else
        (case e_unpack e body of
           None \<Rightarrow> upd_sess from (stop ''invalid msgpack body'') r
         | Some (MMap mp) \<Rightarrow>
             (let mtype = msg_type h; r = upd_sess from (touch_heartbeat (e_now e)) r in
              if mtype = kClientHeartbeat then send_reply e from (ok_reply ''HEARTBEAT'') (seq h) r
              else if mtype = kClientData then handle_data e from h mp r
              else if mtype = kClientControl then handle_control e from h mp r
              else send_err_reply e from (seq h) kProtocol txt_unknown_msg_type r)
         | Some _ \<Rightarrow> upd_sess from (stop ''body must be msgpack map'') r))"

subsection \<open>The bodies are msgpack maps\<close>

definition login_obj :: "u64 \<Rightarrow> u64 \<Rightarrow> string \<Rightarrow> bool \<Rightarrow> LoginOk \<Rightarrow> mobj" where
  "login_obj cid uid un adm ok =
     MMap ([(MStr ''ok'', MBool True), (MStr ''op'', MStr ''LOGIN''), (MStr ''conn_id'', MPosInt cid),
            (MStr ''user_id'', MPosInt uid), (MStr ''username'', MStr un),
            (MStr ''peer_role'', MStr (if adm then ''admin'' else ''user'')),
            (MStr ''recv_mode'', MStr (recv_mode_cstr (effective_mode ok)))] @
           (case recv_mode_notice ok of Some n \<Rightarrow> [(MStr ''recv_mode_notice'', MStr n)] | None \<Rightarrow> []))"

definition ok_obj :: "string \<Rightarrow> mobj" where
  "ok_obj op = MMap [(MStr ''ok'', MBool True), (MStr ''op'', MStr op)]"

definition err_obj :: "u64 \<Rightarrow> string \<Rightarrow> mobj" where
  "err_obj code m = MMap [(MStr ''ok'', MBool False), (MStr ''code'', MPosInt code), (MStr ''message'', MStr m)]"

definition deliver_obj :: "string \<Rightarrow> u64 \<Rightarrow> u64 \<Rightarrow> string \<Rightarrow> string \<Rightarrow> mobj" where
  "deliver_obj p src dst su du =
     MMap [(MStr ''payload'', MBin p), (MStr ''src_conn_id'', MPosInt src), (MStr ''dst_conn_id'', MPosInt dst),
           (MStr ''src_username'', MStr su), (MStr ''dst_username'', MStr du)]"

definition kick_obj :: "string \<Rightarrow> mobj" where
  "kick_obj reason = MMap [(MStr ''op'', MStr ''KICK''), (MStr ''reason'', MStr reason)]"

definition control_obj :: "string \<Rightarrow> mobj \<Rightarrow> mobj" where
  "control_obj key v = MMap [(MStr ''ok'', MBool True), (MStr ''op'', MStr ''CONTROL''), (MStr key, v)]"

definition ip_rows_obj :: "AdminIpRow list \<Rightarrow> mobj" where
  "ip_rows_obj rows =
     MArray (map (\<lambda>x. MMap [(MStr ''id'', MPosInt (ip_row_id x)), (MStr ''ip'', MStr (ip_row_ip x))]) rows)"

definition user_rows_obj :: "AdminUserRow list \<Rightarrow> mobj" where
  "user_rows_obj rows =
     MArray (map (\<lambda>x. MMap [(MStr ''id'', MPosInt (user_row_id x)), (MStr ''username'', MStr (user_row_name x)),
                           (MStr ''is_admin'', MBool (user_row_admin x))]) rows)"

definition users_obj :: "'db env \<Rightarrow> 'db relay \<Rightarrow> mobj" where
  "users_obj e r =
     MArray (map (\<lambda>uid.
       MMap [(MStr ''user_id'', MPosInt uid),
             (MStr ''username'', MStr (case uid_to_username r uid of Some n \<Rightarrow> n | None \<Rightarrow> [])),
             (MStr ''connections'', MArray (map (\<lambda>c. MMap [(MStr ''conn_id'', MPosInt (conn_id (the_sess r c))),
                  (MStr ''endpoint'', MStr (endpoint_str (the_sess r c)))]) (list_user_connections uid r)))])
       (e_order e (user_deque r)))"

lemma login_reply_calls: "login_reply cid uid un adm ok = calls (login_obj cid uid un adm ok)"
  by (simp add: login_reply_def login_obj_def split: option.splits)

lemma ok_reply_calls: "ok_reply op = calls (ok_obj op)"
  by (simp add: ok_reply_def ok_obj_def)

lemma err_reply_calls: "err_reply (uint code) m = calls (err_obj code m)"
  by (simp add: err_reply_def err_obj_def)

lemma deliver_envelope_calls:
  "length p < 2 ^ 32 \<Longrightarrow> pack_deliver_envelope p src dst su du = calls (deliver_obj p src dst su du)"
  by (simp add: pack_deliver_envelope_def deliver_obj_def)

lemma kick_notice_calls: "kick_notice reason = calls (kick_obj reason)"
  by (simp add: kick_notice_def kick_obj_def)

lemma control_reply_calls: "control_reply key (calls v) = calls (control_obj key v)"
  by (simp add: control_reply_def control_obj_def)

lemma ip_rows_calls: "ip_rows_array rows = calls (ip_rows_obj rows)"
  by (simp add: ip_rows_array_def ip_rows_obj_def o_def numeral_2_eq_2)

lemma user_rows_calls: "user_rows_array rows = calls (user_rows_obj rows)"
  by (simp add: user_rows_array_def user_rows_obj_def o_def numeral_3_eq_3)

lemma concat_map_filter: "concat (map (\<lambda>c. if \<not> P c then [] else f c) xs) = concat (map f (filter P xs))"
  by (induction xs) auto

lemma users_calls:
  assumes "distinct (e_order e (user_deque r))" and "set (e_order e (user_deque r)) = dom (user_deque r)"
  shows "users_array e r = calls (users_obj e r)"
proof -
  have "card (dom (user_deque r)) = length (e_order e (user_deque r))"
    using assms by (metis distinct_card)
  moreover have "(\<lambda>uid. let dq = (case user_deque r uid of Some dq \<Rightarrow> dq | None \<Rightarrow> []) in x dq uid) =
      (\<lambda>uid. x (case user_deque r uid of Some dq \<Rightarrow> dq | None \<Rightarrow> []) uid)" for x :: "u64 list \<Rightarrow> u64 \<Rightarrow> 'c"
    by (simp add: Let_def)
  moreover have "filter (is_open r) (case user_deque r uid of Some dq \<Rightarrow> dq | None \<Rightarrow> []) =
      list_user_connections uid r" for uid
    by (simp add: list_user_connections_def split: option.splits)
  ultimately show ?thesis
    by (simp add: users_array_def users_obj_def Let_def concat_map_filter o_def numeral_2_eq_2 numeral_3_eq_3)
qed

text \<open>Error codes are small positive numbers, so they are packed as such.\<close>

lemma errc_uint:
  "kProtocol = uint (1005 :: u64)" "kAuthFailed = uint (1002 :: u64)" "kIpNotAllowed = uint (1001 :: u64)"
  "kInvalidLoginBody = uint (1003 :: u64)"
  by (simp_all add: errc_defs)

subsection \<open>What a handler posts\<close>

text \<open>A task that is not a reply: a stop, a kick, or a DELIVER frame.\<close>

definition side_task :: "strand_task \<Rightarrow> bool" where
  "side_task t \<longleftrightarrow> (case t of PostSend w \<Rightarrow> \<exists>sq b. w = pack_wire kMsgDeliver sq b | _ \<Rightarrow> True)"

definition only_side :: "(u64 \<Rightarrow> strand_task list) \<Rightarrow> bool" where
  "only_side ts \<longleftrightarrow> (\<forall>c. list_all side_task (ts c))"

text \<open>
  \<open>answered from sq h h'\<close>: the heap \<open>h'\<close> is \<open>h\<close> after side tasks for any sessions and then one reply with
  sequence number \<open>sq\<close> to \<open>from\<close>.
\<close>

definition answered :: "u64 \<Rightarrow> u32 \<Rightarrow> (u64 \<rightharpoonup> tcp_session) \<Rightarrow> (u64 \<rightharpoonup> tcp_session) \<Rightarrow> bool" where
  "answered from sq h h' \<longleftrightarrow>
     (\<exists>ts b. only_side ts \<and>
        h' = post_all (\<lambda>c. ts c @ (if c = from then [PostSend (pack_wire kMsgServerReply sq b)] else [])) h)"

lemma answered_send_reply:
  assumes "heap r0 = post_all ts h" and "only_side ts"
  shows "answered from sq h (heap (send_reply e from buf sq r0))"
  unfolding answered_def
  by (rule exI [of _ ts], rule exI [of _ "e_pack e buf"])
    (auto simp: send_reply_def send_frame_def heap_post assms post_all_twice fun_upd_def cong: if_cong
      simp del: heap_upd_sess intro!: arg_cong2 [where f = post_all])

lemma answered_plain [simp, intro!]:
  "answered from sq (heap r) (heap (send_reply e from buf sq r))"
  "answered from sq (heap r) (heap (send_err_reply e from sq code m r))"
  using answered_send_reply [of r "\<lambda>_. []" "heap r"] by (auto simp: send_err_reply_def only_side_def)

lemma answered_db [simp]:
  "heap r0 = heap r \<Longrightarrow> answered from sq (heap r) (heap (send_reply e from buf sq r0))"
  "heap r0 = heap r \<Longrightarrow> answered from sq (heap r) (heap (send_err_reply e from sq code m r0))"
  using answered_plain [where r = r0] by simp_all

lemma notify_each_posts: "\<exists>ts. only_side ts \<and> heap (notify_each e reason why cs r) = post_all ts (heap r)"
proof (induction cs arbitrary: r)
  case Nil
  show ?case by (rule exI [of _ "\<lambda>_. []"]) (simp add: only_side_def)
next
  case (Cons c cs)
  have "\<exists>t. side_task t \<and> heap (notify_and_close e c reason why r) = post_all ((\<lambda>_. [])(c := [t])) (heap r)"
    by (auto simp: notify_and_close_def stop_def kick_notify_and_close_def heap_post side_task_def Let_def
        simp del: heap_upd_sess intro: exI [of _ "PostStop why"] exI [of _ "PostKick _ why"])
  then obtain t where t: "side_task t" "heap (notify_and_close e c reason why r) = post_all ((\<lambda>_. [])(c := [t])) (heap r)"
    by blast
  from Cons.IH [of "notify_and_close e c reason why r"] obtain ts where
    ts: "only_side ts" "heap (notify_each e reason why (c # cs) r) = post_all ts (post_all ((\<lambda>_. [])(c := [t])) (heap r))"
    by (auto simp: t(2))
  with t(1) show ?case
    by (intro exI [of _ "\<lambda>d. ((\<lambda>_. [])(c := [t])) d @ ts d"]) (auto simp: post_all_twice only_side_def)
qed

lemma broadcast_loop_posts:
  "\<exists>ts. only_side ts \<and> heap (broadcast_loop e su sc du p sq n cs r) = post_all ts (heap r)"
proof (induction cs arbitrary: n r)
  case Nil
  show ?case by (rule exI [of _ "\<lambda>_. []"]) (simp add: only_side_def)
next
  case (Cons c cs)
  show ?case
  proof (cases "n \<ge> broadcast_max_recipients (session (r_cfg r))")
    case True
    then show ?thesis by (intro exI [of _ "\<lambda>_. []"]) (simp add: only_side_def)
  next
    case False
    let ?t = "PostSend (deliver_frame e su sc du p sq r c)"
    from Cons.IH [of "n + 1" "send_deliver e su sc du p sq c r"] obtain ts where
      "only_side ts" "heap (broadcast_loop e su sc du p sq (n + 1) cs (send_deliver e su sc du p sq c r)) =
         post_all ts (post_all ((\<lambda>_. [])(c := [?t])) (heap r))"
      by (auto simp: heap_send_deliver)
    with False show ?thesis
      by (intro exI [of _ "\<lambda>d. ((\<lambda>_. [])(c := [?t])) d @ ts d"])
        (auto simp: post_all_twice only_side_def side_task_def deliver_frame_def)
  qed
qed

lemma deliver_posts_side:
  "\<exists>ts. only_side ts \<and> heap (deliver_to_user_by_recv_mode e su sc du p sq r) = post_all ts (heap r)"
proof -
  obtain r1 u where en: "ensure_uid_for_username e du r = (r1, u)" by fastforce
  note h = ensure_uid_fields(1) [OF en]
  show ?thesis
  proof (cases u)
    case None
    with en h show ?thesis by (intro exI [of _ "\<lambda>_. []"]) (simp add: deliver_unknown only_side_def)
  next
    case (Some uid)
    let ?t = "\<lambda>c x. PostSend (deliver_frame e su sc du p sq x c)"
    have "\<exists>ts. only_side ts \<and> heap (send_deliver e su sc du p sq c (r1\<lparr>rr_next_index := x\<rparr>)) = post_all ts (heap r)" for c x
      using h by (intro exI [of _ "(\<lambda>_. [])(c := [?t c (r1\<lparr>rr_next_index := x\<rparr>)])"])
        (auto simp: heap_send_deliver only_side_def side_task_def deliver_frame_def)
    moreover have "\<exists>ts. only_side ts \<and> heap r1 = post_all ts (heap r)"
      using h by (intro exI [of _ "\<lambda>_. []"]) (simp add: only_side_def)
    ultimately show ?thesis using broadcast_loop_posts [of e su sc du p sq 0 _ r1] h
      by (simp add: deliver_unfold [OF en [unfolded Some]])
  qed
qed
lemma answered_after:
  assumes "\<exists>ts. only_side ts \<and> heap r1 = post_all ts (heap r)" and "heap r0 = heap r1"
  shows "answered from sq (heap r) (heap (send_reply e from buf sq r0))"
    and "answered from sq (heap r) (heap (send_err_reply e from sq code m r0))"
  using assms answered_send_reply [of r0 _ "heap r"] by (auto simp: send_err_reply_def)

lemma answered_data: "answered from (seq h) (heap r) (heap (handle_data e from h mp r))"
  by (auto simp: handle_data_def Let_def split: option.splits intro: answered_after [OF deliver_posts_side])

lemma rename_cached_heap [simp]: "heap (rename_cached uid old nu r) = heap r"
  by (simp add: rename_cached_def split: option.splits)

lemma answered_table_update:
  "answered from (seq h) (heap r) (heap (control_user_table_update e from h mp r))"
  by (auto simp: control_user_table_update_def Let_def split: option.splits prod.splits sum.splits)

lemma answered_table_delete:
  "answered from (seq h) (heap r) (heap (control_user_table_delete e from h mp r))"
proof -
  have k: "\<exists>ts. only_side ts \<and> heap (admin_kick_uid_sessions e uid x y (r\<lparr>r_db := db\<rparr>)) = post_all ts (heap r)"
    for uid x y db
    using notify_each_posts [where r = "r\<lparr>r_db := db\<rparr>"] by (simp add: admin_kick_uid_sessions_def Let_def)
  show ?thesis
  proof (cases "map_get_u64 mp ''id''")
    case None
    then show ?thesis by (simp add: control_user_table_delete_def)
  next
    case (Some uid)
    obtain db g where g: "admin_get_username_by_id (e_api e) uid (r_db r) = (db, g)" by fastforce
    show ?thesis
    proof (cases g)
      case (Inl err)
      with Some g show ?thesis by (simp add: control_user_table_delete_def)
    next
      case (Inr uname)
      let ?r1 = "admin_kick_uid_sessions e uid txt_account_deleted ''user_table_delete'' (r\<lparr>r_db := db\<rparr>)"
      obtain db' er where "admin_delete_user (e_api e) uid (r_db ?r1) = (db', er)" by fastforce
      with Some g Inr show ?thesis
        by (cases er) (simp_all add: control_user_table_delete_def Let_def answered_after [OF k])
    qed
  qed
qed

lemma answered_kick: "answered from (seq h) (heap r) (heap (control_kick_user e from h mp r))"
  by (cases "map_get_u64 mp ''target_user_id''")
    (simp_all add: control_kick_user_def Let_def answered_after [OF notify_each_posts])

lemma answered_lists:
  "answered from (seq h) (heap r) (heap (control_list_users e from h r))"
  "answered from (seq h) (heap r) (heap (control_allowlist_list e from h r))"
  "answered from (seq h) (heap r) (heap (control_user_table_list e from h r))"
  by (simp_all add: control_list_users_def control_allowlist_list_def control_user_table_list_def split: sum.split)

lemma answered_tables:
  "answered from (seq h) (heap r) (heap (control_allowlist_add e from h mp r))"
  "answered from (seq h) (heap r) (heap (control_allowlist_update e from h mp r))"
  "answered from (seq h) (heap r) (heap (control_allowlist_delete e from h mp r))"
  "answered from (seq h) (heap r) (heap (control_user_table_add e from h mp r))"
  by (simp_all add: control_allowlist_add_def control_allowlist_update_def control_allowlist_delete_def
      control_user_table_add_def Let_def split: option.split prod.split)

lemmas answered_actions = answered_lists answered_tables answered_kick answered_table_update answered_table_delete

lemma answered_control: "answered from (seq h) (heap r) (heap (handle_control e from h mp r))"
  by (simp add: handle_control_def Let_def answered_actions)

text \<open>
  C7. Every request is answered exactly once.  A frame of a logged-in session whose body is a msgpack map
  is answered by exactly one reply frame, to the sender, with the request's sequence number, posted
  after everything else the request causes; whatever else is posted, to any session, is a DELIVER
  frame, a kick or a stop.  This holds for every message type and CONTROL action, errors included.
\<close>

theorem every_request_answered_once:
  assumes "logged_in (the_sess r from)" and "e_unpack e body = Some (MMap mp)"
  shows "answered from (seq h) (heap (upd_sess from (touch_heartbeat (e_now e)) r))
    (heap (handle_client_frame e from h body r))"
  using assms by (simp add: handle_client_frame_def Let_def answered_data answered_control del: heap_upd_sess)

theorem every_request_answered_once_witness:
  "answered 1 9 (heap (upd_sess 1 (touch_heartbeat 0) (demo_relay kBroadcast)))
    (heap (handle_client_frame demo_env 1 (default_header\<lparr>msg_type := 77, seq := 9\<rparr>)
      (mp_pack (calls (MMap []))) (demo_relay kBroadcast)))"
  using every_request_answered_once [of "demo_relay kBroadcast" 1 demo_env "mp_pack (calls (MMap []))" "[]"
      "default_header\<lparr>msg_type := 77, seq := 9\<rparr>"]
    mp.unpack_pack [of "MMap []"]
  by (simp add: demo_env_def the_sess_def demo_heap del: heap_upd_sess calls.simps)

text \<open>
  The user list decodes to what the server knows.  Whatever order the hash map is iterated in
  (each user once), the reply to \<^verbatim>\<open>list_users\<close> is a well-formed msgpack map that decodes to one
  entry per user with at least one registered connection, each with the numbers and endpoints of
  exactly the user's open connections.
\<close>

lemma list_users_reply_decodes:
  assumes "distinct (e_order e (user_deque r))" and "set (e_order e (user_deque r)) = dom (user_deque r)"
    and "wf_obj (users_obj e r)"
  shows "mp_unpack (mp_pack (control_reply ''users'' (users_array e r))) =
    Some (MMap [(MStr ''ok'', MBool True), (MStr ''op'', MStr ''CONTROL''), (MStr ''users'', users_obj e r)])"
proof -
  have "wf_obj (control_obj ''users'' (users_obj e r))" using assms(3) by (simp add: control_obj_def)
  then show ?thesis
    unfolding users_calls [OF assms(1,2)] control_reply_calls
    by (subst mp.unpack_pack) (simp_all add: control_obj_def)
qed

text \<open>
  The login reply decodes.  The body announces as many entries as it has, with and without the notice
  about the receive mode, and decodes to the connection, the user, the role and the effective mode.
\<close>

lemma login_reply_decodes:
  assumes "length un < 2 ^ 32" and "\<forall>n. recv_mode_notice ok = Some n \<longrightarrow> length n < 2 ^ 32"
  shows "mp_unpack (mp_pack (login_reply cid uid un adm ok)) =
    Some (MMap ([(MStr ''ok'', MBool True), (MStr ''op'', MStr ''LOGIN''), (MStr ''conn_id'', MPosInt cid),
            (MStr ''user_id'', MPosInt uid), (MStr ''username'', MStr un),
            (MStr ''peer_role'', MStr (if adm then ''admin'' else ''user'')),
            (MStr ''recv_mode'', MStr (if effective_mode ok = kBroadcast then ''broadcast'' else ''round_robin''))] @
           (case recv_mode_notice ok of Some n \<Rightarrow> [(MStr ''recv_mode_notice'', MStr n)] | None \<Rightarrow> [])))"
proof -
  have "wf_obj (login_obj cid uid un adm ok)"
    using assms by (simp add: login_obj_def recv_mode_cstr_def split: option.splits)
  then show ?thesis
    unfolding login_reply_calls by (subst mp.unpack_pack) (simp_all add: login_obj_def recv_mode_cstr_def)
qed

subsection \<open>Who may change what\<close>

lemma user_id_by_username_reads: "fst (user_id_by_username sql_api un st) = st"
proof (cases "conn st")
  case None
  then show ?thesis by (simp add: user_id_by_username_def)
next
  case (Some db)
  then show ?thesis by (simp add: sql.user_id_lookup)
qed

lemma ensure_uid_db: "e_api e = sql_api \<Longrightarrow> r_db (fst (ensure_uid_for_username e un r)) = r_db r"
  using user_id_by_username_reads [of un "r_db r"]
  by (auto simp: ensure_uid_for_username_def split: option.splits prod.splits)

lemma deliver_keeps:
  assumes "e_api e = sql_api"
  shows "r_db (deliver_to_user_by_recv_mode e su sc du p sq r) = r_db r"
    and "user_deque (deliver_to_user_by_recv_mode e su sc du p sq r) = user_deque r"
    and "user_recv_mode (deliver_to_user_by_recv_mode e su sc du p sq r) = user_recv_mode r"
    and "uid_to_username (deliver_to_user_by_recv_mode e su sc du p sq r) = uid_to_username r"
proof -
  obtain r1 u where en: "ensure_uid_for_username e du r = (r1, u)" by fastforce
  have "r_db r1 = r_db r" using ensure_uid_db [OF assms, of du r] en by simp
  note fields = this ensure_uid_fields [OF en]
  have "deliver_to_user_by_recv_mode e su sc du p sq r = r1 \<or>
      (\<exists>uid. deliver_to_user_by_recv_mode e su sc du p sq r = broadcast_loop e su sc du p sq 0 (list_user_connections uid r1) r1) \<or>
      (\<exists>c x. deliver_to_user_by_recv_mode e su sc du p sq r = send_deliver e su sc du p sq c (r1\<lparr>rr_next_index := x\<rparr>))"
    using en deliver_unknown [of e du r r1 su sc p sq] deliver_unfold [of e du r r1 _ su sc p sq]
    by (cases u) (simp, metis)
  with fields show "r_db (deliver_to_user_by_recv_mode e su sc du p sq r) = r_db r"
    "user_deque (deliver_to_user_by_recv_mode e su sc du p sq r) = user_deque r"
    "user_recv_mode (deliver_to_user_by_recv_mode e su sc du p sq r) = user_recv_mode r"
    "uid_to_username (deliver_to_user_by_recv_mode e su sc du p sq r) = uid_to_username r"
    by auto
qed

lemma send_reply_fields [simp, frame_simps]:
  "r_db (send_reply e c buf sq r) = r_db r" "user_deque (send_reply e c buf sq r) = user_deque r"
  "user_recv_mode (send_reply e c buf sq r) = user_recv_mode r" "name_to_uid (send_reply e c buf sq r) = name_to_uid r"
  "uid_to_username (send_reply e c buf sq r) = uid_to_username r" "readers (send_reply e c buf sq r) = readers r"
  "rr_next_index (send_reply e c buf sq r) = rr_next_index r" "r_cfg (send_reply e c buf sq r) = r_cfg r"
  "next_conn_id (send_reply e c buf sq r) = next_conn_id r" "all_sessions (send_reply e c buf sq r) = all_sessions r"
  "by_id (send_reply e c buf sq r) = by_id r"
  by (simp_all add: send_reply_def)

lemma send_err_reply_fields [simp, frame_simps]:
  "r_db (send_err_reply e c sq k m r) = r_db r" "user_deque (send_err_reply e c sq k m r) = user_deque r"
  "user_recv_mode (send_err_reply e c sq k m r) = user_recv_mode r" "name_to_uid (send_err_reply e c sq k m r) = name_to_uid r"
  "uid_to_username (send_err_reply e c sq k m r) = uid_to_username r" "readers (send_err_reply e c sq k m r) = readers r"
  "rr_next_index (send_err_reply e c sq k m r) = rr_next_index r" "r_cfg (send_err_reply e c sq k m r) = r_cfg r"
  "next_conn_id (send_err_reply e c sq k m r) = next_conn_id r" "all_sessions (send_err_reply e c sq k m r) = all_sessions r"
  "by_id (send_err_reply e c sq k m r) = by_id r"
  by (simp_all add: send_err_reply_def)

lemma frame_without_map:
  "\<lbrakk>logged_in (the_sess r from); \<nexists>mp. e_unpack e body = Some (MMap mp)\<rbrakk> \<Longrightarrow>
     \<exists>w. handle_client_frame e from h body r = upd_sess from (stop w) r"
  by (auto simp: handle_client_frame_def split: option.splits mobj.splits)

text \<open>
  C20. Users without administrator rights cannot touch the tables.  Over the reference database, no frame
  of a logged-in session that is not an administrator's changes the database, the registered
  connections, the receive modes or the user names of the server, whatever the frame contains.
\<close>

theorem non_admin_cannot_change_tables:
  assumes "e_api e = sql_api" and "logged_in (the_sess r from)" and "\<not> is_admin (the_sess r from)"
  shows "let r' = handle_client_frame e from h body r in
    r_db r' = r_db r \<and> user_deque r' = user_deque r \<and> user_recv_mode r' = user_recv_mode r \<and>
    uid_to_username r' = uid_to_username r"
proof -
  have na: "\<not> is_admin (the_sess (upd_sess from (touch_heartbeat (e_now e)) r) from)"
    using assms(3) by (simp add: the_sess_def touch_heartbeat_def split: option.splits)
  have "r_db r' = r_db r \<and> user_deque r' = user_deque r \<and> user_recv_mode r' = user_recv_mode r \<and>
      uid_to_username r' = uid_to_username r"
    if "r' = handle_data e from h mp (upd_sess from (touch_heartbeat (e_now e)) r)" for r' mp
    unfolding that using assms(1) by (simp add: handle_data_def Let_def deliver_keeps split: option.splits)
  note data = this [OF refl]
  show ?thesis
  proof (cases "\<exists>mp. e_unpack e body = Some (MMap mp)")
    case True
    then obtain mp where "e_unpack e body = Some (MMap mp)" by blast
    with assms(2) na data [of mp] show ?thesis
      by (simp add: handle_client_frame_def handle_control_def Let_def)
  next
    case False
    with assms(2) obtain w where "handle_client_frame e from h body r = upd_sess from (stop w) r"
      using frame_without_map by blast
    then show ?thesis by simp
  qed
qed

theorem non_admin_cannot_change_tables_witness:
  "r_db (handle_client_frame demo_env 1 (default_header\<lparr>msg_type := kClientControl\<rparr>) ''x'' (demo_relay kBroadcast)) =
     r_db (demo_relay kBroadcast)"
  using non_admin_cannot_change_tables [of demo_env "demo_relay kBroadcast" 1
      "default_header\<lparr>msg_type := kClientControl\<rparr>" "''x''"]
  by (simp add: demo_env_def the_sess_def demo_heap new_session_def Let_def)

subsection \<open>What a login proves\<close>

text \<open>
  What a user who has logged in showed: either the account of the name already had the password, the role and the
  identifier of the login, and the tables are untouched, or there was no such account and the tables are the old
  ones with exactly that account added, under the identifier the table gave out.
\<close>

definition logged_in_by :: "sql_db \<Rightarrow> sql_db \<Rightarrow> string \<Rightarrow> string \<Rightarrow> u64 \<Rightarrow> bool \<Rightarrow> bool" where
  "logged_in_by db db' un pw uid adm \<longleftrightarrow>
     sql_accounts db (take 511 un) = Some (uid, pw, adm) \<and> db' = db \<or>
     sql_accounts db un = None \<and> length un \<le> 255 \<and> uid = word_of_nat (t_users_next db) \<and>
     db' = db\<lparr>t_users := t_users db @ [\<lparr>su_id = uid, su_name = un, su_pw = take 4095 pw, su_admin = adm\<rparr>],
              t_users_next := t_users_next db + 1\<rparr>"

lemma sql_login_success:
  assumes "conn st = Some db" and "\<forall>x \<in> set (t_users db). length (su_pw x) \<le> 4096"
    and "authenticate_or_register sql_api un pw w st = (st', Inr ui)"
  shows "ui_admin ui = w \<and> (\<exists>db'. conn st' = Some db' \<and> logged_in_by db db' un pw (ui_id ui) w)"
proof (cases "sql_accounts db (take 511 un)")
  case None
  from login_registers [OF assms(1) None assms(3)] None authenticate_admin [OF assms(3)] show ?thesis
    by (auto simp: logged_in_by_def)
next
  case (Some a)
  then obtain x where "x \<in> set (t_users db)" "a = (su_id x, su_pw x, su_admin x)"
    by (auto simp: sql_accounts_def dest!: map_of_SomeD)
  with assms(2) have "length (fst (snd a)) \<le> 4096" by simp
  with sql.login_known [OF assms(1) Some] assms(3) have "login_result a pw w = Inr ui" "st' = st" by simp_all
  with Some assms(1) show ?thesis by (cases a) (auto simp: login_result_def logged_in_by_def split: if_splits)
qed

lemma try_authenticate_failed: "try_authenticate e self mp r = (r', Inl x) \<Longrightarrow> heap r' = heap r"
  by (auto simp: try_authenticate_def Let_def split: if_splits option.splits prod.splits sum.splits bool.splits)

text \<open>The successful path of \<open>try_authenticate\<close>, step by step.\<close>

lemma try_authenticate_ok:
  assumes "try_authenticate e self mp r = (r', Inr ok)"
  obtains un pw pr mode db1 db2 ui r1 victims where
    "map_get_str mp ''username'' = Some un" "un \<noteq> []" "map_get_str mp ''password'' = Some pw"
    "map_get_str mp ''peer_role'' = Some pr" "pr = ''admin'' \<or> pr = ''user''"
    "ip_whitelisted (e_api e) (client_ip (the_sess r self)) (r_db r) = (db1, True)"
    "authenticate_or_register (e_api e) un pw (pr = ''admin'') db1 = (db2, Inr ui)"
    "register_login e self (ui_id ui) (ui_admin ui) un mode (r\<lparr>r_db := db2\<rparr>) = (r1, victims, ok)"
    "r' = notify_each e txt_conn_limit ''max_connections_per_user'' (filter (\<lambda>v. v \<noteq> self) victims) r1"
  using assms
  by (auto simp: try_authenticate_def Let_def split: if_splits option.splits prod.splits sum.splits bool.splits)

lemma heap_register_login:
  assumes "register_login e self uid adm un mode r = (r1, victims, ok)"
  shows "heap r1 = (heap r)(self := map_option (mark_login (e_now e) uid adm un) (heap r self))"
  using assms by (auto simp: register_login_def choose_mode_def Let_def split: prod.splits if_splits)

lemma db_register_login: "register_login e self uid adm un mode r = (r1, victims, ok) \<Longrightarrow> r_db r1 = r_db r"
  by (auto simp: register_login_def choose_mode_def Let_def split: prod.splits if_splits)

lemma notify_each_tables:
  "r_db (notify_each e x y vs r) = r_db r" "user_deque (notify_each e x y vs r) = user_deque r" "r_cfg (notify_each e x y vs r) = r_cfg r"
  "readers (notify_each e x y vs r) = readers r" "user_recv_mode (notify_each e x y vs r) = user_recv_mode r"
  "next_conn_id (notify_each e x y vs r) = next_conn_id r"
  by (induction vs arbitrary: r) (simp_all add: notify_and_close_def Let_def)

lemma login_marks_session:
  assumes "try_authenticate e self mp r = (r', Inr ok)" and "self \<in> dom (heap r)"
    and "e_api e = sql_api" and "conn (r_db r) = Some db" and "\<forall>x \<in> set (t_users db). length (su_pw x) \<le> 4096"
  shows "\<exists>un pw. map_get_str mp ''username'' = Some un \<and> map_get_str mp ''password'' = Some pw \<and>
    take 255 (client_ip (the_sess r self)) \<in> sql_allowed db \<and>
    (let s = the_sess r' self in
     logged_in s \<and> username s = un \<and> is_admin s = (map_get_str mp ''peer_role'' = Some ''admin'') \<and>
     (\<exists>db'. conn (r_db r') = Some db' \<and> logged_in_by db db' un pw (user_id s) (is_admin s)))"
proof -
  from assms(1) obtain un pw pr mode db1 db2 ui r1 victims where *:
    "map_get_str mp ''username'' = Some un" "map_get_str mp ''password'' = Some pw"
    "map_get_str mp ''peer_role'' = Some pr"
    "ip_whitelisted (e_api e) (client_ip (the_sess r self)) (r_db r) = (db1, True)"
    "authenticate_or_register (e_api e) un pw (pr = ''admin'') db1 = (db2, Inr ui)"
    "register_login e self (ui_id ui) (ui_admin ui) un mode (r\<lparr>r_db := db2\<rparr>) = (r1, victims, ok)"
    "r' = notify_each e txt_conn_limit ''max_connections_per_user'' (filter (\<lambda>v. v \<noteq> self) victims) r1"
    by (rule try_authenticate_ok)
  have ip: "db1 = r_db r" "take 255 (client_ip (the_sess r self)) \<in> sql_allowed db"
    using *(4) sql.ip_lookup [OF assms(4)] by (simp_all add: assms(3))
  have ui: "ui_admin ui = (pr = ''admin'')"
    "\<exists>db'. conn db2 = Some db' \<and> logged_in_by db db' un pw (ui_id ui) (ui_admin ui)"
    using sql_login_success [OF assms(4,5)] *(5) ip(1) by (auto simp: assms(3))
  have db: "r_db r' = db2" using *(6,7) by (simp add: notify_each_tables db_register_login)
  obtain ts where ts: "heap r' = post_all ts (heap r1)" using notify_each_posts *(7) by blast
  have self: "self \<in> dom (heap r1)" using assms(2) heap_register_login [OF *(6)] by auto
  have "the_sess r1 self = mark_login (e_now e) (ui_id ui) (ui_admin ui) un (the_sess r self)"
    using assms(2) by (auto simp: the_sess_def heap_register_login [OF *(6)])
  with the_sess_post_all [OF ts self] * ip(2) ui db show ?thesis
    by (simp add: mark_login_def touch_heartbeat_def Let_def)
qed

lemma send_keeps_session:
  assumes "heap r0 = heap r"
  shows "logged_in (the_sess (send_reply e c buf sq r0) d) = logged_in (the_sess r d)"
    "logged_in (the_sess (send_err_reply e c sq k m r0) d) = logged_in (the_sess r d)"
    "logged_in (the_sess (upd_sess c (stop w) r0) d) = logged_in (the_sess r d)"
    "user_id (the_sess (send_reply e c buf sq r0) d) = user_id (the_sess r d)"
    "is_admin (the_sess (send_reply e c buf sq r0) d) = is_admin (the_sess r d)"
    "username (the_sess (send_reply e c buf sq r0) d) = username (the_sess r d)"
  using assms by (auto simp: the_sess_def send_err_reply_def send_reply_def send_frame_def stop_def post_def
      split: option.splits)

lemma the_sess_push_event [simp]: "the_sess (push_event e lv m r) = the_sess r"
  by (simp add: the_sess_def fun_eq_iff)

text \<open>
  C4. No login without credentials.  Over the reference database, a session that becomes logged in by a
  frame sent a LOGIN frame with a map body whose user name and password it names, from an
  allowlisted address, and the account of that name had exactly that password, the role the session
  now has and the identifier the session now carries, and the database is unchanged; or there was no account of
  that name and the handler added exactly one, with that name, the password (its first 4095 bytes), the role and
  the identifier the session now has, which is the one the table had to give out next.
\<close>

theorem login_needs_credentials:
  assumes "e_api e = sql_api" and "conn (r_db r) = Some db" and "\<forall>x \<in> set (t_users db). length (su_pw x) \<le> 4096"
    and "heap r c = Some s" and "\<not> logged_in s"
    and "heap (handle_client_frame e c h body r) c = Some s'" and "logged_in s'"
  shows "\<exists>mp un pw db'. msg_type h = kClientLogin \<and> e_unpack e body = Some (MMap mp) \<and>
    map_get_str mp ''username'' = Some un \<and> map_get_str mp ''password'' = Some pw \<and>
    take 255 (client_ip s) \<in> sql_allowed db \<and> username s' = un \<and>
    is_admin s' = (map_get_str mp ''peer_role'' = Some ''admin'') \<and>
    conn (r_db (handle_client_frame e c h body r)) = Some db' \<and>
    (sql_accounts db (take 511 un) = Some (user_id s', pw, is_admin s') \<and> db' = db \<or>
     sql_accounts db un = None \<and> length un \<le> 255 \<and> user_id s' = word_of_nat (t_users_next db) \<and>
     db' = db\<lparr>t_users := t_users db @
                [\<lparr>su_id = user_id s', su_name = un, su_pw = take 4095 pw, su_admin = is_admin s'\<rparr>],
              t_users_next := t_users_next db + 1\<rparr>)"
proof -
  let ?r' = "handle_client_frame e c h body r"
  have hl: "?r' = handle_login e c h body r" using assms(4,5) by (simp add: handle_client_frame_def)
  have s': "s' = the_sess ?r' c" using assms(6) by simp
  have nostop: "\<not> logged_in (the_sess (upd_sess c (stop w) r) c)" for w
    using assms(4,5) by (simp add: stop_def post_def)
  have "\<exists>mp. msg_type h = kClientLogin \<and> e_unpack e body = Some (MMap mp)"
  proof (rule ccontr)
    assume "\<nexists>mp. msg_type h = kClientLogin \<and> e_unpack e body = Some (MMap mp)"
    then have "\<exists>w. ?r' = upd_sess c (stop w) r"
      unfolding hl handle_login_def by (cases "e_unpack e body") (auto split: mobj.split)
    with s' assms(7) nostop show False by metis
  qed
  then obtain mp where mp: "msg_type h = kClientLogin" "e_unpack e body = Some (MMap mp)" by blast
  obtain r1 x where t: "try_authenticate e c mp r = (r1, x)" by fastforce
  show ?thesis
  proof (cases x)
    case (Inl err)
    with t have "\<not> logged_in (the_sess ?r' c)"
      using assms(4,5) mp try_authenticate_failed [of e c mp r r1 err]
      by (cases err) (simp add: hl handle_login_def send_keeps_session [where r = r])
    with s' assms(7) show ?thesis by simp
  next
    case (Inr ok)
    have "c \<in> dom (heap r)" using assms(4) by auto
    from login_marks_session [OF t [unfolded Inr] this assms(1-3)] mp t Inr assms(4) s' show ?thesis
      unfolding logged_in_by_def [symmetric]
      by (auto simp: hl handle_login_def send_keeps_session [OF refl] Let_def)
  qed
qed

definition login_body :: mmap where
  "login_body = [(MStr ''username'', MStr ''bob''), (MStr ''password'', MStr ''b''),
     (MStr ''peer_role'', MStr ''user''), (MStr ''recv_mode'', MStr ''broadcast'')]"

definition login_relay :: "sql_db relay" where
  "login_relay = (new_relay shipped_config 0)\<lparr>heap := [1 \<mapsto> new_session 1 (Some (''10.0.0.1'', 5000))],
     r_db := \<lparr>conn = Some two_users, cfg = mysql default_config\<rparr>\<rparr>"

definition login_header :: Header where
  "login_header = default_header\<lparr>msg_type := kClientLogin, seq := 1\<rparr>"

lemma login_parts:
  assumes "conn st = Some two_users"
  shows "ip_whitelisted sql_api ''10.0.0.1'' st = (st, True)"
    and "authenticate_or_register sql_api ''bob'' ''b'' False st = (st, Inr \<lparr>ui_id = 2, ui_admin = False\<rparr>)"
proof -
  show "ip_whitelisted sql_api ''10.0.0.1'' st = (st, True)"
    by (simp add: sql.ip_lookup [OF assms]) (simp add: sql_allowed_def two_users_def)
  show "authenticate_or_register sql_api ''bob'' ''b'' False st = (st, Inr \<lparr>ui_id = 2, ui_admin = False\<rparr>)"
    using sql.login_known [OF assms, of "''bob''" "(2, ''b'', False)" "''b''" False]
    by (simp add: sql_accounts_def two_users_def login_result_def)
qed

lemma login_try:
  assumes "conn (r_db r) = Some two_users" and "client_ip (the_sess r 1) = ''10.0.0.1''" and "e_api e = sql_api"
  shows "try_authenticate e 1 login_body r =
    (let (r, victims, ok) = register_login e 1 2 False ''bob'' kBroadcast r
     in (notify_each e txt_conn_limit ''max_connections_per_user'' (filter (\<lambda>v. v \<noteq> 1) victims) r, Inr ok))"
  using login_parts [OF assms(1)] assms(2,3)
  by (simp add: try_authenticate_def login_body_def parse_recv_mode_str_def Let_def split: prod.split)

lemma login_succeeds:
  "\<exists>s'. heap (handle_client_frame demo_env 1 login_header (mp_pack (calls (MMap login_body))) login_relay) 1 = Some s' \<and>
     logged_in s'"
proof -
  have "client_ip (the_sess login_relay 1) = ''10.0.0.1''" "conn (r_db login_relay) = Some two_users"
    by (simp_all add: login_relay_def the_sess_def client_ip_def remote_endpoint_def new_session_def)
  moreover have "e_api demo_env = sql_api" by (simp add: demo_env_def)
  moreover obtain r1 victims ok where "register_login demo_env 1 2 False ''bob'' kBroadcast login_relay = (r1, victims, ok)"
    by (rule prod_cases3)
  ultimately obtain r' where t: "try_authenticate demo_env 1 login_body login_relay = (r', Inr ok)"
    by (simp add: login_try)
  have h1: "1 \<in> dom (heap login_relay)" by (simp add: login_relay_def)
  have "logged_in (the_sess r' 1)"
    using login_marks_session [OF t h1, of two_users] by (auto simp: demo_env_def login_relay_def two_users_def Let_def)
  then have l: "\<exists>s. heap r' 1 = Some s \<and> logged_in s"
    by (auto simp: the_sess_def new_session_def split: option.splits)
  have "\<not> logged_in (the_sess login_relay 1)" by (simp add: login_relay_def the_sess_def new_session_def)
  moreover have "mp_unpack (mp_pack (calls (MMap login_body))) = Some (MMap login_body)"
    by (rule mp.unpack_pack) (simp add: login_body_def)
  ultimately show ?thesis using l t
    by (auto simp: handle_client_frame_def handle_login_def login_header_def demo_env_def Let_def send_reply_def
        send_frame_def post_def)
qed

theorem login_needs_credentials_witness:
  "\<exists>s'. heap (handle_client_frame demo_env 1 login_header (mp_pack (calls (MMap login_body))) login_relay) 1 = Some s' \<and>
     username s' = ''bob'' \<and> user_id s' = 2 \<and> \<not> is_admin s' \<and>
     conn (r_db (handle_client_frame demo_env 1 login_header (mp_pack (calls (MMap login_body))) login_relay)) = Some two_users"
proof -
  let ?r' = "handle_client_frame demo_env 1 login_header (mp_pack (calls (MMap login_body))) login_relay"
  obtain s' where s': "heap ?r' 1 = Some s'" "logged_in s'" using login_succeeds by blast
  have "mp_unpack (mp_pack (calls (MMap login_body))) = Some (MMap login_body)"
    by (rule mp.unpack_pack) (simp add: login_body_def)
  moreover have "e_api demo_env = sql_api" "e_unpack demo_env = mp_unpack" by (simp_all add: demo_env_def)
  moreover have "map_get_str login_body ''username'' = Some ''bob''" "map_get_str login_body ''password'' = Some ''b''"
    "map_get_str login_body ''peer_role'' = Some ''user''" by (simp_all add: login_body_def)
  moreover have "sql_accounts two_users ''bob'' = Some (2, ''b'', False)"
    "\<forall>x \<in> set (t_users two_users). length (su_pw x) \<le> 4096"
    by (simp_all add: sql_accounts_def two_users_def)
  moreover have "conn (r_db login_relay) = Some two_users"
    "heap login_relay 1 = Some (new_session 1 (Some (''10.0.0.1'', 5000)))" by (simp_all add: login_relay_def)
  moreover have "\<not> logged_in (new_session 1 (Some (''10.0.0.1'', 5000)))" by (simp add: new_session_def)
  ultimately show ?thesis
    using login_needs_credentials [OF _ _ _ _ _ s', of two_users "new_session 1 (Some (''10.0.0.1'', 5000))"] s'(1) by auto
qed

end
