(* ===== verification/Relay_Server.thy ===== *)
theory Relay_Server
  imports Relay_Control
begin

text \<open>
  The server as a whole: \<^verbatim>\<open>start\<close>, the per-connection coroutine \<^verbatim>\<open>TcpSession::read_loop\<close>, and a transition
  system whose events are what the outside world can do: a connection is accepted, a reader gets
  the bytes of a frame or an error, a posted handler runs, a write completes, a timer fires.

  \<open>relay_inv\<close> ties the registration tables to the sessions.  It holds in every reachable state
  (\<open>relay_inv_step\<close>).  Handlers that touch no registration table are \<open>calm\<close>; login and the end of a
  read loop are treated one by one.
\<close>

subsection \<open>Start and the read loop\<close>

text \<open>
  \<^verbatim>\<open>start\<close>: connect to the database and open the two acceptors (\<open>open_listen\<close> stands for the Boost.Asio calls
  of \<^verbatim>\<open>open_listen\<close>; \<open>Some\<close> is the message it throws).
\<close>

definition start :: "'db env \<Rightarrow> (Listen \<Rightarrow> string \<Rightarrow> string option) \<Rightarrow> 'db relay \<Rightarrow> 'db relay \<times> (string + unit)" where
  "start e open_listen r =
     (case connect (e_api e) (mysql (r_cfg r)) (r_db r) of
        (db, Inl err) \<Rightarrow> (r\<lparr>r_db := db\<rparr>, Inl err)
      | (db, Inr _) \<Rightarrow>
          (let r = r\<lparr>r_db := db\<rparr> in
           case open_listen (client_listen (r_cfg r)) ''client'' of
             Some err \<Rightarrow> (r, Inl err)
           | None \<Rightarrow>
               (case open_listen (a_listen (admin (r_cfg r))) ''admin'' of
                  Some err \<Rightarrow> (r, Inl err)
                | None \<Rightarrow> (push_event e kInfo ''relay server started'' r, Inr ()))))"

text \<open>
  What the two \<^verbatim>\<open>read_exact_with_timeout\<close> of one iteration give: \<open>None\<close> is an error, a timeout or a short
  read.  \<open>ri_time\<close> is the clock after the body.
\<close>

record read_input =
  ri_header :: "bytes option"
  ri_body :: "string option"
  ri_time :: int

text \<open>
  One iteration of the loop of \<^verbatim>\<open>read_loop\<close>; the flag says whether the loop goes on.  Here the iteration is one step with one
  reading of the clock, which serves the idle check before the read and the handler after it; \<open>read_loop_t\<close>
  is the same iteration with a reading of its own for every action.
\<close>

definition read_loop_step :: "'db env \<Rightarrow> u64 \<Rightarrow> read_input \<Rightarrow> 'db relay \<Rightarrow> 'db relay \<times> bool" where
  "read_loop_step e c inp r =
     (let idle = idle_ms (timeouts (r_cfg r)) in
      if stopped (the_sess r c) then (r, False)
      else if idle > 0 \<and> e_now e - the (readers r c) > idle then
        (notify_and_close e c txt_idle_timeout ''idle timeout'' r, False)
      else
        (case ri_header inp of
           None \<Rightarrow> (r, False)
         | Some hb \<Rightarrow>
             if length hb \<noteq> unat kHeaderLen then (r, False)
             else
               (let h = unpack_le hb in
                if magic h \<noteq> kMagic \<or> version h \<noteq> kVersion \<or> header_len h \<noteq> kHeaderLen then
                  (upd_sess c (stop ''invalid header'') r, False)
                else if body_len h > max_body_len (limits (r_cfg r)) then
                  (upd_sess c (stop ''body too large'') r, False)
                else
                  (case (if body_len h > 0 then ri_body inp else Some []) of
                     None \<Rightarrow> (r, False)
                   | Some body \<Rightarrow>
                       if length body \<noteq> unat (body_len h) then (r, False)
                       else
                         (let m = r_metrics r;
                              r = r\<lparr>readers := (readers r)(c \<mapsto> ri_time inp),
                                    r_metrics := m\<lparr>frames_in := frames_in m + 1,
                                      bytes_in := bytes_in m + word_of_nat (unat kHeaderLen + length body)\<rparr>\<rparr>;
                              r = handle_client_frame e c h body r
                          in (r, \<not> stopped (the_sess r c)))))))"

text \<open>The end of the coroutine, in one step; \<open>exit_t\<close> has the removal and the closing of the socket as two.\<close>

definition read_loop_exit :: "u64 \<Rightarrow> 'db relay \<Rightarrow> 'db relay" where
  "read_loop_exit c r =
     (let r = remove_session c r;
          r = upd_sess c (\<lambda>s. s\<lparr>sock_open := False\<rparr>) r
      in r\<lparr>readers := (readers r)(c := None)\<rparr>)"

definition read_loop :: "'db env \<Rightarrow> u64 \<Rightarrow> read_input \<Rightarrow> 'db relay \<Rightarrow> 'db relay" where
  "read_loop e c inp r =
     (case read_loop_step e c inp r of (r, True) \<Rightarrow> r | (r, False) \<Rightarrow> read_loop_exit c r)"

subsection \<open>The server as a transition system\<close>

datatype server_event =
    SAccept "string + (string \<times> u16) option"
  | SRead u64 read_input
  | SRun u64
  | SWrite u64 write_result
  | SHeartbeat
  | SMetrics

definition put_sess :: "u64 \<Rightarrow> Metrics \<times> tcp_session \<Rightarrow> 'db relay \<Rightarrow> 'db relay" where
  "put_sess c ms r = r\<lparr>heap := (heap r)(c \<mapsto> snd ms), r_metrics := fst ms\<rparr>"

text \<open>
  Every event carries the readings of the two clocks at which it is handled.  Connection numbers are
  assumed not to wrap around.
\<close>

inductive server_step :: "'db env \<Rightarrow> 'db relay \<Rightarrow> int \<times> u64 \<times> server_event \<Rightarrow> 'db relay \<Rightarrow> bool"
  for e :: "'db env" where
  server_accept: "next_conn_id r \<noteq> - 1 \<Longrightarrow>
    server_step e r (now, wall, SAccept res) (accept_clients (e\<lparr>e_now := now, e_wall := wall\<rparr>) res r)"
| server_read: "c \<in> dom (readers r) \<Longrightarrow>
    server_step e r (now, wall, SRead c inp) (read_loop (e\<lparr>e_now := now, e_wall := wall\<rparr>) c inp r)"
| server_run: "\<lbrakk>heap r c = Some s; strand s = t # ts\<rbrakk> \<Longrightarrow>
    server_step e r (now, wall, SRun c) (put_sess c (run_task (flow (r_cfg r)) t (r_metrics r, s\<lparr>strand := ts\<rparr>)) r)"
| server_write: "\<lbrakk>heap r c = Some s; in_flight s = Some b\<rbrakk> \<Longrightarrow>
    server_step e r (now, wall, SWrite c res) (put_sess c (on_write b res (r_metrics r, s)) r)"
| server_heartbeat:
    "server_step e r (now, wall, SHeartbeat) (check_heartbeats (e\<lparr>e_now := now, e_wall := wall\<rparr>) r)"
| server_metrics:
    "server_step e r (now, wall, SMetrics) (fst (snapshot_stats (e\<lparr>e_now := now, e_wall := wall\<rparr>) r))"

inductive_cases server_stepE: "server_step e r ev r'"

subsection \<open>The invariant\<close>

definition deque_ok :: "'db relay \<Rightarrow> u64 \<Rightarrow> u64 list \<Rightarrow> bool" where
  "deque_ok r uid q \<longleftrightarrow>
     q \<noteq> [] \<and> distinct q \<and> int (length q) \<le> max_connections_per_user (session (r_cfg r)) \<and>
     (\<forall>c \<in> set q. c \<in> dom (readers r) \<and> (\<exists>s. heap r c = Some s \<and> logged_in s \<and> user_id s = uid))"

definition events_ok :: "int \<Rightarrow> AdminEvent list \<Rightarrow> bool" where
  "events_ok m evs \<longleftrightarrow> length evs \<le> nat m \<and> (\<forall>ev \<in> set evs. \<exists>lv. ev_level ev = level_name lv)"

definition relay_inv :: "Config \<Rightarrow> 'db relay \<Rightarrow> bool" where
  "relay_inv cfg0 r \<longleftrightarrow>
     r_cfg r = cfg0 \<and>
     (\<forall>c s. heap r c = Some s \<longrightarrow> conn_id s = c \<and> c \<noteq> 0 \<and> c \<le> next_conn_id r \<and> session_inv (flow cfg0) s) \<and>
     (\<forall>uid q. user_deque r uid = Some q \<longrightarrow> deque_ok r uid q) \<and>
     dom (user_recv_mode r) = dom (user_deque r) \<and>
     dom (rr_next_index r) \<subseteq> dom (user_deque r) \<and>
     dom (readers r) \<subseteq> dom (heap r) \<and>
     dom (by_id r) = dom (readers r) \<and> (\<forall>c d. by_id r c = Some d \<longrightarrow> d = c) \<and>
     distinct (all_sessions r) \<and> set (all_sessions r) \<subseteq> dom (readers r) \<and>
     events_ok (events_max (admin cfg0)) (events r)"

text \<open>
  Most handlers change sessions only in ways that matter to nobody else (\<open>sess_sim\<close>) and leave the
  registration tables alone: they are calm.
\<close>

definition same_user :: "FlowControl \<Rightarrow> tcp_session \<Rightarrow> tcp_session \<Rightarrow> bool" where
  "same_user fl s s' \<longleftrightarrow>
     conn_id s' = conn_id s \<and> logged_in s' = logged_in s \<and> user_id s' = user_id s \<and>
     (session_inv fl s \<longrightarrow> session_inv fl s')"

definition sess_sim :: "FlowControl \<Rightarrow> (u64 \<rightharpoonup> tcp_session) \<Rightarrow> (u64 \<rightharpoonup> tcp_session) \<Rightarrow> bool" where
  "sess_sim fl h h' \<longleftrightarrow> (\<forall>c. rel_option (same_user fl) (h c) (h' c))"

definition calm :: "'db relay \<Rightarrow> 'db relay \<Rightarrow> bool" where
  "calm r r' \<longleftrightarrow>
     r_cfg r' = r_cfg r \<and> readers r' = readers r \<and> next_conn_id r' = next_conn_id r \<and>
     all_sessions r' = all_sessions r \<and> by_id r' = by_id r \<and> user_deque r' = user_deque r \<and>
     user_recv_mode r' = user_recv_mode r \<and>
     dom (rr_next_index r') \<subseteq> dom (rr_next_index r) \<union> dom (user_deque r) \<and>
     sess_sim (flow (r_cfg r)) (heap r) (heap r') \<and>
     (events_ok (events_max (admin (r_cfg r))) (events r) \<longrightarrow>
        events_ok (events_max (admin (r_cfg r))) (events r'))"

lemma same_user_refl [simp]: "same_user fl s s"
  by (simp add: same_user_def)

lemma transp_same_user: "transp (same_user fl)"
  by (rule transpI) (auto simp: same_user_def)

lemma sess_sim_refl [simp]: "sess_sim fl h h"
  by (simp add: sess_sim_def option.rel_refl)

lemma sess_sim_trans: "\<lbrakk>sess_sim fl h h'; sess_sim fl h' h''\<rbrakk> \<Longrightarrow> sess_sim fl h h''"
  unfolding sess_sim_def using transpD [OF option.rel_transp [OF transp_same_user]] by blast

lemma sess_sim_post_all [simp]: "sess_sim fl h (post_all ts h)"
  by (auto simp: sess_sim_def post_all_def same_user_def option.rel_map intro: option.rel_refl)

lemma sess_sim_upd:
  "(\<And>s. h c = Some s \<Longrightarrow> same_user fl s (f s)) \<Longrightarrow> sess_sim fl h (h(c := map_option f (h c)))"
  by (cases "h c") (auto simp: sess_sim_def intro: option.rel_refl)

lemma sess_sim_put:
  "\<lbrakk>h c = Some s; same_user fl s s'\<rbrakk> \<Longrightarrow> sess_sim fl h (h(c \<mapsto> s'))"
  by (auto simp: sess_sim_def intro: option.rel_refl)

lemma calm_refl [simp, intro!]: "calm r r"
  by (simp add: calm_def)

lemma calm_trans: "\<lbrakk>calm r r'; calm r' r''\<rbrakk> \<Longrightarrow> calm r r''"
  unfolding calm_def
  by (elim conjE, intro conjI) (simp | blast | (erule sess_sim_trans, simp))+

lemma calm_inv: "\<lbrakk>relay_inv cfg0 r; calm r r'\<rbrakk> \<Longrightarrow> relay_inv cfg0 r'"
proof -
  assume inv: "relay_inv cfg0 r" and calm: "calm r r'"
  then have sim: "sess_sim (flow cfg0) (heap r) (heap r')" by (simp add: calm_def relay_inv_def)
  have old: "\<exists>s. heap r c = Some s \<and> same_user (flow cfg0) s s'" if "heap r' c = Some s'" for c s'
    using sim that by (auto simp: sess_sim_def option_rel_Some2 dest: spec [of _ c])
  have new: "\<exists>s'. heap r' c = Some s' \<and> same_user (flow cfg0) s s'" if "heap r c = Some s" for c s
    using sim that by (auto simp: sess_sim_def option_rel_Some1 dest: spec [of _ c])
  have dq: "deque_ok r uid q \<Longrightarrow> deque_ok r' uid q" for uid q
    using calm new unfolding deque_ok_def calm_def same_user_def by metis
  have dom: "dom (heap r') = dom (heap r)" using old new by blast
  have sess: "conn_id s' = c \<and> c \<noteq> 0 \<and> c \<le> next_conn_id r \<and> session_inv (flow cfg0) s'"
    if "heap r' c = Some s'" for c s'
    using old [OF that] inv unfolding relay_inv_def same_user_def by metis
  show ?thesis
    using inv calm dq dom sess unfolding relay_inv_def calm_def
    by (elim conjE, intro conjI) (simp | blast)+
qed

subsection \<open>Calm operations\<close>

lemma calm_upd_sess:
  assumes "calm r r0" and "\<And>s. heap r0 c = Some s \<Longrightarrow> same_user (flow (r_cfg r0)) s (f s)"
  shows "calm r (upd_sess c f r0)"
proof -
  have "calm r0 (upd_sess c f r0)"
    using sess_sim_upd [of "heap r0" c "flow (r_cfg r0)" f] assms(2) by (simp add: calm_def)
  with assms(1) show ?thesis by (rule calm_trans)
qed

lemma same_user_post [simp]: "same_user fl s (post t s)"
  by (simp add: same_user_def) (simp add: post_def)

lemma same_user_touch [simp]: "same_user fl s (touch_heartbeat n s)"
  by (simp add: same_user_def touch_heartbeat_def session_inv_def queued_bytes_def)

lemma events_ok_trim:
  assumes "0 \<le> m" and "events_ok m evs" and "ev_level ev = level_name lv"
  shows "events_ok m (trim_events m (evs @ [ev]))"
proof -
  have "set (trim_events m (evs @ [ev])) \<subseteq> set (evs @ [ev])"
    unfolding trim_events_drop [OF assms(1)] by (rule set_drop_subset)
  with assms show ?thesis by (fastforce simp: events_ok_def trim_events_drop)
qed

lemma calm_push_event: "calm r r0 \<Longrightarrow> calm r (push_event e lv m r0)"
proof -
  assume "calm r r0"
  moreover have "calm r0 (push_event e lv m r0)"
    by (simp add: calm_def push_event_def Let_def events_ok_trim)
  ultimately show ?thesis by (rule calm_trans)
qed

lemma calm_db: "calm r r0 \<Longrightarrow> calm r (r0\<lparr>r_db := db\<rparr>)"
  by (erule calm_trans) (simp add: calm_def)

lemma calm_names: "calm r r0 \<Longrightarrow> calm r (r0\<lparr>name_to_uid := a, uid_to_username := b\<rparr>)"
  by (erule calm_trans) (simp add: calm_def)

lemma calm_rename: "calm r r0 \<Longrightarrow> calm r (rename_cached uid old nu r0)"
  by (simp add: rename_cached_def calm_names split: option.split)

lemma calm_send_reply: "calm r r0 \<Longrightarrow> calm r (send_reply e c buf sq r0)"
  by (simp add: send_reply_def send_frame_def calm_upd_sess)

lemma calm_send_err_reply: "calm r r0 \<Longrightarrow> calm r (send_err_reply e c sq k m r0)"
  by (simp add: send_err_reply_def calm_send_reply)

lemma calm_stop: "calm r r0 \<Longrightarrow> calm r (upd_sess c (stop w) r0)"
  by (simp add: stop_def calm_upd_sess)

lemma calm_notify_and_close: "calm r r0 \<Longrightarrow> calm r (notify_and_close e c x y r0)"
  by (simp add: notify_and_close_def kick_notify_and_close_def stop_def calm_upd_sess Let_def)

lemma calm_notify_each: "calm r r0 \<Longrightarrow> calm r (notify_each e x y cs r0)"
  by (induction cs arbitrary: r0) (simp_all add: calm_notify_and_close)

lemma calm_admin_kick: "calm r r0 \<Longrightarrow> calm r (admin_kick_uid_sessions e uid x y r0)"
  by (simp add: admin_kick_uid_sessions_def calm_notify_each Let_def)

lemma calm_check_each: "calm r r0 \<Longrightarrow> calm r (check_each e cs r0)"
  by (induction cs arbitrary: r0) (simp_all add: calm_notify_and_close calm_push_event)

lemma calm_send_deliver: "calm r r0 \<Longrightarrow> calm r (send_deliver e su sc du p sq c r0)"
  by (simp add: send_deliver_def send_frame_def calm_upd_sess Let_def)

lemma calm_broadcast: "calm r r0 \<Longrightarrow> calm r (broadcast_loop e su sc du p sq n cs r0)"
  by (induction cs arbitrary: n r0) (simp_all add: calm_send_deliver calm_push_event)

lemma calm_ensure_uid: "ensure_uid_for_username e un r = (r1, u) \<Longrightarrow> calm r r1"
  using ensure_uid_fields [of e un r r1 u] by (simp add: calm_def)

lemma calm_rr: "user_deque r uid \<noteq> None \<Longrightarrow> calm r (r\<lparr>rr_next_index := (rr_next_index r)(uid \<mapsto> k)\<rparr>)"
  by (auto simp: calm_def)

lemma calm_deliver:
  "calm r (deliver_to_user_by_recv_mode e su sc du p sq r)"
proof -
  obtain r1 u where en: "ensure_uid_for_username e du r = (r1, u)" by fastforce
  have "calm r1 (deliver_to_user_by_recv_mode e su sc du p sq r)"
  proof (cases u)
    case None
    with en show ?thesis by (simp add: deliver_unknown)
  next
    case (Some uid)
    have "list_user_connections uid r1 \<noteq> [] \<Longrightarrow> user_deque r1 uid \<noteq> None"
      by (simp add: list_user_connections_def split: option.splits)
    then show ?thesis
      by (simp add: deliver_unfold [OF en [unfolded Some]] calm_broadcast calm_send_deliver calm_rr)
  qed
  with calm_ensure_uid [OF en] show ?thesis by (rule calm_trans)
qed

lemmas calm_intros = calm_refl calm_push_event calm_db calm_names calm_rename calm_send_reply calm_send_err_reply
  calm_stop calm_notify_and_close calm_notify_each calm_admin_kick

lemma calm_data: "calm r (handle_data e c h mp r)"
  by (simp add: handle_data_def Let_def calm_intros calm_deliver split: option.split)

lemma calm_lists:
  "calm r (control_list_users e c h r)" "calm r (control_allowlist_list e c h r)"
  "calm r (control_user_table_list e c h r)"
  by (simp_all add: control_list_users_def control_allowlist_list_def control_user_table_list_def calm_intros
      split: sum.split)

lemma calm_tables:
  "calm r (control_allowlist_add e c h mp r)" "calm r (control_allowlist_update e c h mp r)"
  "calm r (control_allowlist_delete e c h mp r)" "calm r (control_user_table_add e c h mp r)"
  "calm r (control_kick_user e c h mp r)"
  by (simp_all add: control_allowlist_add_def control_allowlist_update_def control_allowlist_delete_def
      control_user_table_add_def control_kick_user_def Let_def calm_intros split: option.split prod.split)

lemma calm_table_update: "calm r (control_user_table_update e c h mp r)"
  by (simp add: control_user_table_update_def Let_def calm_intros split: option.split prod.split sum.split)

lemma calm_table_delete: "calm r (control_user_table_delete e c h mp r)"
  by (simp add: control_user_table_delete_def Let_def calm_intros split: option.split prod.split sum.split)

lemma calm_control: "calm r (handle_control e c h mp r)"
  by (simp add: handle_control_def Let_def calm_intros calm_lists calm_tables calm_table_update calm_table_delete)

lemma calm_frame:
  assumes "logged_in (the_sess r c)"
  shows "calm r (handle_client_frame e c h body r)"
proof (cases "\<exists>mp. e_unpack e body = Some (MMap mp)")
  case True
  then obtain mp where mp: "e_unpack e body = Some (MMap mp)" by blast
  let ?r = "upd_sess c (touch_heartbeat (e_now e)) r"
  have "calm r ?r" by (simp add: calm_upd_sess)
  moreover have "calm ?r (handle_client_frame e c h body r)"
    using assms mp by (simp add: handle_client_frame_def Let_def calm_intros calm_data calm_control)
  ultimately show ?thesis by (rule calm_trans)
next
  case False
  with assms obtain w where "handle_client_frame e c h body r = upd_sess c (stop w) r"
    using frame_without_map by blast
  then show ?thesis by (simp add: calm_stop)
qed

subsection \<open>Operations that register and unregister\<close>

lemma relay_invD:
  assumes "relay_inv cfg0 r"
  shows "r_cfg r = cfg0" "heap r c = Some s \<Longrightarrow> conn_id s = c \<and> c \<noteq> 0 \<and> c \<le> next_conn_id r \<and> session_inv (flow cfg0) s"
    "user_deque r uid = Some q \<Longrightarrow> deque_ok r uid q" "dom (user_recv_mode r) = dom (user_deque r)"
    "dom (rr_next_index r) \<subseteq> dom (user_deque r)" "dom (readers r) \<subseteq> dom (heap r)" "dom (by_id r) = dom (readers r)"
    "by_id r c = Some d \<Longrightarrow> d = c" "distinct (all_sessions r)" "set (all_sessions r) \<subseteq> dom (readers r)"
    "events_ok (events_max (admin cfg0)) (events r)"
  using assms by (simp_all add: relay_inv_def)

lemma deque_member:
  "\<lbrakk>relay_inv cfg0 r; user_deque r uid = Some q; c \<in> set q; heap r c = Some s\<rbrakk> \<Longrightarrow> logged_in s \<and> user_id s = uid"
  using relay_invD(3) [of cfg0 r uid q] by (fastforce simp: deque_ok_def)

lemma same_login_inv: "session_inv fl (mark_login n uid adm un s) = session_inv fl s"
  by (simp add: mark_login_def touch_heartbeat_def session_inv_def queued_bytes_def)

lemma register_login_result:
  assumes "register_login e c uid adm un mode r = (r1, victims, ok)"
  defines "q \<equiv> drop (length ((case user_deque r uid of Some dq \<Rightarrow> dq | None \<Rightarrow> []) @ [c]) -
      nat (max_connections_per_user (session (r_cfg r)))) ((case user_deque r uid of Some dq \<Rightarrow> dq | None \<Rightarrow> []) @ [c])"
  shows "user_deque r1 = (user_deque r)(uid \<mapsto> q)" "dom (user_recv_mode r1) = insert uid (dom (user_recv_mode r))"
    "rr_next_index r1 = rr_next_index r" "readers r1 = readers r" "by_id r1 = by_id r"
    "all_sessions r1 = all_sessions r" "events r1 = events r" "next_conn_id r1 = next_conn_id r" "r_cfg r1 = r_cfg r"
  using assms
  by (auto simp: register_login_def choose_mode_def trim_deque_eq Let_def split: prod.splits if_splits)

lemma inv_register_login:
  assumes inv: "relay_inv cfg0 r" and reg: "register_login e c uid adm un mode r = (r1, victims, ok)"
    and c: "c \<in> dom (readers r)" "heap r c = Some s" "\<not> logged_in s"
    and max1: "1 \<le> max_connections_per_user (session cfg0)"
  shows "relay_inv cfg0 r1"
proof -
  define old where "old = (case user_deque r uid of Some dq \<Rightarrow> dq | None \<Rightarrow> [])"
  define q where "q = drop (length (old @ [c]) - nat (max_connections_per_user (session cfg0))) (old @ [c])"
  note D = relay_invD [OF inv]
  note R = register_login_result [OF reg, folded old_def, unfolded D(1), folded q_def] heap_register_login [OF reg]
  have notin: "c \<notin> set p" if "user_deque r u = Some p" for u p
    using deque_member [OF inv that _ c(2)] c(3) by blast
  have old: "distinct old" "c \<notin> set old"
    "\<forall>d \<in> set old. d \<in> dom (readers r) \<and> (\<exists>s. heap r d = Some s \<and> logged_in s \<and> user_id s = uid)"
    using D(3) [of uid] notin [of uid] by (cases "user_deque r uid"; simp add: deque_ok_def old_def)+
  have sub: "set q \<subseteq> insert c (set old)" unfolding q_def using set_drop_subset by fastforce
  have mine: "heap r1 c = Some (mark_login (e_now e) uid adm un s)" using R(10) c(2) by simp
  have other: "heap r1 d = heap r d" if "d \<noteq> c" for d using R(10) that by simp
  have member: "d \<in> dom (readers r1) \<and> (\<exists>s. heap r1 d = Some s \<and> logged_in s \<and> user_id s = uid)" if "d \<in> set q" for d
  proof (cases "d = c")
    case True
    with mine c(1) R(4) show ?thesis by (simp add: mark_login_def touch_heartbeat_def)
  next
    case False
    with that sub have "d \<in> set old" by blast
    with old(3) other [OF False] R(4) show ?thesis by simp
  qed
  have "q \<noteq> []" "int (length q) \<le> max_connections_per_user (session cfg0)" "distinct q"
    using max1 old(1,2) unfolding q_def by (auto simp del: drop_append intro: distinct_drop)
  then have "deque_ok r1 uid q" unfolding deque_ok_def R(9) using member by simp
  moreover have "deque_ok r1 u p" if "user_deque r u = Some p" for u p
    using D(3) [OF that] notin [OF that] other unfolding deque_ok_def R(4,9) D(1) by metis
  ultimately have dq: "deque_ok r1 u p" if "user_deque r1 u = Some p" for u p
    using that R(1) by (auto split: if_splits)
  have sess: "conn_id t = d \<and> d \<noteq> 0 \<and> d \<le> next_conn_id r1 \<and> session_inv (flow cfg0) t" if "heap r1 d = Some t" for d t
  proof (cases "d = c")
    case True
    with that mine D(2) [OF c(2)] R(8) show ?thesis
      by (auto simp: same_login_inv) (simp add: mark_login_def touch_heartbeat_def)
  next
    case False
    with that D(2) [of d t] other [OF False] R(8) show ?thesis by simp
  qed
  have "dom (heap r1) = dom (heap r)" using R(10) c(2) by auto
  with D(4-11) R dq sess show ?thesis unfolding relay_inv_def
    by (intro conjI) (simp | blast | (simp, blast))+
qed

lemma login_path:
  "try_authenticate e c mp r = (r', Inr ok) \<Longrightarrow>
     \<exists>uid adm un mode db2 r1 victims. register_login e c uid adm un mode (r\<lparr>r_db := db2\<rparr>) = (r1, victims, ok) \<and>
       r' = notify_each e txt_conn_limit ''max_connections_per_user'' (filter (\<lambda>v. v \<noteq> c) victims) r1"
  by (erule try_authenticate_ok) (intro exI conjI, assumption+)

lemma calm_try_failed: "try_authenticate e c mp r = (r', Inl x) \<Longrightarrow> calm r r'"
  by (auto simp: try_authenticate_def Let_def intro: calm_db calm_refl
      split: if_splits option.splits prod.splits sum.splits bool.splits)

lemma inv_handle_login:
  assumes inv: "relay_inv cfg0 r" and c: "c \<in> dom (readers r)" "heap r c = Some s" "\<not> logged_in s"
    and max1: "1 \<le> max_connections_per_user (session cfg0)"
  shows "relay_inv cfg0 (handle_login e c h body r)"
proof (cases "msg_type h = kClientLogin \<and> (\<exists>mp. e_unpack e body = Some (MMap mp))")
  case False
  then have "calm r (handle_login e c h body r)"
    by (auto simp: handle_login_def intro: calm_stop split: option.splits mobj.splits)
  with inv show ?thesis by (rule calm_inv)
next
  case True
  then obtain mp where mp: "msg_type h = kClientLogin" "e_unpack e body = Some (MMap mp)" by blast
  obtain r1 x where t: "try_authenticate e c mp r = (r1, x)" by fastforce
  show ?thesis
  proof (cases x)
    case (Inl err)
    with t have "calm r r1" by (simp add: calm_try_failed)
    with t mp Inl have "calm r (handle_login e c h body r)"
      by (cases err) (simp add: handle_login_def calm_send_err_reply)
    with inv show ?thesis by (rule calm_inv)
  next
    case (Inr ok)
    obtain uid adm un mode db2 r2 victims where
      reg: "register_login e c uid adm un mode (r\<lparr>r_db := db2\<rparr>) = (r2, victims, ok)"
      and r1: "r1 = notify_each e txt_conn_limit ''max_connections_per_user'' (filter (\<lambda>v. v \<noteq> c) victims) r2"
      using login_path [OF t [unfolded Inr]] by blast
    have "relay_inv cfg0 (r\<lparr>r_db := db2\<rparr>)" by (rule calm_inv [OF inv calm_db [OF calm_refl]])
    then have "relay_inv cfg0 r2" using inv_register_login [OF _ reg _ _ c(3) max1] c(1,2) by simp
    moreover have "calm r2 (handle_login e c h body r)"
      using t mp Inr by (simp add: handle_login_def Let_def r1 calm_intros)
    ultimately show ?thesis by (rule calm_inv)
  qed
qed

lemma inv_frame:
  assumes inv: "relay_inv cfg0 r" and c: "c \<in> dom (readers r)"
    and max1: "1 \<le> max_connections_per_user (session cfg0)"
  shows "relay_inv cfg0 (handle_client_frame e c h body r)"
proof -
  from c relay_invD(6) [OF inv] obtain s where s: "heap r c = Some s" by blast
  show ?thesis
  proof (cases "logged_in s")
    case True
    with s show ?thesis by (intro calm_inv [OF inv] calm_frame) simp
  next
    case False
    with s inv_handle_login [OF inv c s False max1, of e h body] show ?thesis
      by (simp add: handle_client_frame_def)
  qed
qed

lemma readers_handle_login: "readers (handle_login e c h body r) = readers r"
proof (cases "msg_type h = kClientLogin \<and> (\<exists>mp. e_unpack e body = Some (MMap mp))")
  case False
  then show ?thesis by (auto simp: handle_login_def split: option.splits mobj.splits)
next
  case True
  then obtain mp where mp: "msg_type h = kClientLogin" "e_unpack e body = Some (MMap mp)" by blast
  obtain r1 x where t: "try_authenticate e c mp r = (r1, x)" by fastforce
  have "readers r1 = readers r"
  proof (cases x)
    case (Inl err)
    with t calm_try_failed [of e c mp r r1 err] show ?thesis by (simp add: calm_def)
  next
    case (Inr ok)
    obtain uid adm un mode db2 r2 victims where
      reg: "register_login e c uid adm un mode (r\<lparr>r_db := db2\<rparr>) = (r2, victims, ok)"
      and r1: "r1 = notify_each e txt_conn_limit ''max_connections_per_user'' (filter (\<lambda>v. v \<noteq> c) victims) r2"
      using login_path [OF t [unfolded Inr]] by blast
    have "calm r2 r1" unfolding r1 by (rule calm_notify_each [OF calm_refl])
    with register_login_result(4) [OF reg] show ?thesis by (simp add: calm_def)
  qed
  with t mp show ?thesis by (auto simp: handle_login_def Let_def split: sum.splits prod.splits)
qed

lemma readers_frame: "readers (handle_client_frame e c h body r) = readers r"
proof (cases "logged_in (the_sess r c)")
  case True
  then show ?thesis using calm_frame [OF True, of e h body] by (simp add: calm_def)
next
  case False
  then show ?thesis by (simp add: handle_client_frame_def readers_handle_login)
qed

lemma inv_reader_time:
  "\<lbrakk>relay_inv cfg0 r; c \<in> dom (readers r)\<rbrakk> \<Longrightarrow> relay_inv cfg0 (r\<lparr>readers := (readers r)(c \<mapsto> t), r_metrics := m\<rparr>)"
  by (auto simp: relay_inv_def deque_ok_def insert_absorb)

lemma read_loop_step_cases:
  "read_loop_step e c inp r = (r', b) \<Longrightarrow>
     calm r r' \<or>
     (\<exists>h body tm m. r' = handle_client_frame e c h body (r\<lparr>readers := (readers r)(c \<mapsto> tm), r_metrics := m\<rparr>))"
  by (auto simp: read_loop_step_def Let_def calm_stop calm_notify_and_close split: if_splits option.splits)

lemma inv_read_loop_step:
  assumes inv: "relay_inv cfg0 r" and c: "c \<in> dom (readers r)"
    and max1: "1 \<le> max_connections_per_user (session cfg0)"
    and step: "read_loop_step e c inp r = (r', b)"
  shows "relay_inv cfg0 r'" "c \<in> dom (readers r')"
proof -
  have "relay_inv cfg0 r' \<and> c \<in> dom (readers r')"
    using read_loop_step_cases [OF step]
  proof (elim disjE exE)
    assume "calm r r'"
    with calm_inv [OF inv this] c show ?thesis by (simp add: calm_def)
  next
    fix h body tm m
    assume r': "r' = handle_client_frame e c h body (r\<lparr>readers := (readers r)(c \<mapsto> tm), r_metrics := m\<rparr>)"
    have "relay_inv cfg0 r'"
      unfolding r' by (rule inv_frame [OF inv_reader_time [OF inv c] _ max1]) simp
    then show ?thesis unfolding r' by (simp add: readers_frame)
  qed
  then show "relay_inv cfg0 r'" "c \<in> dom (readers r')" by simp_all
qed

lemma remove_session_result:
  assumes "relay_inv cfg0 r" and "heap r c = Some s" and "c \<in> dom (readers r)"
  defines "r1 \<equiv> remove_session c r"
  shows "heap r1 = heap r" "readers r1 = readers r" "by_id r1 = (by_id r)(c := None)"
    "all_sessions r1 = remove1 c (all_sessions r)" "next_conn_id r1 = next_conn_id r" "r_cfg r1 = r_cfg r"
    "events r1 = events r" "dom (user_recv_mode r1) = dom (user_deque r1)" "dom (rr_next_index r1) \<subseteq> dom (user_deque r1)"
    "user_deque r1 u = Some q \<Longrightarrow> \<exists>p. user_deque r u = Some p \<and> q = remove1 c p \<and> q \<noteq> []"
proof -
  note D = relay_invD [OF assms(1)]
  have cid: "conn_id s = c" using D(2) [OF assms(2)] by simp
  have alone: "c \<notin> set p" if "user_deque r u = Some p" "\<not> logged_in s \<or> user_id s \<noteq> u" for u p
    using deque_member [OF assms(1) that(1) _ assms(2)] that(2) by blast
  have ne: "p \<noteq> []" if "user_deque r u = Some p" for u p using D(3) [OF that] by (simp add: deque_ok_def)
  show "heap r1 = heap r" "readers r1 = readers r" "by_id r1 = (by_id r)(c := None)"
    "all_sessions r1 = remove1 c (all_sessions r)" "next_conn_id r1 = next_conn_id r" "r_cfg r1 = r_cfg r"
    "events r1 = events r" "dom (user_recv_mode r1) = dom (user_deque r1)" "dom (rr_next_index r1) \<subseteq> dom (user_deque r1)"
    using assms(2) cid D(4,5) by (auto simp: r1_def remove_session_def Let_def split: option.splits)
  show "\<exists>p. user_deque r u = Some p \<and> q = remove1 c p \<and> q \<noteq> []" if "user_deque r1 u = Some q"
    using that assms(2) cid alone [of u] ne [of u]
    by (cases "u = user_id s") (auto simp: r1_def remove_session_def Let_def remove1_idem split: option.splits if_splits)
qed

lemma inv_unregister:
  assumes inv: "relay_inv cf r" and c: "c \<in> dom (readers r)"
  shows "relay_inv cf ((remove_session c r)\<lparr>readers := (readers r)(c := None)\<rparr>)" (is "relay_inv cf ?r")
proof -
  from c relay_invD(6) [OF inv] obtain s where s: "heap r c = Some s" by blast
  note D = relay_invD [OF inv] and R = remove_session_result [OF inv s c]
  have dq: "deque_ok ?r u q" if "user_deque ?r u = Some q" for u q
  proof -
    from R(10) [of u q] that obtain p where p: "user_deque r u = Some p" "q = remove1 c p" "q \<noteq> []" by auto
    from D(3) [OF p(1)] have "distinct p" "int (length p) \<le> max_connections_per_user (session (r_cfg r))"
      "\<forall>d \<in> set p. d \<in> dom (readers r) \<and> (\<exists>s. heap r d = Some s \<and> logged_in s \<and> user_id s = u)"
      by (simp_all add: deque_ok_def)
    moreover from this(1) p(2) have "set q = set p - {c}" "length q \<le> length p" "distinct q"
      by (simp_all add: length_remove1)
    ultimately show ?thesis using p(3) by (auto simp: deque_ok_def R)
  qed
  have "dom (by_id ?r) = dom (readers ?r)" "\<forall>x d. by_id ?r x = Some d \<longrightarrow> d = x" using D(7,8) by (auto simp: R)
  moreover have "distinct (all_sessions ?r)" "set (all_sessions ?r) \<subseteq> dom (readers ?r)" using D(9,10) by (auto simp: R)
  moreover have "dom (readers ?r) \<subseteq> dom (heap ?r)" using D(6) by (auto simp: R)
  moreover have "dom (user_recv_mode ?r) = dom (user_deque ?r)" "dom (rr_next_index ?r) \<subseteq> dom (user_deque ?r)"
    using R(8,9) by simp_all
  moreover have "conn_id t = d \<and> d \<noteq> 0 \<and> d \<le> next_conn_id r \<and> session_inv (flow cf) t" if "heap r d = Some t" for d t
    by (rule D(2) [OF that])
  ultimately show ?thesis using D(1,11) dq unfolding relay_inv_def by (simp add: R(1,5,6,7))
qed

lemma same_user_close: "same_user fl s (s\<lparr>sock_open := False\<rparr>)"
  by (simp add: same_user_def session_inv_def queued_bytes_def)

lemma inv_read_loop_exit:
  assumes inv: "relay_inv cfg0 r" and c: "c \<in> dom (readers r)"
  shows "relay_inv cfg0 (read_loop_exit c r)"
proof -
  from c relay_invD(6) [OF inv] obtain s where "heap r c = Some s" by blast
  from remove_session_result(2) [OF inv this c] have
    "read_loop_exit c r = upd_sess c (\<lambda>s. s\<lparr>sock_open := False\<rparr>) ((remove_session c r)\<lparr>readers := (readers r)(c := None)\<rparr>)"
    by (simp add: read_loop_exit_def upd_sess_def Let_def)
  with calm_inv [OF inv_unregister [OF inv c] calm_upd_sess [OF calm_refl same_user_close]] show ?thesis by simp
qed

lemma inv_read_loop:
  assumes "relay_inv cfg0 r" and "c \<in> dom (readers r)" and "1 \<le> max_connections_per_user (session cfg0)"
  shows "relay_inv cfg0 (read_loop e c inp r)"
proof -
  obtain r' b where s: "read_loop_step e c inp r = (r', b)" by fastforce
  show ?thesis
    using inv_read_loop_step [OF assms s] inv_read_loop_exit [of cfg0 r' c] by (simp add: read_loop_def s split: bool.split)
qed

lemma inv_accept:
  assumes inv: "relay_inv cfg0 r" and nowrap: "next_conn_id r \<noteq> - 1"
  shows "relay_inv cfg0 (accept_clients e res r)"
proof (cases res)
  case (Inl m)
  then show ?thesis by (simp add: accept_clients_def calm_inv [OF inv calm_push_event [OF calm_refl]])
next
  case (Inr ep)
  note D = relay_invD [OF inv]
  let ?i = "next_conn_id r + 1"
  let ?r = "r\<lparr>r_metrics := (r_metrics r)\<lparr>client_connects := client_connects (r_metrics r) + 1\<rparr>, next_conn_id := ?i,
      heap := (heap r)(?i \<mapsto> new_session ?i ep), by_id := (by_id r)(?i \<mapsto> ?i), all_sessions := all_sessions r @ [?i],
      readers := (readers r)(?i \<mapsto> e_now e)\<rparr>"
  have "?i \<noteq> 0" using nowrap by (simp add: eq_neg_iff_add_eq_0)
  moreover from this unatSuc [of "next_conn_id r"] have "next_conn_id r < ?i" by (simp add: word_less_nat_alt add.commute)
  ultimately have lt: "next_conn_id r < ?i" "?i \<noteq> 0" by blast+
  then have fresh: "heap r ?i = None" using D(2) [of ?i] by (cases "heap r ?i") auto
  have le: "d \<le> next_conn_id r \<Longrightarrow> d \<le> ?i" for d using lt(1) by (meson less_imp_le order_trans)
  have nr: "?i \<notin> dom (readers r)" using fresh D(6) by auto
  have dq: "deque_ok ?r u q" if "user_deque r u = Some q" for u q
    using D(3) [OF that] fresh unfolding deque_ok_def by (auto simp: domIff)
  have "relay_inv cfg0 ?r"
    unfolding relay_inv_def
    using D(1,2,4-11) dq lt(2) le nr session_inv_new [of "flow cfg0" ?i ep]
    by (intro conjI) (auto simp: new_session_def)
  moreover have "accept_clients e res r = push_event e kInfo (''client connected conn='' @ dec_digits (unat ?i)) ?r"
    by (simp add: accept_clients_def push_event_def Inr Let_def)
  ultimately show ?thesis using calm_inv [OF _ calm_push_event [OF calm_refl]] by metis
qed

lemma same_user_run_task: "same_user fl s (snd (run_task fl t (m, s\<lparr>strand := ts\<rparr>)))"
proof -
  have "session_inv fl s \<longrightarrow> session_inv fl (snd (run_task fl t (m, s\<lparr>strand := ts\<rparr>)))"
    using session_inv_run_task [of fl "s\<lparr>strand := ts\<rparr>" t m] by simp
  then show ?thesis unfolding same_user_def
    by (cases t) (simp_all add: run_kick_def run_stop_def run_send_def do_write_eq stop_def post_def Let_def)
qed

lemma same_user_on_write: "in_flight s = Some b \<Longrightarrow> same_user fl s (snd (on_write b res (m, s)))"
  using session_inv_on_write [of fl s b res m] unfolding same_user_def
  by (cases res) (simp_all add: do_write_eq stop_def post_def Let_def)

lemma calm_put_sess: "\<lbrakk>heap r c = Some s; same_user (flow (r_cfg r)) s (snd ms)\<rbrakk> \<Longrightarrow> calm r (put_sess c ms r)"
  by (simp add: calm_def put_sess_def sess_sim_put)

lemma inv_snapshot: "relay_inv cfg0 r \<Longrightarrow> relay_inv cfg0 (fst (snapshot_stats e r))"
  by (auto simp: relay_inv_def deque_ok_def snapshot_stats_def Let_def)

lemma relay_inv_step:
  assumes "server_step e r ev r'" and "relay_inv cfg0 r" and "1 \<le> max_connections_per_user (session cfg0)"
  shows "relay_inv cfg0 r'"
  using assms(1)
proof (cases rule: server_step.cases)
  case (server_run c s t ts now wall)
  then show ?thesis
    by (auto intro!: calm_inv [OF assms(2)] calm_put_sess same_user_run_task simp del: run_task.simps)
next
  case (server_write c s b now wall res)
  then show ?thesis
    by (auto intro!: calm_inv [OF assms(2)] calm_put_sess same_user_on_write simp del: on_write.simps)
next
  case (server_heartbeat now wall)
  then show ?thesis by (simp add: check_heartbeats_def calm_inv [OF assms(2) calm_check_each])
qed (use assms(2,3) in \<open>simp_all add: inv_accept inv_read_loop inv_snapshot\<close>)

lemma relay_inv_new: "relay_inv cfg0 (new_relay cfg0 wall)"
  by (simp add: relay_inv_def new_relay_def events_ok_def)

lemma start_ok:
  assumes "start e ol r = (r', Inr ())"
  shows "\<exists>db. r' = push_event e kInfo ''relay server started'' (r\<lparr>r_db := db\<rparr>)"
proof -
  obtain db x where c: "connect (e_api e) (mysql (r_cfg r)) (r_db r) = (db, x)" by fastforce
  have "r' = push_event e kInfo ''relay server started'' (r\<lparr>r_db := db\<rparr>)"
  proof (cases x)
    case (Inl err)
    with assms c show ?thesis by (simp add: start_def)
  next
    case (Inr u)
    with assms c show ?thesis
      by (cases "ol (client_listen (r_cfg r)) ''client''"; cases "ol (a_listen (admin (r_cfg r))) ''admin''")
        (simp_all add: start_def Let_def)
  qed
  then show ?thesis by blast
qed

lemma relay_inv_start: "\<lbrakk>start e ol r = (r', Inr ()); relay_inv cfg0 r\<rbrakk> \<Longrightarrow> relay_inv cfg0 r'"
  using start_ok [of e ol r r'] calm_inv [OF _ calm_push_event [OF calm_db [OF calm_refl]]] by blast

subsection \<open>Reachable states\<close>

lemma recipients_subset: "set (recipients r uid) \<subseteq> set (list_user_connections uid r)"
  by (auto simp: recipients_def Let_def dest: in_set_takeD)

interpretation srv: inductive_invariant "server_step e"
  "\<lambda>r. relay_inv cfg0 r \<and> 1 \<le> max_connections_per_user (session cfg0)" for e cfg0
  by unfold_locales (auto intro: relay_inv_step)

definition reachable :: "'db env \<Rightarrow> Config \<Rightarrow> 'db relay \<Rightarrow> bool" where
  "reachable e cfg0 r \<longleftrightarrow>
     (\<exists>ol wall r0 evs. start e ol (new_relay cfg0 wall) = (r0, Inr ()) \<and> runs (server_step e) r0 evs r)"

lemma reachable_inv:
  assumes "reachable e cfg0 r" and "1 \<le> max_connections_per_user (session cfg0)"
  shows "relay_inv cfg0 r"
proof -
  from assms(1) obtain ol wall r0 evs where
    s: "start e ol (new_relay cfg0 wall) = (r0, Inr ())" "runs (server_step e) r0 evs r"
    unfolding reachable_def by blast
  have "relay_inv cfg0 r0" by (rule relay_inv_start [OF s(1) relay_inv_new])
  with srv.inv_runs [OF s(2), of cfg0] assms(2) show ?thesis by simp
qed

subsubsection \<open>A concrete run\<close>

definition first_run :: "sql_db relay" where
  "first_run = accept_clients (demo_env\<lparr>e_now := 5, e_wall := 6\<rparr>) (Inr (Some (''10.0.0.1'', 5000)))
     (fst (start demo_env (\<lambda>_ _. None) (new_relay shipped_config 0)))"

lemma first_run_reachable: "reachable demo_env shipped_config first_run"
proof -
  let ?r0 = "fst (start demo_env (\<lambda>_ _. None) (new_relay shipped_config 0))"
  have s: "start demo_env (\<lambda>_ _. None) (new_relay shipped_config 0) = (?r0, Inr ())"
    by (simp add: start_def connect_def demo_env_def sql_api_def new_relay_def Let_def)
  have "next_conn_id ?r0 = 0" using start_ok [OF s] by (auto simp: new_relay_def)
  then have "server_step demo_env ?r0 (5, 6, SAccept (Inr (Some (''10.0.0.1'', 5000)))) first_run"
    unfolding first_run_def by (intro server_accept) simp
  from runs_cons [where step = "server_step demo_env", OF this runs_nil] s show ?thesis unfolding reachable_def by blast
qed

lemma shipped_limit [simp]: "max_connections_per_user (session shipped_config) = 8"
  by (simp add: shipped_config_def default_config_def default_session_policy_def)

lemma first_run_facts:
  "heap first_run 1 = Some (new_session 1 (Some (''10.0.0.1'', 5000)))" "readers first_run = [1 \<mapsto> 5]"
  "all_sessions first_run = [1]" "user_deque first_run = Map.empty"
  by (simp_all add: first_run_def accept_clients_def start_def connect_def demo_env_def sql_api_def new_relay_def Let_def)

definition login_frame :: string where
  "login_frame = mp_pack (calls (MMap login_body))"

definition login_input :: read_input where
  "login_input = \<lparr>ri_header = Some (pack_le (login_header\<lparr>body_len := word_of_nat (length login_frame)\<rparr>)),
     ri_body = Some login_frame, ri_time = 7\<rparr>"

definition second_run :: "sql_db relay" where
  "second_run = read_loop (demo_env\<lparr>e_now := 6, e_wall := 7\<rparr>) 1 login_input first_run"

lemma second_run_reachable: "reachable demo_env shipped_config second_run"
proof -
  from first_run_reachable obtain ol wall r0 evs where
    s: "start demo_env ol (new_relay shipped_config wall) = (r0, Inr ())" "runs (server_step demo_env) r0 evs first_run"
    unfolding reachable_def by blast
  have "server_step demo_env first_run (6, 7, SRead 1 login_input) second_run"
    unfolding second_run_def by (rule server_read) (simp add: first_run_facts)
  with s(2) have "runs (server_step demo_env) r0 (evs @ [(6, 7, SRead 1 login_input)]) second_run" by (rule runs_snoc)
  with s(1) show ?thesis unfolding reachable_def by blast
qed

lemma first_run_db: "conn (r_db first_run) = Some two_users"
  by (simp add: first_run_def accept_clients_def start_def connect_def demo_env_def sql_api_def new_relay_def Let_def)

lemma first_run_cfg: "r_cfg first_run = shipped_config"
  by (simp add: first_run_def accept_clients_def start_def connect_def demo_env_def sql_api_def new_relay_def Let_def)

lemma login_frame_unpack: "mp_unpack login_frame = Some (MMap login_body)"
  unfolding login_frame_def by (rule mp.unpack_pack) (simp add: login_body_def)

lemma login_frame_length: "length login_frame = 60"
  by (simp add: login_frame_def login_body_def mp_pack_def enc_len_def)

lemma first_run_session:
  "the_sess (first_run\<lparr>readers := a, r_metrics := b\<rparr>) 1 = new_session 1 (Some (''10.0.0.1'', 5000))"
  by (simp add: the_sess_def first_run_facts)

lemma second_run_frame:
  "\<exists>b. read_loop_step (demo_env\<lparr>e_now := 6, e_wall := 7\<rparr>) 1 login_input first_run =
     (let r = handle_login (demo_env\<lparr>e_now := 6, e_wall := 7\<rparr>) 1 (login_header\<lparr>body_len := 60\<rparr>) login_frame
          (first_run\<lparr>readers := [1 \<mapsto> 7], r_metrics := b\<rparr>) in (r, \<not> stopped (the_sess r 1)))"
  using first_run_session
  by (simp add: read_loop_step_def login_input_def login_frame_length first_run_facts first_run_cfg the_sess_def
      login_header_def default_header_def handle_client_frame_def header_consts Let_def)
    (simp add: new_session_def shipped_config_def default_config_def, intro exI conjI, rule refl, rule refl)

lemma first_run_next: "next_conn_id first_run = 1"
  by (simp add: first_run_def accept_clients_def start_def connect_def demo_env_def sql_api_def new_relay_def Let_def)

definition login_env :: "sql_db env" where
  "login_env = demo_env\<lparr>e_now := 6, e_wall := 7\<rparr>"

lemma login_env_simps [simp]: "e_api login_env = sql_api" "e_unpack login_env = mp_unpack" "e_now login_env = 6"
  by (simp_all add: login_env_def demo_env_def)

lemma first_run_register:
  "\<exists>r. register_login login_env 1 2 False ''bob'' kBroadcast (first_run\<lparr>readers := a, r_metrics := b\<rparr>) =
      (r, [], \<lparr>effective_mode = kBroadcast, recv_mode_notice = None\<rparr>) \<and>
    user_deque r = [2 \<mapsto> [1]] \<and> user_recv_mode r 2 = Some kBroadcast \<and> name_to_uid r ''bob'' = Some 2 \<and> readers r = a \<and>
    next_conn_id r = 1 \<and> r_db r = r_db first_run \<and>
    heap r 1 = Some (mark_login 6 2 False ''bob'' (new_session 1 (Some (''10.0.0.1'', 5000))))"
  by (simp add: register_login_def choose_mode_def first_run_facts first_run_next first_run_cfg trim_deque_eq Let_def)

lemma second_run_session:
  "user_deque second_run = [2 \<mapsto> [1]] \<and> name_to_uid second_run ''bob'' = Some 2 \<and> user_recv_mode second_run 2 = Some kBroadcast \<and>
   readers second_run = [1 \<mapsto> 7] \<and> next_conn_id second_run = 1 \<and> conn (r_db second_run) = Some two_users \<and>
   (\<exists>s. heap second_run 1 = Some s \<and> sock_open s \<and> logged_in s \<and> \<not> stopped s \<and> username s = ''bob'' \<and> queue s = [] \<and> sent s = [] \<and> \<not> kick_pending s \<and>
     strand s = [PostSend (pack_wire kMsgServerReply 1 (mp_pack (login_reply 1 2 ''bob'' False \<lparr>effective_mode = kBroadcast, recv_mode_notice = None\<rparr>)))])"
proof -
  obtain b where f: "read_loop_step login_env 1 login_input first_run =
     (let r = handle_login login_env 1 (login_header\<lparr>body_len := 60\<rparr>) login_frame
          (first_run\<lparr>readers := [1 \<mapsto> 7], r_metrics := b\<rparr>) in (r, \<not> stopped (the_sess r 1)))"
    using second_run_frame unfolding login_env_def by blast
  let ?r = "first_run\<lparr>readers := [1 \<mapsto> 7], r_metrics := b\<rparr>"
  obtain r where r: "register_login login_env 1 2 False ''bob'' kBroadcast ?r =
      (r, [], \<lparr>effective_mode = kBroadcast, recv_mode_notice = None\<rparr>)" "user_deque r = [2 \<mapsto> [1]]"
      "user_recv_mode r 2 = Some kBroadcast" "name_to_uid r ''bob'' = Some 2" "readers r = [1 \<mapsto> 7]" "next_conn_id r = 1" "r_db r = r_db first_run"
      "heap r 1 = Some (mark_login 6 2 False ''bob'' (new_session 1 (Some (''10.0.0.1'', 5000))))"
    using first_run_register by blast
  have "client_ip (the_sess ?r 1) = ''10.0.0.1''"
    by (simp add: first_run_session) (simp add: new_session_def client_ip_def remote_endpoint_def)
  then have "try_authenticate login_env 1 login_body ?r = (r, Inr \<lparr>effective_mode = kBroadcast, recv_mode_notice = None\<rparr>)"
    using login_try [of ?r login_env] first_run_db r(1) by simp
  moreover define w where "w = pack_wire kMsgServerReply 1 (mp_pack (login_reply 1 2 ''bob'' False \<lparr>effective_mode = kBroadcast, recv_mode_notice = None\<rparr>))"
  moreover have "the_sess r 1 = mark_login 6 2 False ''bob'' (new_session 1 (Some (''10.0.0.1'', 5000)))" using r(8) by (simp add: the_sess_def)
  ultimately obtain m where h: "handle_login login_env 1 (login_header\<lparr>body_len := 60\<rparr>) login_frame ?r =
      push_event login_env kInfo m (upd_sess 1 (post (PostSend w)) r)"
    by (simp add: handle_login_def login_header_def login_frame_unpack send_reply_def send_frame_def Let_def)
      (auto simp: mark_login_def touch_heartbeat_def new_session_def login_env_def demo_env_def)
  then have eq: "second_run = push_event login_env kInfo m (upd_sess 1 (post (PostSend w)) r)"
    using f r(8)
    by (simp add: second_run_def read_loop_def login_env_def the_sess_def Let_def)
      (simp add: mark_login_def touch_heartbeat_def new_session_def post_def)
  show ?thesis unfolding eq w_def using r(2-8) first_run_db by (simp add: mark_login_def touch_heartbeat_def new_session_def post_def)
qed

lemma second_run_facts:
  "user_deque second_run = [2 \<mapsto> [1]] \<and> name_to_uid second_run ''bob'' = Some 2 \<and> user_recv_mode second_run 2 = Some kBroadcast \<and>
   readers second_run = [1 \<mapsto> 7] \<and> next_conn_id second_run = 1 \<and> conn (r_db second_run) = Some two_users \<and>
   (\<exists>s. heap second_run 1 = Some s \<and> sock_open s \<and> logged_in s \<and> \<not> stopped s \<and> username s = ''bob'')"
  using second_run_session by blast

subsection \<open>Properties\<close>

lemma connections_bounded:
  assumes inv: "relay_inv cfg0 r" and "1 \<le> max_connections_per_user (session cfg0)" and "max_connections_per_user (session cfg0) < 2 ^ 64"
  shows "distinct (list_user_connections uid r)" and "length (list_user_connections uid r) < 2 ^ 64"
proof -
  have ok: "deque_ok r uid q" if "user_deque r uid = Some q" for q using relay_invD(3) [OF inv that] .
  then show "distinct (list_user_connections uid r)"
    by (auto simp: list_user_connections_def deque_ok_def split: option.splits)
  have "int (length (list_user_connections uid r)) \<le> max_connections_per_user (session cfg0)"
  proof (cases "user_deque r uid")
    case None
    then show ?thesis using assms(2) by (simp add: list_user_connections_def)
  next
    case (Some q)
    have "int (length (filter (is_open r) q)) \<le> int (length q)" by simp
    also have "\<dots> \<le> max_connections_per_user (session cfg0)"
      using ok [OF Some] relay_invD(1) [OF inv] by (simp add: deque_ok_def)
    finally show ?thesis using Some by (simp add: list_user_connections_def)
  qed
  with assms(3) show "length (list_user_connections uid r) < 2 ^ 64" by simp
qed

subsubsection \<open>Timers\<close>

definition hb_kick :: "'db env \<Rightarrow> strand_task" where
  "hb_kick e = PostKick (pack_wire kMsgKick 0 (e_pack e (kick_notice txt_hb_timeout))) ''heartbeat timeout''"

lemma heartbeat_expired_post_all:
  "\<lbrakk>heap r' = post_all ts (heap r); r_cfg r' = r_cfg r\<rbrakk> \<Longrightarrow> heartbeat_expired e r' c = heartbeat_expired e r c"
  by (cases "heap r c") (simp_all add: heartbeat_expired_def is_open_def the_sess_def post_all_def)

lemma check_each_posts:
  "distinct cs \<Longrightarrow> heap (check_each e cs r) =
     post_all (\<lambda>c. if c \<in> set cs \<and> heartbeat_expired e r c then [hb_kick e] else []) (heap r)"
proof (induction cs arbitrary: r)
  case Nil
  then show ?case by simp
next
  case (Cons c cs)
  show ?case
  proof (cases "heartbeat_expired e r c")
    case False
    then have "(\<lambda>d. if d \<in> set cs \<and> heartbeat_expired e r d then [hb_kick e] else []) =
        (\<lambda>d. if d \<in> set (c # cs) \<and> heartbeat_expired e r d then [hb_kick e] else [])"
      by (auto simp: fun_eq_iff)
    with False Cons show ?thesis by simp
  next
    case True
    let ?r = "push_event e kWarn (''heartbeat timeout conn='' @ dec_digits (unat (conn_id (the_sess r c))))
        (notify_and_close e c txt_hb_timeout ''heartbeat timeout'' r)"
    have h: "heap ?r = post_all ((\<lambda>_. [])(c := [hb_kick e])) (heap r)" "r_cfg ?r = r_cfg r"
      using True by (simp_all add: notify_and_close_def heartbeat_expired_def kick_notify_and_close_def heap_post
          hb_kick_def Let_def del: heap_upd_sess)
    have "heap (check_each e (c # cs) r) =
        post_all (\<lambda>d. if d \<in> set cs \<and> heartbeat_expired e r d then [hb_kick e] else []) (heap ?r)"
      using Cons True heartbeat_expired_post_all [OF h] by (simp cong: if_cong)
    then show ?thesis using True Cons.prems
      by (simp only: h post_all_twice) (rule arg_cong2 [where f = post_all], auto simp: fun_eq_iff)
  qed
qed

text \<open>
  C25. The heartbeat timer kicks exactly the silent sessions.  In every reachable state a tick posts one kick with
  the timeout notice to each tracked session that is logged in, open and has been silent for longer
  than the timeout, and touches no other session.
\<close>

theorem heartbeat_tick_exact:
  assumes "reachable e0 cfg0 r" and "1 \<le> max_connections_per_user (session cfg0)"
  shows "heap (check_heartbeats e r) =
    post_all (\<lambda>c. if c \<in> set (all_sessions r) \<and> logged_in (the_sess r c) \<and> is_open r c \<and>
        e_now e - last_hb (the_sess r c) > heartbeat_timeout_ms (session cfg0)
      then [PostKick (pack_wire kMsgKick 0 (e_pack e (kick_notice txt_hb_timeout))) ''heartbeat timeout''] else []) (heap r)"
proof -
  note D = relay_invD [OF reachable_inv [OF assms]]
  show ?thesis using check_each_posts [OF D(9), of e] D(1)
    by (simp add: check_heartbeats_def heartbeat_expired_def hb_kick_def cong: if_cong)
qed

theorem heartbeat_tick_exact_witness: "heap (check_heartbeats demo_env first_run) 1 = heap first_run 1"
  using heartbeat_tick_exact [OF first_run_reachable, of demo_env]
  by (simp add: post_all_def first_run_facts the_sess_def new_session_def)

text \<open>
  C32. A malformed header costs only its own connection.  A frame header with a wrong magic number, version or
  length, or with a body longer than the limit, ends the connection's read loop with the socket
  closed, before any body is read; the database, the name caches and all other sessions are as before.
\<close>

theorem bad_header_isolated:
  assumes "heap r c = Some s" and "\<not> stopped s" and "readers r c = Some t0"
    and "e_now e - t0 \<le> idle_ms (timeouts (r_cfg r))"
    and "ri_header inp = Some hb" and "length hb = 24"
    and "\<not> header_valid (unpack_le hb) \<or> body_len (unpack_le hb) > max_body_len (limits (r_cfg r))"
  shows "let r' = read_loop e c inp r in
    readers r' c = None \<and> (\<exists>w. heap r' = (heap r)(c \<mapsto> s\<lparr>strand := strand s @ [PostStop w], sock_open := False\<rparr>)) \<and>
    r_db r' = r_db r \<and> name_to_uid r' = name_to_uid r \<and> uid_to_username r' = uid_to_username r \<and>
    r_metrics r' = r_metrics r"
proof -
  obtain w where w: "read_loop_step e c inp r = (upd_sess c (stop w) r, False)"
  proof (cases "header_valid (unpack_le hb)")
    case True
    with assms have "read_loop_step e c inp r = (upd_sess c (stop ''body too large'') r, False)"
      by (simp add: read_loop_step_def header_valid_def kHeaderLen_def Let_def)
    then show ?thesis by (rule that)
  next
    case False
    with assms have "read_loop_step e c inp r = (upd_sess c (stop ''invalid header'') r, False)"
      by (auto simp: read_loop_step_def header_valid_def kHeaderLen_def Let_def)
    then show ?thesis by (rule that)
  qed
  let ?r = "upd_sess c (stop w) r"
  have "heap (remove_session c ?r) = heap ?r" "r_db (remove_session c ?r) = r_db ?r"
    "name_to_uid (remove_session c ?r) = name_to_uid ?r" "uid_to_username (remove_session c ?r) = uid_to_username ?r"
    "r_metrics (remove_session c ?r) = r_metrics ?r"
    by (simp_all add: remove_session_def Let_def split: option.split)
  with assms(1) show ?thesis
    by (simp add: read_loop_def w read_loop_exit_def stop_def post_def Let_def) blast
qed

theorem bad_header_isolated_witness:
  "readers (read_loop (demo_env\<lparr>e_now := 6\<rparr>) 1 \<lparr>ri_header = Some (replicate 24 0), ri_body = None, ri_time = 0\<rparr> first_run) 1 = None"
  using bad_header_isolated [of first_run 1 "new_session 1 (Some (''10.0.0.1'', 5000))" 5 "demo_env\<lparr>e_now := 6\<rparr>"
      "\<lparr>ri_header = Some (replicate 24 0), ri_body = None, ri_time = 0\<rparr>" "replicate 24 0"]
  by (simp add: first_run_facts first_run_cfg Let_def)
    (simp add: new_session_def shipped_config_def default_config_def header_valid_def unpack_le_def read_u32_le_def
      header_consts replicate_24)

end
