(* ===== verification/Relay_Programs.thy ===== *)
theory Relay_Programs
  imports Relay_Server
begin

text \<open>
  The handlers of \<^verbatim>\<open>RelayServer\<close> as sequences of atomic actions.

  The threads of the server share the tables of \<^verbatim>\<open>RelayServer\<close> under \<^verbatim>\<open>mu_\<close>, the database connection under the
  mutex of \<^verbatim>\<open>MysqlStore\<close> and the event list under \<^verbatim>\<open>events_mu_\<close>; a handler takes these locks one after the other
  and can be interrupted in between.  A program has one action per critical section, per database call, per
  frame or handler posted on a session's strand and per read of a shared field, in the order of the source.
  The lemmas \<open>exec_\<dots>\<close> show that a program that is not interrupted does what the one-piece definition of the
  handler does (\<open>exec_handle_client_frame_t\<close>, \<open>exec_read_loop_t\<close>).
\<close>

subsection \<open>Programs\<close>

text \<open>
  A program is a sequence of atomic actions and waits for input.  An action changes the state; what follows
  may depend on what it saw.  The environment is an argument of every action, because the clocks go on
  between two actions.
\<close>

datatype ('e, 's, 'i) prog =
    Fin
  | Act "'e \<Rightarrow> 's \<Rightarrow> 's" "'e \<Rightarrow> 's \<Rightarrow> ('e, 's, 'i) prog"
  | Await "'i \<Rightarrow> ('e, 's, 'i) prog"

text \<open>A program run without interruption, on the inputs it gets and the state; the unused inputs are left.\<close>

primrec exec :: "('e, 's, 'i) prog \<Rightarrow> 'e \<Rightarrow> 'i list \<times> 's \<Rightarrow> 'i list \<times> 's" where
  "exec Fin = (\<lambda>e x. x)"
| "exec (Act f k) = (\<lambda>e x. exec (k e (snd x)) e (fst x, f e (snd x)))"
| "exec (Await k) = (\<lambda>e x. exec (k (hd (fst x))) e (tl (fst x), snd x))"

primrec seqp :: "('e, 's, 'i) prog \<Rightarrow> ('e, 's, 'i) prog \<Rightarrow> ('e, 's, 'i) prog" where
  "seqp Fin q = q"
| "seqp (Act f k) q = Act f (\<lambda>e s. seqp (k e s) q)"
| "seqp (Await k) q = Await (\<lambda>i. seqp (k i) q)"

lemma exec_seqp [simp]: "exec (seqp p q) e x = exec q e (exec p e x)"
proof (induction p arbitrary: x)
  case (Act f k)
  from Act.IH [OF rangeI rangeI] show ?case by simp
next
  case (Await k)
  from Await.IH [OF rangeI] show ?case by simp
qed simp

definition act :: "('e \<Rightarrow> 's \<Rightarrow> 's) \<Rightarrow> ('e, 's, 'i) prog" where
  "act f = Act f (\<lambda>_ _. Fin)"

definition look :: "('e \<Rightarrow> 's \<Rightarrow> ('e, 's, 'i) prog) \<Rightarrow> ('e, 's, 'i) prog" where
  "look k = Act (\<lambda>_ s. s) k"

definition call :: "('e \<Rightarrow> 's \<Rightarrow> 's \<times> 'a) \<Rightarrow> ('a \<Rightarrow> ('e, 's, 'i) prog) \<Rightarrow> ('e, 's, 'i) prog" where
  "call f k = Act (\<lambda>e s. fst (f e s)) (\<lambda>e s. k (snd (f e s)))"

lemma exec_simps [simp]:
  "exec (act f) e (i, s) = (i, f e s)" "exec (look k) e (i, s) = exec (k e s) e (i, s)"
  "exec (call g j) e (i, s) = exec (j (snd (g e s))) e (i, fst (g e s))"
  by (simp_all add: act_def look_def call_def)

lemma exec_cases:
  "exec (if b then p else q) e s = (if b then exec p e s else exec q e s)"
  "exec (case x of None \<Rightarrow> p | Some y \<Rightarrow> g y) e s = (case x of None \<Rightarrow> exec p e s | Some y \<Rightarrow> exec (g y) e s)"
  "exec (case z of Inl u \<Rightarrow> h u | Inr v \<Rightarrow> j v) e s = (case z of Inl u \<Rightarrow> exec (h u) e s | Inr v \<Rightarrow> exec (j v) e s)"
  by (simp_all split: option.split sum.split)

type_synonym 'db thread = "('db env, 'db relay, bytes option \<times> int) prog"

text \<open>A call of the \<^verbatim>\<open>MysqlStore\<close>, which locks its own mutex for the whole call.\<close>

definition db_call :: "('db env \<Rightarrow> 'db mysql_store \<Rightarrow> 'db mysql_store \<times> 'a) \<Rightarrow> ('a \<Rightarrow> 'db thread) \<Rightarrow> 'db thread" where
  "db_call f = call (\<lambda>e r. (r\<lparr>r_db := fst (f e (r_db r))\<rparr>, snd (f e (r_db r))))"

lemma exec_db_call [simp]:
  "exec (db_call f k) e (i, r) = exec (k (snd (f e (r_db r)))) e (i, r\<lparr>r_db := fst (f e (r_db r))\<rparr>)"
  by (simp add: db_call_def)

subsection \<open>The actions of the handlers\<close>

definition reply_t :: "u64 \<Rightarrow> pk_call list \<Rightarrow> u32 \<Rightarrow> 'db thread" where
  "reply_t from buf sq = act (\<lambda>e. send_reply e from buf sq)"

definition err_reply_t :: "u64 \<Rightarrow> u32 \<Rightarrow> int \<Rightarrow> string \<Rightarrow> 'db thread" where
  "err_reply_t from sq code message = act (\<lambda>e. send_err_reply e from sq code message)"

definition stop_t :: "u64 \<Rightarrow> string \<Rightarrow> 'db thread" where
  "stop_t c why = act (\<lambda>e. upd_sess c (stop why))"

primrec notify_each_t :: "string \<Rightarrow> string \<Rightarrow> u64 list \<Rightarrow> 'db thread" where
  "notify_each_t reason tag [] = Fin"
| "notify_each_t reason tag (v # vs) = Act (\<lambda>e. notify_and_close e v reason tag) (\<lambda>_ _. notify_each_t reason tag vs)"

lemma exec_notify_each_t [simp]: "exec (notify_each_t x y vs) e (i, r) = (i, notify_each e x y vs r)"
  by (induction vs arbitrary: r) simp_all

lemma exec_replies [simp]:
  "exec (reply_t c buf sq) e (i, r) = (i, send_reply e c buf sq r)"
  "exec (err_reply_t c sq code m) e (i, r) = (i, send_err_reply e c sq code m r)"
  "exec (stop_t c w) e (i, r) = (i, upd_sess c (stop w) r)"
  by (simp_all add: reply_t_def err_reply_t_def stop_t_def)

text \<open>\<^verbatim>\<open>ensure_uid_for_username\<close>: a look into the cache, a query, a store into the cache.\<close>

definition ensure_uid_t :: "string \<Rightarrow> (u64 option \<Rightarrow> 'db thread) \<Rightarrow> 'db thread" where
  "ensure_uid_t un k =
     look (\<lambda>e r. case name_to_uid r un of
         Some uid \<Rightarrow> k (Some uid)
       | None \<Rightarrow>
           db_call (\<lambda>e. user_id_by_username (e_api e) un)
             (\<lambda>res. case res of
                None \<Rightarrow> k None
              | Some uid \<Rightarrow> Act (\<lambda>e r. r\<lparr>name_to_uid := (name_to_uid r)(un \<mapsto> uid)\<rparr>) (\<lambda>_ _. k (Some uid))))"

text \<open>The critical section of \<^verbatim>\<open>deliver_to_user_by_recv_mode\<close>.\<close>

definition deliver_locked :: "'db env \<Rightarrow> string \<Rightarrow> u64 \<Rightarrow> string \<Rightarrow> string \<Rightarrow> u32 \<Rightarrow> u64 \<Rightarrow> 'db relay \<Rightarrow> 'db relay" where
  "deliver_locked e src_un src_conn dst_un payload sq dst_uid r =
     (case user_deque r dst_uid of
        None \<Rightarrow> r
      | Some dq \<Rightarrow>
          if dq = [] then r
          else
            (let mode = (case user_recv_mode r dst_uid of Some m \<Rightarrow> m | None \<Rightarrow> kBroadcast);
                 open_list = filter (is_open r) dq
             in if open_list = [] then r
                else if mode = kBroadcast then
                  broadcast_loop e src_un src_conn dst_un payload sq 0 open_list r
                else
                  (let cur = (case rr_next_index r dst_uid of Some k \<Rightarrow> k | None \<Rightarrow> 0);
                       pick = unat (cur mod word_of_nat (length open_list));
                       r = r\<lparr>rr_next_index := (rr_next_index r)(dst_uid \<mapsto> cur + 1)\<rparr>
                   in send_deliver e src_un src_conn dst_un payload sq (open_list ! pick) r)))"

definition deliver_t :: "string \<Rightarrow> u64 \<Rightarrow> string \<Rightarrow> string \<Rightarrow> u32 \<Rightarrow> 'db thread \<Rightarrow> 'db thread" where
  "deliver_t src_un src_conn dst_un payload sq k =
     ensure_uid_t dst_un
       (\<lambda>res. case res of
          None \<Rightarrow> k
        | Some uid \<Rightarrow> Act (\<lambda>e. deliver_locked e src_un src_conn dst_un payload sq uid) (\<lambda>_ _. k))"

lemma exec_ensure_uid_t [simp]:
  "exec (ensure_uid_t un k) e (i, r) = (case ensure_uid_for_username e un r of (r, u) \<Rightarrow> exec (k u) e (i, r))"
  by (auto simp: ensure_uid_t_def ensure_uid_for_username_def split: option.splits prod.splits)

lemma deliver_split:
  "deliver_to_user_by_recv_mode e su sc du p sq r =
     (case ensure_uid_for_username e du r of (r, None) \<Rightarrow> r | (r, Some uid) \<Rightarrow> deliver_locked e su sc du p sq uid r)"
  unfolding deliver_to_user_by_recv_mode_def deliver_locked_def by (rule refl)

lemma exec_deliver_t [simp]:
  "exec (deliver_t su sc du p sq k) e (i, r) = exec k e (i, deliver_to_user_by_recv_mode e su sc du p sq r)"
  by (simp add: deliver_t_def deliver_split split: option.split prod.split)

text \<open>
  \<^verbatim>\<open>try_authenticate\<close>: the allowlist query, the account query, the critical section that registers the
  connection, and one notification after the other.
\<close>

definition login_queries_t :: "u64 \<Rightarrow> string \<Rightarrow> string \<Rightarrow> bool \<Rightarrow> RecvMode \<Rightarrow> (int \<times> string + LoginOk \<Rightarrow> 'db thread) \<Rightarrow> 'db thread" where
  "login_queries_t self un pw want_admin want_mode k =
     look (\<lambda>_ r. let cip = client_ip (the_sess r self) in
       if cip = [] then k (Inl (kIpNotAllowed, txt_ip_not_allowed))
       else
         db_call (\<lambda>e. ip_whitelisted (e_api e) cip)
           (\<lambda>ok. if \<not> ok then k (Inl (kIpNotAllowed, txt_ip_not_allowed))
             else
               db_call (\<lambda>e. authenticate_or_register (e_api e) un pw want_admin)
                 (\<lambda>res. case res of
                    Inl err \<Rightarrow> k (Inl (kAuthFailed, err))
                  | Inr uinfo \<Rightarrow>
                      call (\<lambda>e. register_login e self (ui_id uinfo) (ui_admin uinfo) un want_mode)
                        (\<lambda>(victims, ok). seqp
                           (notify_each_t txt_conn_limit ''max_connections_per_user'' (filter (\<lambda>v. v \<noteq> self) victims))
                           (k (Inr ok))))))"

definition try_authenticate_t :: "u64 \<Rightarrow> mmap \<Rightarrow> (int \<times> string + LoginOk \<Rightarrow> 'db thread) \<Rightarrow> 'db thread" where
  "try_authenticate_t self mp k =
     (let un = map_get_str mp ''username''; pw = map_get_str mp ''password'';
          pr = map_get_str mp ''peer_role''; rm = map_get_str mp ''recv_mode''
      in if un = None \<or> un = Some [] then k (Inl (kInvalidLoginBody, txt_no_username))
         else if pw = None then k (Inl (kInvalidLoginBody, txt_no_password))
         else if pr = None then k (Inl (kInvalidLoginBody, txt_no_peer_role))
         else if rm = None then k (Inl (kInvalidLoginBody, txt_no_recv_mode))
         else if the pr \<noteq> ''admin'' \<and> the pr \<noteq> ''user'' then k (Inl (kInvalidLoginBody, txt_bad_peer_role))
         else
           (case parse_recv_mode_str (the rm) of
              None \<Rightarrow> k (Inl (kInvalidLoginBody, txt_bad_recv_mode))
            | Some want_mode \<Rightarrow> login_queries_t self (the un) (the pw) (the pr = ''admin'') want_mode k))"

text \<open>The same queries in one piece: the second half of \<open>try_authenticate\<close>.\<close>

definition login_queries ::
  "'db env \<Rightarrow> u64 \<Rightarrow> string \<Rightarrow> string \<Rightarrow> bool \<Rightarrow> RecvMode \<Rightarrow> 'db relay \<Rightarrow> 'db relay \<times> (int \<times> string + LoginOk)" where
  "login_queries e self un pw want_admin want_mode r =
     (let cip = client_ip (the_sess r self) in
      if cip = [] then (r, Inl (kIpNotAllowed, txt_ip_not_allowed))
      else
        (case ip_whitelisted (e_api e) cip (r_db r) of
           (db, False) \<Rightarrow> (r\<lparr>r_db := db\<rparr>, Inl (kIpNotAllowed, txt_ip_not_allowed))
         | (db, True) \<Rightarrow>
             (case authenticate_or_register (e_api e) un pw want_admin db of
                (db, Inl err) \<Rightarrow> (r\<lparr>r_db := db\<rparr>, Inl (kAuthFailed, err))
              | (db, Inr uinfo) \<Rightarrow>
                  (case register_login e self (ui_id uinfo) (ui_admin uinfo) un want_mode (r\<lparr>r_db := db\<rparr>) of
                     (r, victims, ok) \<Rightarrow>
                       (notify_each e txt_conn_limit ''max_connections_per_user''
                          (filter (\<lambda>v. v \<noteq> self) victims) r, Inr ok)))))"

lemma exec_login_queries_t:
  "exec (login_queries_t self un pw want_admin want_mode k) e (i, r) =
     (case login_queries e self un pw want_admin want_mode r of (r, x) \<Rightarrow> exec (k x) e (i, r))"
proof -
  obtain db ok where ip: "ip_whitelisted (e_api e) (client_ip (the_sess r self)) (r_db r) = (db, ok)" by fastforce
  obtain db2 res where au: "authenticate_or_register (e_api e) un pw want_admin db = (db2, res)" by fastforce
  show ?thesis
    by (cases ok; cases res)
      (auto simp: login_queries_t_def login_queries_def ip au Let_def split: prod.split)
qed

lemma try_authenticate_queries:
  "try_authenticate e self mp r =
     (let un = map_get_str mp ''username''; pw = map_get_str mp ''password'';
          pr = map_get_str mp ''peer_role''; rm = map_get_str mp ''recv_mode''
      in if un = None \<or> un = Some [] then (r, Inl (kInvalidLoginBody, txt_no_username))
         else if pw = None then (r, Inl (kInvalidLoginBody, txt_no_password))
         else if pr = None then (r, Inl (kInvalidLoginBody, txt_no_peer_role))
         else if rm = None then (r, Inl (kInvalidLoginBody, txt_no_recv_mode))
         else if the pr \<noteq> ''admin'' \<and> the pr \<noteq> ''user'' then (r, Inl (kInvalidLoginBody, txt_bad_peer_role))
         else
           (case parse_recv_mode_str (the rm) of
              None \<Rightarrow> (r, Inl (kInvalidLoginBody, txt_bad_recv_mode))
            | Some want_mode \<Rightarrow> login_queries e self (the un) (the pw) (the pr = ''admin'') want_mode r))"
  unfolding try_authenticate_def login_queries_def Let_def by (rule refl)

lemma exec_try_authenticate_t [simp]:
  "exec (try_authenticate_t self mp k) e (i, r) = (case try_authenticate e self mp r of (r, x) \<Rightarrow> exec (k x) e (i, r))"
  unfolding try_authenticate_queries try_authenticate_t_def Let_def
  by (simp only: exec_cases exec_login_queries_t if_distrib [of "case_prod _"] option.case_distrib [of "case_prod _"] prod.case)

subsection \<open>The handlers\<close>

definition event_t :: "Level \<Rightarrow> string \<Rightarrow> 'db thread" where
  "event_t lv msg = act (\<lambda>e. push_event e lv msg)"

lemma exec_event_t [simp]: "exec (event_t lv m) e (i, r) = (i, push_event e lv m r)"
  by (simp add: event_t_def)

definition login_ok_t :: "u64 \<Rightarrow> Header \<Rightarrow> LoginOk \<Rightarrow> 'db thread" where
  "login_ok_t from h lok =
     look (\<lambda>_ r. let s = the_sess r from in
       seqp (reply_t from (login_reply (conn_id s) (user_id s) (username s) (is_admin s) lok) (seq h))
         (event_t kInfo (''login ok user='' @ username s)))"

definition handle_login_t :: "'db env \<Rightarrow> u64 \<Rightarrow> Header \<Rightarrow> string \<Rightarrow> 'db thread" where
  "handle_login_t e0 from h body =
     (if msg_type h \<noteq> kClientLogin then stop_t from txt_login_first
      else
        (case e_unpack e0 body of
           None \<Rightarrow> stop_t from ''invalid msgpack body''
         | Some (MMap mp) \<Rightarrow>
             try_authenticate_t from mp
               (\<lambda>res. case res of
                  Inl (code, message) \<Rightarrow> err_reply_t from (seq h) code message
                | Inr lok \<Rightarrow> login_ok_t from h lok)
         | Some _ \<Rightarrow> stop_t from ''body must be msgpack map''))"

definition handle_data_t :: "u64 \<Rightarrow> Header \<Rightarrow> mmap \<Rightarrow> 'db thread" where
  "handle_data_t from h mp =
     (case extract_payload_bin (map_get_obj mp ''payload'') of
        None \<Rightarrow> err_reply_t from (seq h) kProtocol txt_no_payload
      | Some payload \<Rightarrow>
          (let dst = map_get_str mp ''dst_username'' in
           if dst = None \<or> dst = Some [] then err_reply_t from (seq h) kProtocol txt_no_dst
           else
             look (\<lambda>_ r. deliver_t (username (the_sess r from)) (conn_id (the_sess r from)) (the dst) payload (seq h)
               (reply_t from (ok_reply ''DATA'') (seq h)))))"

text \<open>\<^verbatim>\<open>list_users\<close> replies under the lock; \<^verbatim>\<open>kick_user\<close> collects under the lock and notifies after it.\<close>

definition list_users_t :: "u64 \<Rightarrow> Header \<Rightarrow> 'db thread" where
  "list_users_t from h = act (\<lambda>e. control_list_users e from h)"

definition kick_user_t :: "u64 \<Rightarrow> Header \<Rightarrow> mmap \<Rightarrow> 'db thread" where
  "kick_user_t from h mp =
     (case map_get_u64 mp ''target_user_id'' of
        None \<Rightarrow> err_reply_t from (seq h) kProtocol txt_kick_needs_target
      | Some target \<Rightarrow>
          look (\<lambda>_ r. let victims = (case user_deque r target of Some dq \<Rightarrow> dq | None \<Rightarrow> []);
                        s = the_sess r from;
                        kick_msg = txt_kick_by @ username s @ txt_kick_uid @ dec_digits (unat (user_id s)) @
                          txt_kick_target @ dec_digits (unat target)
            in seqp (notify_each_t kick_msg ''kick_user'' victims)
                 (reply_t from (control_reply ''kicked_count'' [PackInt (uint (word_of_nat (length victims) :: u32))]) (seq h))))"

definition allowlist_list_t :: "u64 \<Rightarrow> Header \<Rightarrow> 'db thread" where
  "allowlist_list_t from h =
     db_call (\<lambda>e db. (db, admin_list_allowlist (e_api e) db))
       (\<lambda>res. case res of
          Inl err \<Rightarrow> err_reply_t from (seq h) kProtocol err
        | Inr rows \<Rightarrow> seqp (reply_t from (control_reply ''rows'' (ip_rows_array rows)) (seq h))
            (look (\<lambda>_ r. event_t kInfo (''admin allowlist_list by '' @ username (the_sess r from)))))"

text \<open>A change of a table, answered by an error or by \<^verbatim>\<open>ok\<close> and what comes after it.\<close>

definition change_t ::
  "u64 \<Rightarrow> Header \<Rightarrow> ('db env \<Rightarrow> 'db mysql_store \<Rightarrow> 'db mysql_store \<times> string option) \<Rightarrow> 'db thread \<Rightarrow> 'db thread" where
  "change_t from h f after =
     db_call f (\<lambda>res. case res of
        Some err \<Rightarrow> err_reply_t from (seq h) kProtocol err
      | None \<Rightarrow> seqp (reply_t from (ok_reply ''CONTROL'') (seq h)) after)"

definition allowlist_add_t :: "u64 \<Rightarrow> Header \<Rightarrow> mmap \<Rightarrow> 'db thread" where
  "allowlist_add_t from h mp =
     (let ip = map_get_str mp ''ip'' in
      if ip = None \<or> ip = Some [] then err_reply_t from (seq h) kProtocol txt_add_needs_ip
      else change_t from h (\<lambda>e. admin_insert_allowlist (e_api e) (the ip))
        (look (\<lambda>_ r. event_t kInfo (''admin allowlist_add ip='' @ the ip @ '' by '' @ username (the_sess r from)))))"

definition allowlist_update_t :: "u64 \<Rightarrow> Header \<Rightarrow> mmap \<Rightarrow> 'db thread" where
  "allowlist_update_t from h mp =
     (case (map_get_u64 mp ''id'', map_get_str mp ''ip'') of
        (Some rid, Some ip) \<Rightarrow> change_t from h (\<lambda>e. admin_update_allowlist (e_api e) rid ip) Fin
      | _ \<Rightarrow> err_reply_t from (seq h) kProtocol txt_update_needs_id_ip)"

definition allowlist_delete_t :: "u64 \<Rightarrow> Header \<Rightarrow> mmap \<Rightarrow> 'db thread" where
  "allowlist_delete_t from h mp =
     (case map_get_u64 mp ''id'' of
        None \<Rightarrow> err_reply_t from (seq h) kProtocol txt_delete_needs_id
      | Some rid \<Rightarrow> change_t from h (\<lambda>e. admin_delete_allowlist (e_api e) rid) Fin)"

definition user_table_list_t :: "u64 \<Rightarrow> Header \<Rightarrow> 'db thread" where
  "user_table_list_t from h =
     db_call (\<lambda>e db. (db, admin_list_users (e_api e) db))
       (\<lambda>res. case res of
          Inl err \<Rightarrow> err_reply_t from (seq h) kProtocol err
        | Inr rows \<Rightarrow> reply_t from (control_reply ''rows'' (user_rows_array rows)) (seq h))"

definition user_table_add_t :: "u64 \<Rightarrow> Header \<Rightarrow> mmap \<Rightarrow> 'db thread" where
  "user_table_add_t from h mp =
     (let un = map_get_str mp ''username''; pw = map_get_str mp ''password'' in
      if un = None \<or> pw = None \<or> un = Some [] \<or> pw = Some [] then err_reply_t from (seq h) kProtocol txt_user_add_needs
      else
        (let adm = map_get_bool mp ''is_admin'' False in
         change_t from h (\<lambda>e. admin_insert_user (e_api e) (the un) (the pw) adm)
           (look (\<lambda>_ r. event_t kInfo (''admin user_table_add '' @ the un @ '' by '' @ username (the_sess r from))))))"

definition user_table_update_t :: "u64 \<Rightarrow> Header \<Rightarrow> mmap \<Rightarrow> 'db thread" where
  "user_table_update_t from h mp =
     (case map_get_u64 mp ''id'' of
        None \<Rightarrow> err_reply_t from (seq h) kProtocol txt_user_update_needs_id
      | Some uid \<Rightarrow>
          db_call (\<lambda>e. admin_get_username_by_id (e_api e) uid)
            (\<lambda>res. case res of
               Inl err \<Rightarrow> err_reply_t from (seq h) kProtocol err
             | Inr old_un \<Rightarrow>
                 (case optional_str mp ''username'' txt_bad_username of
                    Inl err \<Rightarrow> err_reply_t from (seq h) kProtocol err
                  | Inr nu \<Rightarrow>
                      (case optional_str mp ''password'' txt_bad_password of
                         Inl err \<Rightarrow> err_reply_t from (seq h) kProtocol err
                       | Inr pw \<Rightarrow>
                           (let ia = (if map_has_key mp ''is_admin'' then Some (map_get_bool mp ''is_admin'' False) else None)
                            in db_call (\<lambda>e. admin_update_user (e_api e) uid nu pw ia)
                                 (\<lambda>res. case res of
                                    Some err \<Rightarrow> err_reply_t from (seq h) kProtocol err
                                  | None \<Rightarrow> seqp (act (\<lambda>_. rename_cached uid old_un nu))
                                      (reply_t from (ok_reply ''CONTROL'') (seq h))))))))"

definition user_table_delete_t :: "u64 \<Rightarrow> Header \<Rightarrow> mmap \<Rightarrow> 'db thread" where
  "user_table_delete_t from h mp =
     (case map_get_u64 mp ''id'' of
        None \<Rightarrow> err_reply_t from (seq h) kProtocol txt_user_delete_needs_id
      | Some uid \<Rightarrow>
          db_call (\<lambda>e. admin_get_username_by_id (e_api e) uid)
            (\<lambda>res. case res of
               Inl err \<Rightarrow> err_reply_t from (seq h) kProtocol err
             | Inr uname \<Rightarrow>
                 look (\<lambda>_ r. seqp
                   (notify_each_t txt_account_deleted ''user_table_delete'' (case user_deque r uid of Some dq \<Rightarrow> dq | None \<Rightarrow> []))
                   (seqp (act (\<lambda>_ r. r\<lparr>name_to_uid := (name_to_uid r)(uname := None),
                            uid_to_username := (uid_to_username r)(uid := None)\<rparr>))
                      (change_t from h (\<lambda>e. admin_delete_user (e_api e) uid)
                         (look (\<lambda>_ r. event_t kInfo (''admin user_table_delete id='' @ dec_digits (unat uid) @ '' by '' @
                            username (the_sess r from)))))))))"

definition handle_control_t :: "u64 \<Rightarrow> Header \<Rightarrow> mmap \<Rightarrow> 'db thread" where
  "handle_control_t from h mp =
     look (\<lambda>_ r.
       if \<not> is_admin (the_sess r from) then err_reply_t from (seq h) kProtocol txt_need_admin
       else
         (let action = (case map_get_str mp ''action'' of Some a \<Rightarrow> a | None \<Rightarrow> []) in
          if action = ''list_users'' then list_users_t from h
          else if action = ''kick_user'' then kick_user_t from h mp
          else if action = ''allowlist_list'' then allowlist_list_t from h
          else if action = ''allowlist_add'' then allowlist_add_t from h mp
          else if action = ''allowlist_update'' then allowlist_update_t from h mp
          else if action = ''allowlist_delete'' then allowlist_delete_t from h mp
          else if action = ''user_table_list'' then user_table_list_t from h
          else if action = ''user_table_add'' then user_table_add_t from h mp
          else if action = ''user_table_update'' then user_table_update_t from h mp
          else if action = ''user_table_delete'' then user_table_delete_t from h mp
          else err_reply_t from (seq h) kProtocol ''unknown action''))"

definition handle_client_frame_t :: "'db env \<Rightarrow> u64 \<Rightarrow> Header \<Rightarrow> string \<Rightarrow> 'db thread" where
  "handle_client_frame_t e0 from h body =
     look (\<lambda>_ r.
       if \<not> logged_in (the_sess r from) then handle_login_t e0 from h body
       else
         (case e_unpack e0 body of
            None \<Rightarrow> stop_t from ''invalid msgpack body''
          | Some (MMap mp) \<Rightarrow>
              (let mtype = msg_type h in
               seqp (act (\<lambda>e. upd_sess from (touch_heartbeat (e_now e))))
                 (if mtype = kClientHeartbeat then reply_t from (ok_reply ''HEARTBEAT'') (seq h)
                  else if mtype = kClientData then handle_data_t from h mp
                  else if mtype = kClientControl then handle_control_t from h mp
                  else err_reply_t from (seq h) kProtocol txt_unknown_msg_type))
          | Some _ \<Rightarrow> stop_t from ''body must be msgpack map''))"

subsection \<open>Uninterrupted programs\<close>

lemma username_send_reply [simp]: "username (the_sess (send_reply e c buf sq r) d) = username (the_sess r d)"
  by (auto simp: send_reply_def send_frame_def post_def the_sess_def upd_sess_def split: option.split)

lemma the_sess_db [simp]: "the_sess (r\<lparr>r_db := db\<rparr>) c = the_sess r c"
  by (simp add: the_sess_def)

lemma exec_login_ok_t:
  "exec (login_ok_t c h lok) e (i, r) =
     (i, let s = the_sess r c in push_event e kInfo (''login ok user='' @ username s)
        (send_reply e c (login_reply (conn_id s) (user_id s) (username s) (is_admin s) lok) (seq h) r))"
  by (simp add: login_ok_t_def Let_def)

lemma exec_handle_login_t: "e_unpack e = e_unpack e0 \<Longrightarrow> exec (handle_login_t e0 c h body) e (i, r) = (i, handle_login e c h body r)"
  by (auto simp: handle_login_t_def handle_login_def exec_login_ok_t Let_def
      split: option.split mobj.split prod.split sum.split)

lemma exec_handle_data_t: "exec (handle_data_t c h mp) e (i, r) = (i, handle_data e c h mp r)"
  by (auto simp: handle_data_t_def handle_data_def Let_def split: option.split)

lemma exec_change_t:
  "exec (change_t c h f p) e (i, r) =
     (case f e (r_db r) of (db, Some err) \<Rightarrow> (i, send_err_reply e c (seq h) kProtocol err (r\<lparr>r_db := db\<rparr>))
      | (db, None) \<Rightarrow> exec p e (i, send_reply e c (ok_reply ''CONTROL'') (seq h) (r\<lparr>r_db := db\<rparr>)))"
  by (simp add: change_t_def split: option.split prod.split)

lemma db_same [simp]: "r\<lparr>r_db := r_db r\<rparr> = r"
  by simp

lemma pair_cases:
  "(i, if b then p else q) = (if b then (i, p) else (i, q))"
  "(i, case x of None \<Rightarrow> p | Some y \<Rightarrow> g y) = (case x of None \<Rightarrow> (i, p) | Some y \<Rightarrow> (i, g y))"
  by (simp_all split: option.split)

lemma exec_lists_t:
  "exec (list_users_t c h) e (i, r) = (i, control_list_users e c h r)"
  "exec (allowlist_list_t c h) e (i, r) = (i, control_allowlist_list e c h r)"
  "exec (user_table_list_t c h) e (i, r) = (i, control_user_table_list e c h r)"
  by (simp_all add: list_users_t_def allowlist_list_t_def user_table_list_t_def control_allowlist_list_def
      control_user_table_list_def split: sum.split)

lemma exec_kick_user_t: "exec (kick_user_t c h mp) e (i, r) = (i, control_kick_user e c h mp r)"
  by (simp add: kick_user_t_def control_kick_user_def Let_def split: option.split)

lemma exec_tables_t:
  "exec (allowlist_add_t c h mp) e (i, r) = (i, control_allowlist_add e c h mp r)"
  "exec (allowlist_update_t c h mp) e (i, r) = (i, control_allowlist_update e c h mp r)"
  "exec (allowlist_delete_t c h mp) e (i, r) = (i, control_allowlist_delete e c h mp r)"
  "exec (user_table_add_t c h mp) e (i, r) = (i, control_user_table_add e c h mp r)"
  by (simp_all add: allowlist_add_t_def control_allowlist_add_def allowlist_update_t_def control_allowlist_update_def
      allowlist_delete_t_def control_allowlist_delete_def user_table_add_t_def control_user_table_add_def
      exec_change_t Let_def split: option.split prod.split)

lemma exec_user_table_update_t: "exec (user_table_update_t c h mp) e (i, r) = (i, control_user_table_update e c h mp r)"
proof (cases "map_get_u64 mp ''id''")
  case (Some uid)
  obtain db res where get: "admin_get_username_by_id (e_api e) uid (r_db r) = (db, res)" by fastforce
  show ?thesis
    by (cases res; cases "optional_str mp ''username'' txt_bad_username"; cases "optional_str mp ''password'' txt_bad_password")
      (simp_all add: user_table_update_t_def control_user_table_update_def Some get Let_def case_prod_unfold split: option.split)
qed (simp add: user_table_update_t_def control_user_table_update_def)

lemma exec_user_table_delete_t: "exec (user_table_delete_t c h mp) e (i, r) = (i, control_user_table_delete e c h mp r)"
proof (cases "map_get_u64 mp ''id''")
  case (Some uid)
  obtain db res where get: "admin_get_username_by_id (e_api e) uid (r_db r) = (db, res)" by fastforce
  define r1 where "r1 = notify_each e txt_account_deleted ''user_table_delete''
    (case user_deque r uid of Some dq \<Rightarrow> dq | None \<Rightarrow> []) (r\<lparr>r_db := db\<rparr>)"
  obtain db2 del where "admin_delete_user (e_api e) uid (r_db r1) = (db2, del)" by fastforce
  then show ?thesis
    by (cases res; cases del)
      (simp_all add: user_table_delete_t_def control_user_table_delete_def admin_kick_uid_sessions_def exec_change_t
         Some get Let_def flip: r1_def)
qed (simp add: user_table_delete_t_def control_user_table_delete_def)

lemma exec_handle_control_t: "exec (handle_control_t c h mp) e (i, r) = (i, handle_control e c h mp r)"
  unfolding handle_control_t_def handle_control_def Let_def
  by (simp only: exec_simps exec_cases exec_replies exec_lists_t exec_kick_user_t exec_tables_t exec_user_table_update_t
      exec_user_table_delete_t pair_cases)

lemma exec_handle_client_frame_t:
  "e_unpack e = e_unpack e0 \<Longrightarrow> exec (handle_client_frame_t e0 c h body) e (i, r) = (i, handle_client_frame e c h body r)"
  by (auto simp: handle_client_frame_t_def handle_client_frame_def exec_handle_login_t exec_handle_data_t
      exec_handle_control_t Let_def split: option.split mobj.split)

subsection \<open>The read loop and the heartbeat timer\<close>

text \<open>
  \<^verbatim>\<open>remove_session\<close> under the lock, then, as a second action, the socket is closed.  The entry of \<open>readers\<close> is a record of the
  model, not of the code: it says that the reader still relies on its registration, and is therefore dropped with
  \<^verbatim>\<open>remove_session\<close>, before the last action of the reader.
\<close>

definition exit_t :: "u64 \<Rightarrow> 'db thread" where
  "exit_t c =
     seqp (act (\<lambda>_ r. let r = remove_session c r in r\<lparr>readers := (readers r)(c := None)\<rparr>))
       (act (\<lambda>_. upd_sess c (\<lambda>s. s\<lparr>sock_open := False\<rparr>)))"

definition frame_read_t :: "'db env \<Rightarrow> u64 \<Rightarrow> Header \<Rightarrow> string \<Rightarrow> int \<Rightarrow> 'db thread" where
  "frame_read_t e0 c h body tm =
     seqp (act (\<lambda>_ r. let m = r_metrics r in
         r\<lparr>readers := (readers r)(c \<mapsto> tm),
           r_metrics := m\<lparr>frames_in := frames_in m + 1,
             bytes_in := bytes_in m + word_of_nat (unat kHeaderLen + length body)\<rparr>\<rparr>))
       (seqp (handle_client_frame_t e0 c h body)
          (look (\<lambda>_ r. if stopped (the_sess r c) then exit_t c else Fin)))"

definition header_read_t :: "'db env \<Rightarrow> Config \<Rightarrow> u64 \<Rightarrow> bytes option \<times> int \<Rightarrow> 'db thread" where
  "header_read_t e0 cf c inp =
     (case fst inp of
        None \<Rightarrow> exit_t c
      | Some hb \<Rightarrow>
          if length hb \<noteq> unat kHeaderLen then exit_t c
          else
            (let h = unpack_le hb in
             if magic h \<noteq> kMagic \<or> version h \<noteq> kVersion \<or> header_len h \<noteq> kHeaderLen then
               seqp (stop_t c ''invalid header'') (exit_t c)
             else if body_len h > max_body_len (limits cf) then seqp (stop_t c ''body too large'') (exit_t c)
             else if body_len h > 0 then
               Await (\<lambda>bi. case fst bi of
                  None \<Rightarrow> exit_t c
                | Some bb \<Rightarrow>
                    if length bb \<noteq> unat (body_len h) then exit_t c
                    else frame_read_t e0 c h (chars_of_bytes bb) (snd bi))
             else frame_read_t e0 c h [] (snd inp)))"

text \<open>One iteration of \<^verbatim>\<open>read_loop\<close>.\<close>

definition read_loop_t :: "'db env \<Rightarrow> u64 \<Rightarrow> 'db thread" where
  "read_loop_t e0 c =
     look (\<lambda>e r. let idle = idle_ms (timeouts (r_cfg r)) in
       if stopped (the_sess r c) then exit_t c
       else if idle > 0 \<and> e_now e - the (readers r c) > idle then
         seqp (act (\<lambda>e. notify_and_close e c txt_idle_timeout ''idle timeout'')) (exit_t c)
       else Await (header_read_t e0 (r_cfg r) c))"

primrec check_each_t :: "int \<Rightarrow> u64 list \<Rightarrow> 'db thread" where
  "check_each_t now [] = Fin"
| "check_each_t now (c # snap) =
     look (\<lambda>e r.
       if \<not> heartbeat_expired (e\<lparr>e_now := now\<rparr>) r c then check_each_t now snap
       else
         seqp (act (\<lambda>e. notify_and_close e c txt_hb_timeout ''heartbeat timeout''))
           (seqp (event_t kWarn (''heartbeat timeout conn='' @ dec_digits (unat (conn_id (the_sess r c)))))
              (check_each_t now snap)))"

definition check_heartbeats_t :: "'db thread" where
  "check_heartbeats_t = look (\<lambda>e r. check_each_t (e_now e) (all_sessions r))"

lemma exec_exit_t: "exec (exit_t c) e (i, r) = (i, read_loop_exit c r)"
  by (simp add: exit_t_def read_loop_exit_def upd_sess_def Let_def)

lemma exec_check_heartbeats_t: "exec check_heartbeats_t e (i, r) = (i, check_heartbeats e r)"
proof -
  have "exec (check_each_t (e_now e) cs) e (i, r) = (i, check_each e cs r)" for cs r
    by (induction cs arbitrary: r) simp_all
  then show ?thesis by (simp add: check_heartbeats_t_def check_heartbeats_def)
qed

text \<open>The inputs of a \<open>read_input\<close>: the header and, after it, the body.\<close>

definition inputs_of :: "read_input \<Rightarrow> (bytes option \<times> int) list" where
  "inputs_of inp = [(ri_header inp, ri_time inp), (map_option bytes_of_chars (ri_body inp), ri_time inp)]"

lemma exec_frame_read_t:
  assumes "e_unpack e = e_unpack e0"
  shows "snd (exec (frame_read_t e0 c h body tm) e (i, r)) =
    (let m = r_metrics r;
         r = handle_client_frame e c h body (r\<lparr>readers := (readers r)(c \<mapsto> tm),
           r_metrics := m\<lparr>frames_in := frames_in m + 1, bytes_in := bytes_in m + word_of_nat (unat kHeaderLen + length body)\<rparr>\<rparr>)
     in if stopped (the_sess r c) then read_loop_exit c r else r)"
  using assms by (simp add: frame_read_t_def exec_handle_client_frame_t exec_exit_t Let_def)

lemma exec_header_read_t:
  assumes "e_unpack e = e_unpack e0" and "cf = r_cfg r" and "stopped (the_sess r c) = False"
    and "(idle_ms (timeouts (r_cfg r)) > 0 \<and> e_now e - the (readers r c) > idle_ms (timeouts (r_cfg r))) = False"
  shows "snd (exec (header_read_t e0 cf c (hd (inputs_of inp))) e (tl (inputs_of inp), r)) = read_loop e c inp r"
proof (cases "ri_header inp")
  case None
  then show ?thesis
    unfolding header_read_t_def inputs_of_def read_loop_def read_loop_step_def Let_def assms(3,4)
    by (simp add: exec_exit_t)
next
  case (Some hb)
  show ?thesis
    unfolding header_read_t_def inputs_of_def read_loop_def read_loop_step_def Let_def assms(3,4)
    using assms(1,2) Some exec_frame_read_t [OF assms(1), of c _ _ "ri_time inp" _ r]
    by (cases "ri_body inp") (simp_all add: exec_exit_t word_gt_0 Let_def)
qed

lemma exec_read_loop_t:
  assumes "e_unpack e = e_unpack e0"
  shows "snd (exec (read_loop_t e0 c) e (inputs_of inp, r)) = read_loop e c inp r"
proof (cases "stopped (the_sess r c) \<or> idle_ms (timeouts (r_cfg r)) > 0 \<and> e_now e - the (readers r c) > idle_ms (timeouts (r_cfg r))")
  case True
  then show ?thesis
    by (auto simp: read_loop_t_def read_loop_def read_loop_step_def exec_exit_t Let_def)
next
  case False
  then have "stopped (the_sess r c) = False"
    "(idle_ms (timeouts (r_cfg r)) > 0 \<and> e_now e - the (readers r c) > idle_ms (timeouts (r_cfg r))) = False" by simp_all
  from exec_header_read_t [OF assms refl this] this show ?thesis by (auto simp: read_loop_t_def Let_def)
qed

end
