(* ===== verification/Relay_Threads.thy ===== *)
theory Relay_Threads
  imports Relay_Programs
begin

text \<open>
  The threads of the server: every reader and the heartbeat timer run their programs (\<open>Relay_Programs\<close>), and any
  thread may take the next action.  \<open>thread_step\<close> is finer than \<open>server_step\<close>, in which a handler is one step.

  A program is correct if each of its actions keeps \<open>relay_inv\<close> and takes from no other thread what that
  thread relies on (\<open>prog_ok\<close>): a reader relies on its own connection staying registered and, until it
  has registered it, not logged in (\<open>holds_at\<close>).  The invariant then holds between any two actions
  (\<open>system_inv_step\<close>), and the runs of \<open>server_step\<close> are among the runs of the threads.
\<close>

subsection \<open>The threads of the server\<close>

text \<open>
  A reader thread per connection and the heartbeat timer.  A thread that is not in the map waits: a reader
  before its next iteration, the timer for its next tick.
\<close>

datatype tid = Reader u64 | HbTimer

type_synonym 'db system = "'db relay \<times> (tid \<rightharpoonup> 'db thread)"

datatype thread_event =
    TEnv server_event
  | TBegin tid
  | TAct tid
  | TInput tid "bytes option \<times> int"
  | TEnd tid

text \<open>The events that are one atomic action already: accepting, strand handlers, write completions, statistics.\<close>

fun elementary :: "server_event \<Rightarrow> bool" where
  "elementary (SRead _ _) = False"
| "elementary SHeartbeat = False"
| "elementary _ = True"

primrec thread_code :: "'db env \<Rightarrow> tid \<Rightarrow> 'db thread" where
  "thread_code e (Reader c) = read_loop_t e c"
| "thread_code e HbTimer = check_heartbeats_t"

primrec may_begin :: "'db relay \<Rightarrow> tid \<Rightarrow> bool" where
  "may_begin r (Reader c) = (c \<in> dom (readers r))"
| "may_begin r HbTimer = True"

inductive thread_step :: "'db env \<Rightarrow> 'db system \<Rightarrow> int \<times> u64 \<times> thread_event \<Rightarrow> 'db system \<Rightarrow> bool"
  for e :: "'db env" where
  thread_env: "\<lbrakk>elementary ev; server_step e r (now, wall, ev) r'\<rbrakk> \<Longrightarrow>
    thread_step e (r, P) (now, wall, TEnv ev) (r', P)"
| thread_begin: "\<lbrakk>P t = None; may_begin r t\<rbrakk> \<Longrightarrow>
    thread_step e (r, P) (now, wall, TBegin t) (r, P(t \<mapsto> thread_code e t))"
| thread_act: "\<lbrakk>P t = Some (Act f k); e' = e\<lparr>e_now := now, e_wall := wall\<rparr>\<rbrakk> \<Longrightarrow>
    thread_step e (r, P) (now, wall, TAct t) (f e' r, P(t \<mapsto> k e' r))"
| thread_input: "P t = Some (Await k) \<Longrightarrow>
    thread_step e (r, P) (now, wall, TInput t i) (r, P(t \<mapsto> k i))"
| thread_end: "P t = Some Fin \<Longrightarrow>
    thread_step e (r, P) (now, wall, TEnd t) (r, P(t := None))"

inductive_cases thread_stepE: "thread_step e sys ev sys'"

subsection \<open>What a thread may rely on\<close>

text \<open>
  What a reader knows of its own connection at a point of its program, whatever the other threads do
  meanwhile: it is registered and not logged in, it is registered, or nothing.
\<close>

datatype stage = Fresh | Alive | Gone

fun holds_at :: "stage \<Rightarrow> tid \<Rightarrow> 'db relay \<Rightarrow> bool" where
  "holds_at Fresh (Reader c) r = (c \<in> dom (readers r) \<and> \<not> logged_in (the_sess r c))"
| "holds_at Alive (Reader c) r = (c \<in> dom (readers r))"
| "holds_at _ _ r = True"

text \<open>An action leaves the other threads what they rely on; no action brings a connection (back) to life.\<close>

definition quiet :: "tid \<Rightarrow> 'db relay \<Rightarrow> 'db relay \<Rightarrow> bool" where
  "quiet t r r' \<longleftrightarrow>
     (\<forall>u st. u \<noteq> t \<longrightarrow> holds_at st u r \<longrightarrow> holds_at st u r') \<and>
     dom (readers r') \<subseteq> dom (readers r) \<and> next_conn_id r' = next_conn_id r"

inductive prog_ok :: "Config \<Rightarrow> tid \<Rightarrow> stage \<Rightarrow> stage \<Rightarrow> 'db thread \<Rightarrow> bool"
  for cf :: Config and t :: tid and goal :: stage where
  ok_fin: "(\<And>r :: 'db relay. holds_at st t r \<Longrightarrow> holds_at goal t r) \<Longrightarrow> prog_ok cf t goal st (Fin :: 'db thread)"
| ok_act: "(\<And>e r. \<lbrakk>relay_inv cf r; holds_at st t r\<rbrakk> \<Longrightarrow>
      relay_inv cf (f e r) \<and> quiet t r (f e r) \<and> (\<exists>st'. holds_at st' t (f e r) \<and> prog_ok cf t goal st' (k e r))) \<Longrightarrow>
    prog_ok cf t goal st (Act f k)"
| ok_await: "(\<And>i. prog_ok cf t goal st (k i)) \<Longrightarrow> prog_ok cf t goal st (Await k)"

inductive_cases ok_actE: "prog_ok cf t goal st (Act f k)"
inductive_cases ok_awaitE: "prog_ok cf t goal st (Await k)"

lemma holds_at_simps [simp]: "holds_at Gone t r" "holds_at st HbTimer r"
  by (cases t; simp) (cases st; simp)

lemma holds_calm:
  assumes "calm r r'" and "holds_at st t r"
  shows "holds_at st t r'"
proof -
  have "logged_in (the_sess r' c) = logged_in (the_sess r c)" for c
    using assms(1) unfolding calm_def sess_sim_def the_sess_def
    by (auto simp: same_user_def option.rel_sel split: option.splits dest!: spec [of _ c])
  moreover have "readers r' = readers r" using assms(1) by (simp add: calm_def)
  ultimately show ?thesis using assms(2) by (cases st; cases t) simp_all
qed

lemma quiet_calm:
  assumes "calm r r'"
  shows "quiet t r r'"
proof -
  have "readers r' = readers r" "next_conn_id r' = next_conn_id r" using assms by (simp_all add: calm_def)
  with holds_calm [OF assms] show ?thesis by (simp add: quiet_def)
qed

lemma prog_ok_weaken:
  assumes "prog_ok cf t goal mid (p :: 'db thread)" and "\<And>r :: 'db relay. holds_at st t r \<Longrightarrow> holds_at mid t r"
  shows "prog_ok cf t goal st p"
  using assms
proof (induction arbitrary: st rule: prog_ok.induct)
  case (ok_fin mid)
  then show ?case by (auto intro: prog_ok.ok_fin)
next
  case (ok_act mid f k)
  show ?case by (rule prog_ok.ok_act) (use ok_act in blast)
next
  case (ok_await mid k)
  then show ?case by (auto intro: prog_ok.ok_await)
qed

lemma prog_ok_seqp:
  assumes "prog_ok cf t mid st p" and "prog_ok cf t goal mid q"
  shows "prog_ok cf t goal st (seqp p q)"
  using assms
proof (induction rule: prog_ok.induct)
  case (ok_fin st)
  then show ?case by (auto intro: prog_ok_weaken)
next
  case (ok_act st f k)
  show ?case by (simp, rule prog_ok.ok_act) (use ok_act in blast)
next
  case (ok_await st k)
  then show ?case by (auto intro: prog_ok.ok_await)
qed

lemma prog_ok_calm:
  assumes "\<And>e r. calm r (f e r)" and "\<And>e r. holds_at st t r \<Longrightarrow> prog_ok cf t goal st (k e r)"
  shows "prog_ok cf t goal st (Act f k)"
  by (rule ok_act) (use assms calm_inv holds_calm quiet_calm in blast)

lemma prog_ok_done: "(\<And>r :: 'db relay. holds_at st t r \<Longrightarrow> holds_at goal t r) \<Longrightarrow> prog_ok cf t goal st (Fin :: 'db thread)"
  by (rule ok_fin)

text \<open>Programs all of whose actions are calm do not change what is known.\<close>

definition tame :: "'db thread \<Rightarrow> bool" where
  "tame p \<longleftrightarrow> (\<forall>cf t goal st. (\<forall>r :: 'db relay. holds_at st t r \<longrightarrow> holds_at goal t r) \<longrightarrow> prog_ok cf t goal st p)"

lemma tameD: "\<lbrakk>tame (p :: 'db thread); \<And>r :: 'db relay. holds_at st t r \<Longrightarrow> holds_at goal t r\<rbrakk> \<Longrightarrow> prog_ok cf t goal st p"
  by (simp add: tame_def)

lemma tame_fin [simp, intro!]: "tame Fin"
  by (simp add: tame_def ok_fin)

lemma tame_act: "\<lbrakk>\<And>e r. calm r (f e r); \<And>e r. tame (k e r)\<rbrakk> \<Longrightarrow> tame (Act f k)"
  by (simp add: tame_def prog_ok_calm)

lemma tame_seqp: "\<lbrakk>tame p; tame q\<rbrakk> \<Longrightarrow> tame (seqp p q)"
  unfolding tame_def by (blast intro: prog_ok_seqp)

lemma tame_combinators:
  "(\<And>e r. calm r (f e r)) \<Longrightarrow> tame (act f)" "(\<And>e r. tame (k e r)) \<Longrightarrow> tame (look k)"
  "(\<And>x. tame (j x)) \<Longrightarrow> tame (db_call g j)"
  by (simp_all add: act_def look_def db_call_def call_def tame_act calm_db)

subsection \<open>The handlers keep the invariant at every point\<close>

lemma tame_replies [simp, intro!]:
  "tame (reply_t c buf sq)" "tame (err_reply_t c sq code m)" "tame (stop_t c w)" "tame (event_t lv m)"
  by (simp_all add: reply_t_def err_reply_t_def stop_t_def event_t_def tame_combinators calm_intros)

lemma tame_notify_each_t [simp, intro!]: "tame (notify_each_t x y vs)"
  by (induction vs) (simp_all add: tame_act calm_notify_and_close)

lemma tame_cases:
  "\<lbrakk>tame p; tame q\<rbrakk> \<Longrightarrow> tame (if b then p else q)"
  "\<lbrakk>tame p; \<And>y. tame (g y)\<rbrakk> \<Longrightarrow> tame (case x of None \<Rightarrow> p | Some y \<Rightarrow> g y)"
  "\<lbrakk>\<And>u. tame (i u); \<And>v. tame (j v)\<rbrakk> \<Longrightarrow> tame (case z of Inl u \<Rightarrow> i u | Inr v \<Rightarrow> j v)"
  by (simp_all split: option.split sum.split)

lemmas tame_intros = tame_combinators tame_seqp tame_cases

lemma calm_deliver_locked: "calm r (deliver_locked e su sc du p sq uid r)"
  by (auto simp: deliver_locked_def Let_def intro!: calm_broadcast calm_send_deliver calm_rr split: option.split)

lemma tame_ensure_uid_t: "(\<And>u. tame (k u)) \<Longrightarrow> tame (ensure_uid_t un k)"
  unfolding ensure_uid_t_def by (intro tame_intros tame_act) (auto simp: calm_def)

lemma tame_data_t: "tame (handle_data_t c h mp)"
  unfolding handle_data_t_def deliver_t_def Let_def
  by (intro tame_intros tame_ensure_uid_t tame_act tame_replies calm_deliver_locked)

lemma tame_change_t: "tame p \<Longrightarrow> tame (change_t c h f p)"
  unfolding change_t_def by (intro tame_intros tame_replies)

lemma tame_control_t:
  "tame (list_users_t c h)" "tame (kick_user_t c h mp)" "tame (allowlist_list_t c h)" "tame (allowlist_add_t c h mp)"
  "tame (allowlist_update_t c h mp)" "tame (allowlist_delete_t c h mp)" "tame (user_table_list_t c h)"
  "tame (user_table_add_t c h mp)" "tame (user_table_update_t c h mp)" "tame (user_table_delete_t c h mp)"
  unfolding list_users_t_def kick_user_t_def allowlist_list_t_def allowlist_add_t_def allowlist_update_t_def
    allowlist_delete_t_def user_table_list_t_def user_table_add_t_def user_table_update_t_def user_table_delete_t_def
    Let_def prod.case
  by (intro tame_intros tame_change_t tame_replies tame_notify_each_t tame_fin calm_lists calm_rename calm_names calm_refl)+

lemma tame_handle_control_t: "tame (handle_control_t c h mp)"
  unfolding handle_control_t_def Let_def by (intro tame_intros tame_replies tame_control_t)

lemma ok_register:
  assumes "1 \<le> max_connections_per_user (session cf)"
    and "\<And>x. prog_ok cf (Reader c) goal Alive (k x)"
  shows "prog_ok cf (Reader c) goal Fresh (call (\<lambda>e. register_login e c uid adm un mode) k)"
  unfolding call_def
proof (rule ok_act)
  fix e and r :: "'db relay"
  assume inv: "relay_inv cf r" and "holds_at Fresh (Reader c) r"
  then have c: "c \<in> dom (readers r)" "\<not> logged_in (the_sess r c)" by simp_all
  with relay_invD(6) [OF inv] obtain s where s: "heap r c = Some s" by blast
  obtain r1 victims ok where reg: "register_login e c uid adm un mode r = (r1, victims, ok)" by (metis prod_cases3)
  have heap: "heap r1 d = heap r d" if "d \<noteq> c" for d using heap_register_login [OF reg] that by simp
  have "relay_inv cf r1" using inv_register_login [OF inv reg c(1) s _ assms(1)] c(2) s by simp
  moreover have "quiet (Reader c) r r1"
    unfolding quiet_def
  proof (intro conjI allI impI)
    fix u st assume u: "u \<noteq> Reader c" "holds_at st u r"
    then show "holds_at st u r1"
      by (cases st; cases u) (simp_all add: register_login_result(4) [OF reg] the_sess_def heap)
  qed (simp_all add: register_login_result [OF reg])
  moreover have "holds_at Alive (Reader c) r1" using c(1) register_login_result(4) [OF reg] by simp
  ultimately show "relay_inv cf (fst (register_login e c uid adm un mode r)) \<and>
      quiet (Reader c) r (fst (register_login e c uid adm un mode r)) \<and>
      (\<exists>st'. holds_at st' (Reader c) (fst (register_login e c uid adm un mode r)) \<and>
        prog_ok cf (Reader c) goal st' (k (snd (register_login e c uid adm un mode r))))"
    unfolding reg fst_conv snd_conv using assms(2) by blast
qed

lemma ok_look: "(\<And>e r. holds_at st t r \<Longrightarrow> \<exists>st'. holds_at st' t r \<and> prog_ok cf t goal st' (k e r)) \<Longrightarrow> prog_ok cf t goal st (look k)"
  unfolding look_def by (rule ok_act) (auto simp: quiet_def)

lemma ok_db_call: "(\<And>x. prog_ok cf t goal st (k x)) \<Longrightarrow> prog_ok cf t goal st (db_call f k)"
  unfolding db_call_def call_def by (rule prog_ok_calm) (simp_all add: calm_db)

lemma ok_login_queries:
  assumes "1 \<le> max_connections_per_user (session cf)" and "\<And>x. tame (k x)"
  shows "prog_ok cf (Reader c) Alive Fresh (login_queries_t c un pw adm mode k)"
proof -
  have k: "prog_ok cf (Reader c) Alive Fresh (k x)" "prog_ok cf (Reader c) Alive Alive (k x)" for x
    by (rule tameD [OF assms(2)]; simp)+
  have "prog_ok cf (Reader c) Alive Alive (seqp (notify_each_t a b vs) (k x))" for a b vs x
    by (rule prog_ok_seqp [OF tameD [OF tame_notify_each_t] k(2)])
  then have reg: "prog_ok cf (Reader c) Alive Fresh (call (\<lambda>e. register_login e c uid ad un mode)
      (\<lambda>(victims, ok). seqp (notify_each_t a b (filter (\<lambda>v. v \<noteq> c) victims)) (k (Inr ok))))" for uid ad a b
    by (intro ok_register [OF assms(1)]) (simp split: prod.split)
  have "prog_ok cf (Reader c) Alive Fresh (if b then k x else p)" if "prog_ok cf (Reader c) Alive Fresh p" for b x p
    using that k(1) by simp
  with reg show ?thesis
    unfolding login_queries_t_def Let_def
    by (intro ok_look exI [of _ Fresh] conjI ok_db_call) (assumption | auto simp: k(1) intro!: ok_db_call split: sum.split)+
qed

lemma ok_handle_login_t:
  assumes "1 \<le> max_connections_per_user (session cf)"
  shows "prog_ok cf (Reader c) Alive Fresh (handle_login_t e0 c h body)"
proof -
  have ok: "prog_ok cf (Reader c) Alive Fresh p" if "tame p" for p :: "'a thread"
    by (rule tameD [OF that]) simp
  have "tame (case res of Inl (code, message) \<Rightarrow> err_reply_t c (seq h) code message | Inr lok \<Rightarrow> login_ok_t c h lok)" for res
    unfolding login_ok_t_def Let_def by (auto intro!: tame_intros split: sum.split)
  with assms show ?thesis
    unfolding handle_login_t_def try_authenticate_t_def Let_def
    by (auto simp: ok intro!: ok_login_queries split: option.split mobj.split)
qed

lemma ok_handle_client_frame_t:
  assumes "1 \<le> max_connections_per_user (session cf)"
  shows "prog_ok cf (Reader c) Alive Alive (handle_client_frame_t e0 c h body)"
  unfolding handle_client_frame_t_def
proof (rule ok_look)
  fix e and r :: "'a relay"
  assume r: "holds_at Alive (Reader c) r"
  let ?p = "if \<not> logged_in (the_sess r c) then handle_login_t e0 c h body
       else
         (case e_unpack e0 body of
            None \<Rightarrow> stop_t c ''invalid msgpack body''
          | Some (MMap mp) \<Rightarrow>
              (let mtype = msg_type h in
               seqp (act (\<lambda>e. upd_sess c (touch_heartbeat (e_now e))))
                 (if mtype = kClientHeartbeat then reply_t c (ok_reply ''HEARTBEAT'') (seq h)
                  else if mtype = kClientData then handle_data_t c h mp
                  else if mtype = kClientControl then handle_control_t c h mp
                  else err_reply_t c (seq h) kProtocol txt_unknown_msg_type))
          | Some _ \<Rightarrow> stop_t c ''body must be msgpack map'')"
  show "\<exists>st'. holds_at st' (Reader c) r \<and> prog_ok cf (Reader c) Alive st' ?p"
  proof (cases "logged_in (the_sess r c)")
    case False
    with r ok_handle_login_t [OF assms] show ?thesis by (intro exI [of _ Fresh]) simp
  next
    case True
    then have "tame ?p"
      by (auto simp: Let_def tame_data_t tame_handle_control_t calm_upd_sess intro!: tame_intros split: option.split mobj.split)
    with r show ?thesis by (intro exI [of _ Alive] conjI tameD) auto
  qed
qed

lemma tame_check_heartbeats_t: "tame check_heartbeats_t"
proof -
  have "tame (check_each_t now cs)" for now cs
    by (induction cs) (auto intro!: tame_intros calm_notify_and_close)
  then show ?thesis unfolding check_heartbeats_t_def by (rule tame_intros)
qed

lemma ok_exit_t: "prog_ok cf (Reader c) Gone Alive (exit_t c :: 'db thread)"
proof -
  have close: "prog_ok cf (Reader c) Gone Gone (act (\<lambda>_. upd_sess c (\<lambda>s. s\<lparr>sock_open := False\<rparr>)) :: 'db thread)"
    by (rule tameD [OF tame_combinators(1)], rule calm_upd_sess)
      (simp_all add: same_user_close)
  have "prog_ok cf (Reader c) Gone Alive (act (\<lambda>_ r. let r = remove_session c r in r\<lparr>readers := (readers r)(c := None)\<rparr>) :: 'db thread)"
    unfolding act_def
  proof (rule ok_act)
    fix e and r :: "'db relay"
    assume inv: "relay_inv cf r" and "holds_at Alive (Reader c) r"
    then have c: "c \<in> dom (readers r)" by simp
    with relay_invD(6) [OF inv] obtain s where s: "heap r c = Some s" by blast
    note R = remove_session_result [OF inv s c]
    let ?r = "(remove_session c r)\<lparr>readers := (readers r)(c := None)\<rparr>"
    have "quiet (Reader c) r ?r"
      unfolding quiet_def
    proof (intro conjI allI impI)
      fix u st assume "u \<noteq> Reader c" "holds_at st u r"
      then show "holds_at st u ?r" by (cases st; cases u) (auto simp: the_sess_def R(1))
    qed (auto simp: R)
    with inv_unregister [OF inv c] show "relay_inv cf (let r = remove_session c r in r\<lparr>readers := (readers r)(c := None)\<rparr>) \<and>
       quiet (Reader c) r (let r = remove_session c r in r\<lparr>readers := (readers r)(c := None)\<rparr>) \<and>
       (\<exists>st'. holds_at st' (Reader c) (let r = remove_session c r in r\<lparr>readers := (readers r)(c := None)\<rparr>) \<and>
          prog_ok cf (Reader c) Gone st' (Fin :: 'db thread))"
      by (auto simp: R(2) Let_def intro!: exI [of _ Gone] ok_fin)
  qed
  from prog_ok_seqp [OF this close] show ?thesis by (simp add: exit_t_def)
qed

lemma ok_frame_read_t:
  assumes "1 \<le> max_connections_per_user (session cf)"
  shows "prog_ok cf (Reader c) Gone Alive (frame_read_t (e0 :: 'db env) c h body tm)"
proof -
  let ?note = "\<lambda>(_ :: 'db env) (r :: 'db relay). let m = r_metrics r in r\<lparr>readers := (readers r)(c \<mapsto> tm),
    r_metrics := m\<lparr>frames_in := frames_in m + 1, bytes_in := bytes_in m + word_of_nat (unat kHeaderLen + length body)\<rparr>\<rparr>"
  have "prog_ok cf (Reader c) Alive Alive (act ?note :: 'db thread)"
    unfolding act_def
  proof (rule ok_act)
    fix e and r :: "'db relay"
    assume inv: "relay_inv cf r" and "holds_at Alive (Reader c) r"
    then have c: "c \<in> dom (readers r)" by simp
    have "quiet (Reader c) r (?note e r)"
      unfolding quiet_def
    proof (intro conjI allI impI)
      fix u st assume "u \<noteq> Reader c" "holds_at st u r"
      then show "holds_at st u (?note e r)" by (cases st; cases u) (auto simp: the_sess_def Let_def)
    qed (use c in \<open>auto simp: Let_def\<close>)
    moreover have "relay_inv cf (?note e r)" unfolding Let_def by (rule inv_reader_time [OF inv c])
    moreover have "holds_at Alive (Reader c) (?note e r)" by (simp add: Let_def)
    ultimately show "relay_inv cf (?note e r) \<and> quiet (Reader c) r (?note e r) \<and>
        (\<exists>st'. holds_at st' (Reader c) (?note e r) \<and> prog_ok cf (Reader c) Alive st' (Fin :: 'db thread))"
      by (blast intro: ok_fin)
  qed
  moreover have "prog_ok cf (Reader c) Gone Alive (look (\<lambda>_ r. if stopped (the_sess r c) then exit_t c else (Fin :: 'db thread)))"
    by (rule ok_look) (auto intro!: exI [of _ Alive] ok_exit_t ok_fin)
  ultimately show ?thesis
    unfolding frame_read_t_def using ok_handle_client_frame_t [OF assms, of c e0 h body] by (blast intro: prog_ok_seqp)
qed

lemma ok_thread_code:
  assumes "1 \<le> max_connections_per_user (session cf)" and "may_begin r t"
  shows "\<exists>st. holds_at st t r \<and> prog_ok cf t Gone st (thread_code (e :: 'db env) t)"
proof (cases t)
  case HbTimer
  have "prog_ok cf HbTimer Gone Gone (thread_code e HbTimer)" by (simp add: tameD [OF tame_check_heartbeats_t])
  with HbTimer show ?thesis by auto
next
  case (Reader c)
  note exit = ok_exit_t [of cf c]
  have after: "tame p \<Longrightarrow> prog_ok cf (Reader c) Gone Alive (seqp p (exit_t c))" for p :: "'db thread"
    by (rule prog_ok_seqp [OF tameD exit])
  have "prog_ok cf (Reader c) Gone Alive (header_read_t e cf' c inp)" for cf' inp
    by (auto simp: header_read_t_def Let_def exit after ok_frame_read_t [OF assms(1)] intro!: ok_await split: option.split)
  then have "prog_ok cf (Reader c) Gone Alive (read_loop_t e c)"
    unfolding read_loop_t_def Let_def
    by (intro ok_look exI [of _ Alive])
      (auto simp: exit intro!: after ok_await tame_combinators calm_notify_and_close)
  with assms(2) Reader show ?thesis by (auto intro!: exI [of _ Alive])
qed

subsection \<open>The invariant of the system\<close>

definition system_inv :: "Config \<Rightarrow> 'db system \<Rightarrow> bool" where
  "system_inv cf sys \<longleftrightarrow>
     relay_inv cf (fst sys) \<and>
     (\<forall>t p. snd sys t = Some p \<longrightarrow> (\<exists>st. holds_at st t (fst sys) \<and> prog_ok cf t Gone st p))"

lemma holds_env:
  assumes "server_step e r (now, wall, ev) r'" and "elementary ev" and "relay_inv cf r" and "holds_at st t r"
  shows "holds_at st t r'"
  using assms(1)
proof (cases rule: server_step.cases)
  case (server_accept res)
  show ?thesis
  proof (cases res)
    case (Inl m)
    then have "calm r r'" by (simp add: server_accept accept_clients_def calm_push_event)
    with assms(4) show ?thesis by (rule holds_calm [rotated])
  next
    case (Inr ep)
    let ?i = "next_conn_id r + 1"
    have "?i \<noteq> 0" using server_accept(3) by (simp add: eq_neg_iff_add_eq_0)
    moreover from this unatSuc [of "next_conn_id r"] have "next_conn_id r < ?i" by (simp add: word_less_nat_alt add.commute)
    ultimately have "heap r ?i = None" using relay_invD(2) [OF assms(3), of ?i] by (cases "heap r ?i") auto
    then have "c \<noteq> ?i" if "c \<in> dom (readers r)" for c using that relay_invD(6) [OF assms(3)] by auto
    with assms(4) Inr show ?thesis
      by (cases st; cases t) (auto simp: server_accept accept_clients_def the_sess_def Let_def)
  qed
next
  case (server_run c s x ts)
  then have "calm r r'" by (auto intro!: calm_put_sess same_user_run_task simp del: run_task.simps)
  with assms(4) show ?thesis by (rule holds_calm [rotated])
next
  case (server_write c s b res)
  then have "calm r r'" by (auto intro!: calm_put_sess same_user_on_write simp del: on_write.simps)
  with assms(4) show ?thesis by (rule holds_calm [rotated])
next
  case server_metrics
  with assms(4) show ?thesis by (cases st; cases t) (simp_all add: snapshot_stats_def the_sess_def Let_def)
qed (use assms(2) in auto)

lemma system_inv_step:
  assumes "thread_step e sys ev sys'" and "system_inv cf sys" and max1: "1 \<le> max_connections_per_user (session cf)"
  shows "system_inv cf sys'"
  using assms(1)
proof (cases rule: thread_step.cases)
  case (thread_env ev r now wall r' P)
  with assms(2) relay_inv_step [OF thread_env(5) _ max1] holds_env [OF thread_env(5,4)] show ?thesis
    unfolding system_inv_def by (metis fst_conv snd_conv)
next
  case (thread_begin P t r now wall)
  with assms(2) ok_thread_code [OF max1 thread_begin(5), of e] show ?thesis by (auto simp: system_inv_def)
next
  case (thread_act P t f k e' now wall r)
  from assms(2) thread_act(1,4) obtain st where
    inv: "relay_inv cf r" and st: "holds_at st t r" "prog_ok cf t Gone st (Act f k)"
    and oth: "\<forall>u p. P u = Some p \<longrightarrow> (\<exists>st. holds_at st u r \<and> prog_ok cf u Gone st p)"
    unfolding system_inv_def by (metis fst_conv snd_conv)
  from st(2) have "relay_inv cf (f e' r) \<and> quiet t r (f e' r) \<and> (\<exists>st'. holds_at st' t (f e' r) \<and> prog_ok cf t Gone st' (k e' r))"
    by (rule ok_actE) (use inv st(1) in blast)
  with oth show ?thesis unfolding thread_act(3) system_inv_def quiet_def by (auto split: if_splits) metis+
next
  case (thread_input P t k r now wall i)
  with assms(2) show ?thesis unfolding system_inv_def by (fastforce elim: ok_awaitE split: if_splits)
next
  case (thread_end P t r now wall)
  with assms(2) show ?thesis unfolding system_inv_def by (auto split: if_splits)
qed

interpretation thr: inductive_invariant "thread_step e"
  "\<lambda>sys. system_inv cf sys \<and> 1 \<le> max_connections_per_user (session cf)" for e cf
  by unfold_locales (auto intro: system_inv_step)

text \<open>A connection that was accepted and whose reader has unregistered it does not come back.\<close>

definition departed :: "u64 \<Rightarrow> 'db system \<Rightarrow> bool" where
  "departed c sys \<longleftrightarrow> c \<le> next_conn_id (fst sys) \<and> readers (fst sys) c = None"

lemma departed_env:
  assumes "server_step e r (now, wall, ev) r'" and "elementary ev" and "c \<le> next_conn_id r" and "readers r c = None"
  shows "c \<le> next_conn_id r' \<and> readers r' c = None"
  using assms(1)
proof (cases rule: server_step.cases)
  case (server_accept res)
  then have "next_conn_id r + 1 \<noteq> 0" by (simp add: eq_neg_iff_add_eq_0)
  with unatSuc [of "next_conn_id r"] have "next_conn_id r < next_conn_id r + 1"
    by (simp add: word_less_nat_alt add.commute)
  with assms(3,4) show ?thesis by (cases res) (auto simp: server_accept accept_clients_def Let_def)
qed (use assms(2-4) in \<open>auto simp: put_sess_def snapshot_stats_def Let_def\<close>)

lemma departed_step:
  assumes "thread_step e sys ev sys'" and "system_inv cf sys" and "departed c sys"
  shows "departed c sys'"
  using assms(1)
proof (cases rule: thread_step.cases)
  case (thread_env ev r now wall r' P)
  with departed_env [OF thread_env(5,4)] assms(3) show ?thesis by (simp add: departed_def)
next
  case (thread_act P t f k e' now wall r)
  from assms(2) thread_act(1,4) obtain st where
    st: "relay_inv cf r" "holds_at st t r" "prog_ok cf t Gone st (Act f k)"
    unfolding system_inv_def by (metis fst_conv snd_conv)
  from st(3) have "quiet t r (f e' r)" by (rule ok_actE) (use st(1,2) in blast)
  with assms(3) show ?thesis unfolding thread_act(1,3) departed_def quiet_def by (auto simp: domIff subset_iff)
qed (use assms(3) in \<open>auto simp: departed_def\<close>)

interpretation gone: inductive_invariant "thread_step e"
  "\<lambda>sys. (system_inv cf sys \<and> 1 \<le> max_connections_per_user (session cf)) \<and> departed c sys" for e cf c
  by unfold_locales (auto intro: system_inv_step departed_step)

text \<open>The states of a server whose threads are interrupted between any two actions.\<close>

definition reachable_threads :: "'db env \<Rightarrow> Config \<Rightarrow> 'db system \<Rightarrow> bool" where
  "reachable_threads e cf sys \<longleftrightarrow>
     (\<exists>ol wall r0 evs. start e ol (new_relay cf wall) = (r0, Inr ()) \<and> runs (thread_step e) (r0, Map.empty) evs sys)"

lemma reachable_threads_inv:
  assumes "reachable_threads e cf sys" and "1 \<le> max_connections_per_user (session cf)"
  shows "system_inv cf sys"
proof -
  from assms(1) obtain ol wall r0 evs where
    s: "start e ol (new_relay cf wall) = (r0, Inr ())" "runs (thread_step e) (r0, Map.empty) evs sys"
    unfolding reachable_threads_def by blast
  have "system_inv cf (r0, Map.empty)" by (simp add: system_inv_def relay_inv_start [OF s(1) relay_inv_new])
  with thr.inv_runs [OF s(2), of cf] assms(2) show ?thesis by simp
qed

subsection \<open>Atomic handlers are one of the schedules\<close>

lemma runs_exec:
  assumes "P t = Some p"
  shows "\<exists>evs. runs (thread_step e) (r, P) evs (snd (exec p (e\<lparr>e_now := now, e_wall := wall\<rparr>) (ins, r)), P(t := None))"
  using assms
proof (induction p arbitrary: P r ins)
  case Fin
  have "thread_step e (r, P) (now, wall, TEnd t) (r, P(t := None))" by (rule thread_end) (rule Fin)
  from runs_cons [where step = "thread_step e", OF this runs_nil] show ?case by (simp del: fun_upd_apply) blast
next
  case (Act f k)
  let ?e = "e\<lparr>e_now := now, e_wall := wall\<rparr>"
  have s: "thread_step e (r, P) (now, wall, TAct t) (f ?e r, P(t \<mapsto> k ?e r))"
    by (rule thread_act) (use Act.prems in auto)
  obtain evs where "runs (thread_step e) (f ?e r, P(t \<mapsto> k ?e r)) evs
      (snd (exec (k ?e r) ?e (ins, f ?e r)), (P(t \<mapsto> k ?e r))(t := None))"
    using Act.IH [OF rangeI rangeI, of "P(t \<mapsto> k ?e r)" ?e r "f ?e r" ins] by (metis fun_upd_same)
  with runs_cons [where step = "thread_step e", OF s] show ?case by (simp del: fun_upd_apply) blast
next
  case (Await k)
  have s: "thread_step e (r, P) (now, wall, TInput t (hd ins)) (r, P(t \<mapsto> k (hd ins)))"
    by (rule thread_input) (rule Await.prems)
  obtain evs where "runs (thread_step e) (r, P(t \<mapsto> k (hd ins))) evs
      (snd (exec (k (hd ins)) (e\<lparr>e_now := now, e_wall := wall\<rparr>) (tl ins, r)), (P(t \<mapsto> k (hd ins)))(t := None))"
    using Await.IH [OF rangeI, of "P(t \<mapsto> k (hd ins))"] by (metis fun_upd_same)
  with runs_cons [where step = "thread_step e", OF s] show ?case by (simp del: fun_upd_apply) blast
qed

lemma runs_thread:
  assumes "P t = None" and "may_begin r t"
    and "r' = snd (exec (thread_code e t) (e\<lparr>e_now := now, e_wall := wall\<rparr>) (ins, r))"
  shows "\<exists>evs. runs (thread_step e) (r, P) evs (r', P)"
proof -
  have s: "thread_step e (r, P) (now, wall, TBegin t) (r, P(t \<mapsto> thread_code e t))"
    by (rule thread_begin) (use assms in auto)
  have "\<exists>evs. runs (thread_step e) (r, P(t \<mapsto> thread_code e t)) evs (r', P)"
    using runs_exec [of "P(t \<mapsto> thread_code e t)" t "thread_code e t" e r wall now ins] assms(1,3)
    by (simp add: fun_upd_idem)
  with runs_cons [where step = "thread_step e", OF s] show ?thesis by blast
qed

lemma runs_reader:
  assumes "P (Reader c) = None" and "c \<in> dom (readers r)"
  shows "\<exists>evs. runs (thread_step e) (r, P) evs (read_loop (e\<lparr>e_now := now, e_wall := wall\<rparr>) c inp r, P)"
  by (rule runs_thread [where t = "Reader c" and ins = "inputs_of inp"]) (use assms in \<open>simp_all add: exec_read_loop_t\<close>)

lemma atomic_step_scheduled:
  assumes "server_step e r (now, wall, ev) r'" and idle: "\<And>t. P t = None"
  shows "\<exists>evs. runs (thread_step e) (r, P) evs (r', P)"
proof (cases "elementary ev")
  case True
  from runs_cons [where step = "thread_step e", OF thread_env [OF True assms(1)] runs_nil] show ?thesis by blast
next
  case False
  with assms(1) consider c inp where "c \<in> dom (readers r)" "r' = read_loop (e\<lparr>e_now := now, e_wall := wall\<rparr>) c inp r"
    | "r' = check_heartbeats (e\<lparr>e_now := now, e_wall := wall\<rparr>) r"
    by (cases rule: server_step.cases) auto
  then show ?thesis
  proof cases
    case 1
    with runs_reader [of P c r e wall now inp] idle show ?thesis by simp
  next
    case 2
    then show ?thesis
      by (intro runs_thread [where t = HbTimer]) (simp_all add: idle exec_check_heartbeats_t)
  qed
qed

lemma atomic_run_scheduled:
  "runs (server_step e) r evs r' \<Longrightarrow> \<exists>tevs. runs (thread_step e) (r, Map.empty) tevs (r', Map.empty)"
proof (induction rule: runs.induct)
  case (runs_nil s)
  then show ?case using runs.runs_nil [where step = "thread_step e"] by blast
next
  case (runs_snoc s es t ev u)
  obtain now wall x where "ev = (now, wall, x)" by (cases ev)
  with runs_snoc.hyps(2) atomic_step_scheduled [of e t now wall x u Map.empty] runs_snoc.IH runs_append show ?case by fast
qed

lemma reachable_scheduled: "reachable e cfg0 r \<Longrightarrow> reachable_threads e cfg0 (r, Map.empty)"
  using atomic_run_scheduled unfolding reachable_def reachable_threads_def by blast

subsection \<open>Properties\<close>

text \<open>
  C5. Registration is sound under every interleaving.  However the threads of the server are
  interrupted between two critical sections or database calls, the connections registered for a user are distinct, at
  least one and at most \<^verbatim>\<open>max_connections_per_user\<close>, and each of them is a session with that very number whose
  read loop is running and which is logged in as exactly that user.
\<close>

theorem registration_sound_interleaved:
  assumes "reachable_threads e cfg0 (r, P)" and "1 \<le> max_connections_per_user (session cfg0)"
    and "user_deque r uid = Some q"
  shows "q \<noteq> [] \<and> distinct q \<and> int (length q) \<le> max_connections_per_user (session cfg0) \<and>
    (\<forall>c \<in> set q. c \<in> dom (readers r) \<and>
       (\<exists>s. heap r c = Some s \<and> conn_id s = c \<and> logged_in s \<and> user_id s = uid))"
proof -
  from reachable_threads_inv [OF assms(1,2)] have inv: "relay_inv cfg0 r" by (simp add: system_inv_def)
  have "deque_ok r uid q" "r_cfg r = cfg0" using relay_invD(1,3) [OF inv] assms(3) by auto
  then show ?thesis using relay_invD(2) [OF inv] unfolding deque_ok_def by blast
qed

theorem registration_sound_interleaved_witness:
  "\<exists>s. heap second_run 1 = Some s \<and> conn_id s = 1 \<and> logged_in s \<and> user_id s = 2"
  using registration_sound_interleaved [OF reachable_scheduled [OF second_run_reachable], of 2 "[1]"] second_run_facts by simp

end
