(* ===== verification/Interleaved_Server.thy ===== *)
theory Interleaved_Server
  imports Relay_Threads
begin

text \<open>
  What the invariant of the threads says about the whole server: bounds, the life time of what is stored about users and connections,
  and delivery.  All of it holds between any two actions of the threads.
\<close>

lemma threads_relay_inv:
  assumes "reachable_threads e cfg0 (r, P)" and "1 \<le> max_connections_per_user (session cfg0)"
  shows "relay_inv cfg0 r"
  using reachable_threads_inv [OF assms] by (simp add: system_inv_def)

lemma deliver_locked_unfold:
  "deliver_locked e su sc du p sq uid r =
    (if list_user_connections uid r = [] then r
     else if mode_of r uid = kBroadcast then broadcast_loop e su sc du p sq 0 (list_user_connections uid r) r
     else send_deliver e su sc du p sq
       (list_user_connections uid r ! unat (rr_cursor r uid mod word_of_nat (length (list_user_connections uid r))))
       (r\<lparr>rr_next_index := (rr_next_index r)(uid \<mapsto> rr_cursor r uid + 1)\<rparr>))"
  by (auto simp: deliver_locked_def list_user_connections_def mode_of_def rr_cursor_def Let_def split: option.splits)

lemma deliver_locked_posts:
  assumes "distinct (list_user_connections uid r)" and "length (list_user_connections uid r) < 2 ^ 64"
  shows "heap (deliver_locked e su sc du p sq uid r) =
    post_all (\<lambda>c. if c \<in> set (recipients r uid) then [PostSend (deliver_frame e su sc du p sq r c)] else []) (heap r)"
proof -
  have "deliver_frame e su sc du p sq (r\<lparr>rr_next_index := x\<rparr>) = deliver_frame e su sc du p sq r" for x
    by (simp add: deliver_frame_def the_sess_def fun_eq_iff)
  then show ?thesis using assms
    by (auto simp: deliver_locked_unfold recipients_def broadcast_loop_heap heap_send_deliver
        unat_mod_length Let_def cong: if_cong intro!: arg_cong2 [where f = post_all])
qed

lemma recipient_logged_in:
  assumes "relay_inv cfg0 r" and "c \<in> set (recipients r uid)"
  shows "\<exists>s. heap r c = Some s \<and> conn_id s = c \<and> sock_open s \<and> logged_in s \<and> user_id s = uid"
proof -
  have "c \<in> set (list_user_connections uid r)" using assms(2) recipients_subset [of r uid] by blast
  then obtain q where "user_deque r uid = Some q" "c \<in> set q" "is_open r c"
    by (cases "user_deque r uid") (auto simp: list_user_connections_def)
  with relay_invD(2,3) [OF assms(1)] show ?thesis by (fastforce simp: deque_ok_def is_open_def)
qed

subsection \<open>Properties\<close>

text \<open>
  C13. Payloads reach exactly the addressed user, under every interleaving.  Wherever the other threads stand when a delivery enters its critical
  section, it posts one DELIVER frame to each recipient, with that connection's own number, and changes no other
  session; and every recipient is a session that is open and logged in as the user the delivery is for.
\<close>

theorem delivery_exact_interleaved:
  assumes "reachable_threads e cfg0 (r, P)" and "1 \<le> max_connections_per_user (session cfg0)"
    and "max_connections_per_user (session cfg0) < 2 ^ 64"
  shows "heap (deliver_locked e src src_conn dst payload sq uid r) =
      post_all (\<lambda>c. if c \<in> set (recipients r uid)
        then [PostSend (pack_wire kMsgDeliver sq (e_pack e (pack_deliver_envelope payload src_conn c src dst)))] else []) (heap r) \<and>
    (\<forall>c \<in> set (recipients r uid). \<exists>s. heap r c = Some s \<and> sock_open s \<and> logged_in s \<and> user_id s = uid)"
proof -
  note inv = threads_relay_inv [OF assms(1,2)]
  have "conn_id (the_sess r c) = c" if "c \<in> set (recipients r uid)" for c
    using recipient_logged_in [OF inv that] by auto
  then have "heap (deliver_locked e src src_conn dst payload sq uid r) =
      post_all (\<lambda>c. if c \<in> set (recipients r uid)
        then [PostSend (pack_wire kMsgDeliver sq (e_pack e (pack_deliver_envelope payload src_conn c src dst)))] else []) (heap r)"
    using deliver_locked_posts [OF connections_bounded [OF inv assms(2,3)], of e src src_conn dst payload sq]
    unfolding deliver_frame_def by (auto intro!: arg_cong2 [where f = post_all])
  moreover have "\<exists>s. heap r c = Some s \<and> sock_open s \<and> logged_in s \<and> user_id s = uid" if "c \<in> set (recipients r uid)" for c
    using recipient_logged_in [OF inv that] by blast
  ultimately show ?thesis by blast
qed

theorem delivery_exact_interleaved_witness:
  "\<exists>s. heap second_run 1 = Some s \<and> sock_open s \<and> logged_in s \<and> user_id s = 2"
proof -
  have "1 \<in> set (recipients second_run 2)"
    using second_run_facts relay_invD(1) [OF reachable_inv [OF second_run_reachable]]
    by (auto simp: recipients_def list_user_connections_def is_open_def mode_of_def shipped_config_def default_config_def
        default_session_policy_def)
  then show ?thesis
    using delivery_exact_interleaved [OF reachable_scheduled [OF second_run_reachable], of "''al''" 9 "''bob''" "''hi''" 5 2]
    by (simp add: shipped_config_def default_config_def default_session_policy_def)
qed

text \<open>
  C33. The receive mode lives as long as the user has connections, under every interleaving.  A receive mode is
  stored for exactly the users with a registered connection, and a round robin cursor only for
  such users: the mode a first login chose is forgotten when the user's last connection goes.
\<close>

theorem recv_mode_lifetime:
  assumes "reachable_threads e cfg0 (r, P)" and "1 \<le> max_connections_per_user (session cfg0)"
  shows "dom (user_recv_mode r) = dom (user_deque r) \<and> dom (rr_next_index r) \<subseteq> dom (user_deque r)"
  using relay_invD(4,5) [OF threads_relay_inv [OF assms]] by blast

theorem recv_mode_lifetime_witness: "dom (user_recv_mode first_run) = {}"
  using recv_mode_lifetime [OF reachable_scheduled [OF first_run_reachable]] by (simp add: first_run_facts)

text \<open>
  C21. A connection whose read loop has ended is forgotten for good, under every interleaving.  Once an accepted connection has been
  removed at the end of its read loop, it is in no user's deque, whether open or not, not in \<^verbatim>\<open>by_id_\<close> and not in \<^verbatim>\<open>all_\<close>, neither then nor
  after any further steps of the threads: no later login, delivery, kick or heartbeat check registers or finds it again.
\<close>

theorem ended_connection_forgotten:
  assumes "reachable_threads e cfg0 (r, P)" and "1 \<le> max_connections_per_user (session cfg0)"
    and "heap r c = Some s" and "readers r c = None" and "runs (thread_step e) (r, P) evs (r', P')"
  shows "by_id r' c = None \<and> c \<notin> set (all_sessions r') \<and> (\<forall>uid q. user_deque r' uid = Some q \<longrightarrow> c \<notin> set q) \<and>
    readers r' c = None"
proof -
  note inv = reachable_threads_inv [OF assms(1,2)]
  then have "c \<le> next_conn_id r" using relay_invD(2) [of cfg0 r c s] assms(3) by (simp add: system_inv_def)
  with inv assms(2,4) gone.inv_runs [OF assms(5), of cfg0 c] have sys: "system_inv cfg0 (r', P')" "departed c (r', P')"
    by (simp_all add: departed_def)
  then have none: "readers r' c = None" and D: "relay_inv cfg0 r'" by (simp_all add: departed_def system_inv_def)
  have "c \<notin> set q" if "user_deque r' uid = Some q" for uid q
    using relay_invD(3) [OF D that] none by (auto simp: deque_ok_def)
  with relay_invD(7,10) [OF D] none show ?thesis by (auto simp: domIff)
qed

text \<open>Bob's connection is closed by its peer; then another client connects.\<close>

definition departed_run :: "sql_db relay" where
  "departed_run = read_loop (demo_env\<lparr>e_now := 8, e_wall := 9\<rparr>) 1 \<lparr>ri_header = None, ri_body = None, ri_time = 8\<rparr> second_run"

definition later_run :: "sql_db relay" where
  "later_run = accept_clients (demo_env\<lparr>e_now := 9, e_wall := 10\<rparr>) (Inr None) departed_run"

lemma departed_run_facts:
  "\<exists>s. heap departed_run 1 = Some s" "readers departed_run 1 = None" "next_conn_id departed_run = 1"
  "reachable_threads demo_env shipped_config (departed_run, Map.empty)"
proof -
  obtain s where s: "heap second_run 1 = Some s" "\<not> stopped s" using second_run_facts by blast
  have cf: "r_cfg second_run = shipped_config" using relay_invD(1) [OF reachable_inv [OF second_run_reachable]]
    by (simp add: shipped_config_def default_config_def default_session_policy_def)
  have ex: "departed_run = read_loop_exit 1 second_run"
    using s second_run_facts cf
    by (simp add: departed_run_def read_loop_def read_loop_step_def Let_def) (simp add: shipped_config_def default_config_def)
  have "heap (remove_session 1 r) = heap r" "next_conn_id (remove_session 1 r) = next_conn_id r" for r :: "sql_db relay"
    by (simp_all add: remove_session_def Let_def split: option.split)
  then show "\<exists>s. heap departed_run 1 = Some s" "readers departed_run 1 = None" "next_conn_id departed_run = 1"
    using s second_run_facts by (simp_all add: ex read_loop_exit_def Let_def)
  obtain ol wall r0 evs where "start demo_env ol (new_relay shipped_config wall) = (r0, Inr ())"
      "runs (thread_step demo_env) (r0, Map.empty) evs (second_run, Map.empty)"
    using reachable_scheduled [OF second_run_reachable] unfolding reachable_threads_def by blast
  moreover have "\<exists>evs. runs (thread_step demo_env) (second_run, Map.empty) evs (departed_run, Map.empty)"
    unfolding departed_run_def by (rule runs_reader) (use second_run_facts in simp_all)
  ultimately show "reachable_threads demo_env shipped_config (departed_run, Map.empty)"
    unfolding reachable_threads_def using runs_append [where step = "thread_step demo_env"] by blast
qed

theorem ended_connection_forgotten_witness:
  "user_deque second_run 2 = Some [1] \<and> by_id later_run 1 = None \<and> 1 \<notin> set (all_sessions later_run) \<and>
   1 \<notin> set (case user_deque later_run 2 of Some q \<Rightarrow> q | None \<Rightarrow> [])"
proof -
  obtain s where s: "heap departed_run 1 = Some s" using departed_run_facts(1) by blast
  have "thread_step demo_env (departed_run, Map.empty) (9, 10, TEnv (SAccept (Inr None))) (later_run, Map.empty)"
    unfolding later_run_def by (intro thread_env server_accept) (simp_all add: departed_run_facts)
  from runs_cons [where step = "thread_step demo_env", OF this runs_nil]
  have run: "runs (thread_step demo_env) (departed_run, Map.empty) [(9, 10, TEnv (SAccept (Inr None)))] (later_run, Map.empty)" .
  show ?thesis
    using ended_connection_forgotten [OF departed_run_facts(4) _ s departed_run_facts(2) run] second_run_facts
    by (auto simp: shipped_config_def default_config_def default_session_policy_def split: option.split)
qed

text \<open>
  C26. Flow control and the event log hold for the whole server, under every interleaving.  Every session that is
  not being kicked has at most \<^verbatim>\<open>high_water_bytes\<close> queued, with exact accounting while it is not
  stopped, and the event log has at most \<^verbatim>\<open>events_max\<close> entries.
\<close>

theorem server_memory_bounded:
  assumes "reachable_threads e cfg0 (r, P)" and "1 \<le> max_connections_per_user (session cfg0)"
  shows "length (events r) \<le> nat (events_max (admin cfg0)) \<and>
    (\<forall>c s. heap r c = Some s \<longrightarrow>
      (\<not> kick_pending s \<longrightarrow> queued_bytes s \<le> unat (high_water_bytes (flow cfg0))) \<and>
      (\<not> stopped s \<longrightarrow> pending_bytes s = queued_bytes s))"
  using relay_invD(2,11) [OF threads_relay_inv [OF assms]] by (auto simp: session_inv_def events_ok_def)

theorem server_memory_bounded_witness: "length (events first_run) \<le> 200"
  using server_memory_bounded [OF reachable_scheduled [OF first_run_reachable]]
  by (simp add: shipped_config_def default_config_def default_session_policy_def)

end
