(* ===== verification/Admin_Http.thy ===== *)
theory Admin_Http
  imports Interleaved_Server
begin

text \<open>
  The read-only HTTP interface of \<^verbatim>\<open>RelayServer\<close> (\<^verbatim>\<open>main.cpp\<close>): the hand-written JSON builders and the
  routing of \<^verbatim>\<open>handle_admin\<close>.

  Boost.Beast parses the request and writes the response: \<open>http_request\<close> and \<open>http_response\<close> are the
  parts of its messages that the code reads and sets, \<^verbatim>\<open>prepare_payload\<close> is a parameter.  A header field
  set twice keeps the last value, so the fields are a map.

  The builders concatenate strings.  The second half of the theory gives JSON values, a reference
  parser for the JSON of the admin pages (RFC 8259 without white space, fractions and \<^verbatim>\<open>\u\<close> escapes,
  none of which the builders emit) and shows that every page is well-formed and parses to the
  values the server holds, whatever bytes user names contain.
\<close>

subsection \<open>Escaping\<close>

fun json_escape :: "string \<Rightarrow> string" where
  "json_escape [] = []"
| "json_escape (c # cs) =
     (if c = CHR 0x22 then [CHR 0x5C, CHR 0x22]
      else if c = CHR 0x5C then [CHR 0x5C, CHR 0x5C]
      else if c = CHR 0x0A then [CHR 0x5C, CHR ''n'']
      else if c = CHR 0x0D then [CHR 0x5C, CHR ''r'']
      else if c = CHR 0x09 then [CHR 0x5C, CHR ''t'']
      else if (of_char c :: nat) < 0x20 then ''?''
      else [c]) @ json_escape cs"

text \<open>A string literal of the builders in double quotes.\<close>

definition quoted :: "string \<Rightarrow> string" where
  "quoted s = [CHR 0x22] @ s @ [CHR 0x22]"

subsection \<open>The builders\<close>

definition stat_field :: "string \<Rightarrow> nat \<Rightarrow> string" where
  "stat_field k n = quoted k @ '':'' @ dec_digits n"

definition build_stats_json :: "'db env \<Rightarrow> 'db relay \<Rightarrow> 'db relay \<times> string" where
  "build_stats_json e r =
     (case snapshot_stats e r of (r, s) \<Rightarrow>
        (r, ''{'' @
            stat_field ''ts_ms'' (unat (st_ts_ms s)) @ '','' @
            stat_field ''started_ms'' (unat (st_started_ms s)) @ '','' @
            stat_field ''sessions_alive'' (sessions_alive s) @ '','' @
            stat_field ''sessions_logged_in'' (sessions_logged_in s) @ '','' @
            stat_field ''unique_users'' (unique_users s) @ '','' @
            stat_field ''pending_bytes'' (st_pending_bytes s) @ '','' @
            stat_field ''frames_in'' (unat (st_frames_in s)) @ '','' @
            stat_field ''bytes_in'' (unat (st_bytes_in s)) @ '','' @
            stat_field ''frames_out'' (unat (st_frames_out s)) @ '','' @
            stat_field ''bytes_out'' (unat (st_bytes_out s)) @ '','' @
            stat_field ''drops'' (unat (st_drops s)) @
            ''}''))"

text \<open>The two nested loops of \<^verbatim>\<open>build_users_json\<close>; \<open>fc\<close> and \<open>first\<close> are the flags before the comma.\<close>

fun conns_json :: "'db relay \<Rightarrow> bool \<Rightarrow> u64 list \<Rightarrow> string \<Rightarrow> string" where
  "conns_json r fc [] j = j"
| "conns_json r fc (c # cs) j =
     (if \<not> is_open r c then conns_json r fc cs j
      else
        (let s = the_sess r c;
             j = (if \<not> fc then j @ '','' else j);
             j = j @ ''{'' @ quoted ''conn_id'' @ '':'' @ dec_digits (unat (conn_id s));
             j = j @ '','' @ quoted ''endpoint'' @ '':'' @ quoted (json_escape (endpoint_str s)) @
                 '','' @ quoted ''pending_bytes'' @ '':'' @ dec_digits (pending_bytes s) @ ''}''
         in conns_json r False cs j))"

fun first_admin :: "'db relay \<Rightarrow> u64 list \<Rightarrow> bool" where
  "first_admin r [] = False"
| "first_admin r (c # cs) = (if logged_in (the_sess r c) then is_admin (the_sess r c) else first_admin r cs)"

definition user_json :: "'db relay \<Rightarrow> u64 \<Rightarrow> u64 list \<Rightarrow> string \<Rightarrow> string" where
  "user_json r uid dq j =
     (let uname = (case uid_to_username r uid of Some n \<Rightarrow> n | None \<Rightarrow> []);
          j = j @ ''{'' @ quoted ''user_id'' @ '':'' @ dec_digits (unat uid);
          j = j @ '','' @ quoted ''username'' @ '':'' @ quoted (json_escape uname);
          j = j @ '','' @ quoted ''is_admin'' @ '':'' @ (if first_admin r dq then ''true'' else ''false'');
          rms = (case user_recv_mode r uid of Some m \<Rightarrow> recv_mode_cstr m | None \<Rightarrow> ''broadcast'');
          j = j @ '','' @ quoted ''recv_mode'' @ '':'' @ quoted (json_escape rms);
          j = j @ '','' @ quoted ''connections'' @ '':['';
          j = conns_json r True dq j
      in j @ '']}'')"

fun users_json :: "'db relay \<Rightarrow> bool \<Rightarrow> u64 list \<Rightarrow> string \<Rightarrow> string" where
  "users_json r first [] j = j"
| "users_json r first (uid # uids) j =
     (let j = (if \<not> first then j @ '','' else j);
          j = user_json r uid (case user_deque r uid of Some dq \<Rightarrow> dq | None \<Rightarrow> []) j
      in users_json r False uids j)"

definition build_users_json :: "'db env \<Rightarrow> 'db relay \<Rightarrow> string" where
  "build_users_json e r =
     (let j = ''{'' @ quoted ''users'' @ '':['';
          j = users_json r True (e_order e (user_deque r)) j
      in j @ '']}'')"

fun events_json :: "bool \<Rightarrow> AdminEvent list \<Rightarrow> string \<Rightarrow> string" where
  "events_json first [] j = j"
| "events_json first (ev # evs) j =
     (let j = (if \<not> first then j @ '','' else j);
          j = j @ ''{'';
          j = j @ quoted ''ts_ms'' @ '':'' @ dec_digits (unat (ev_ts_ms ev)) @ '','';
          j = j @ quoted ''level'' @ '':'' @ quoted (ev_level ev) @ '','';
          j = j @ quoted ''msg'' @ '':'' @ quoted (json_escape (ev_msg ev));
          j = j @ ''}''
      in events_json False evs j)"

definition build_events_json :: "'db relay \<Rightarrow> string" where
  "build_events_json r = events_json True (events r) (''{'' @ quoted ''events'' @ '':['') @ '']}''"

subsection \<open>Routing\<close>

datatype verb = verb_get | verb_options | verb_other

record http_request =
  rq_version :: nat
  rq_method :: verb
  rq_target :: string

record http_response =
  rs_version :: nat
  rs_keep_alive :: bool
  rs_result :: nat
  rs_fields :: "string \<rightharpoonup> string"
  rs_body :: string

definition new_response :: http_response where
  "new_response = \<lparr>rs_version = 11, rs_keep_alive = True, rs_result = 200, rs_fields = Map.empty, rs_body = []\<rparr>"

definition set_field :: "string \<Rightarrow> string \<Rightarrow> http_response \<Rightarrow> http_response" where
  "set_field k v res = res\<lparr>rs_fields := (rs_fields res)(k \<mapsto> v)\<rparr>"

definition add_admin_cors :: "http_response \<Rightarrow> http_response" where
  "add_admin_cors res =
     set_field ''Access-Control-Allow-Headers'' ''Content-Type, Authorization''
       (set_field ''Access-Control-Allow-Methods'' ''GET, OPTIONS''
         (set_field ''Access-Control-Allow-Origin'' ''*'' res))"

definition error_json :: "string \<Rightarrow> string" where
  "error_json m = ''{'' @ quoted ''error'' @ '':'' @ quoted m @ ''}''"

definition health_json :: string where
  "health_json = ''{'' @ quoted ''ok'' @ '':true}''"

text \<open>\<open>None\<close> for the request is a read error or the expiry of the stream's ten seconds: no answer.\<close>

definition handle_admin :: "'db env \<Rightarrow> (http_response \<Rightarrow> http_response) \<Rightarrow> http_request option \<Rightarrow> 'db relay \<Rightarrow>
    'db relay \<times> http_response option" where
  "handle_admin e prepare_payload rq r =
     (case rq of
        None \<Rightarrow> (r, None)
      | Some req \<Rightarrow>
          (let res = new_response\<lparr>rs_version := rq_version req\<rparr>;
               res = res\<lparr>rs_keep_alive := False\<rparr>;
               res = set_field ''Server'' ''asio-relay-admin'' res;
               target = rq_target req
           in if rq_method req = verb_options then
                (r, Some (prepare_payload (add_admin_cors (res\<lparr>rs_result := 204\<rparr>))))
              else if rq_method req \<noteq> verb_get then
                (let res = set_field ''Content-Type'' ''application/json; charset=utf-8'' res;
                     res = res\<lparr>rs_result := 405, rs_body := error_json ''method_not_allowed''\<rparr>
                 in (r, Some (prepare_payload (add_admin_cors res))))
              else
                (let res = set_field ''Content-Type'' ''application/json; charset=utf-8'' res;
                     res = add_admin_cors res
                 in if target = ''/api/health'' \<or> target = ''/health'' then
                      (r, Some (prepare_payload (res\<lparr>rs_result := 200, rs_body := health_json\<rparr>)))
                    else if target = ''/api/stats'' then
                      (case build_stats_json e r of
                         (r, j) \<Rightarrow> (r, Some (prepare_payload (res\<lparr>rs_result := 200, rs_body := j\<rparr>))))
                    else if target = ''/api/events'' then
                      (r, Some (prepare_payload (res\<lparr>rs_result := 200, rs_body := build_events_json r\<rparr>)))
                    else if target = ''/api/users'' then
                      (r, Some (prepare_payload (res\<lparr>rs_result := 200, rs_body := build_users_json e r\<rparr>)))
                    else (r, Some (prepare_payload (res\<lparr>rs_result := 404, rs_body := error_json ''not_found''\<rparr>))))))"

subsection \<open>JSON values and their text\<close>

datatype json = JNum nat | JBool bool | JStr string | JArr "json list" | JObj "(string \<times> json) list"

lemma json_size_elem [termination_simp]: "v \<in> set vs \<Longrightarrow> size v < Suc (size_list size vs)"
  by (simp add: size_list_estimation' less_Suc_eq_le)

lemma json_size_member [termination_simp]:
  assumes "kv \<in> set kvs"
  shows "size (snd kv) < Suc (size_list (size_prod (\<lambda>_. 0) size) kvs)"
proof -
  have "size_prod (\<lambda>_. 0) size kv \<le> size_list (size_prod (\<lambda>_. 0) size) kvs"
    using assms by (simp add: size_list_estimation')
  then show ?thesis by (cases kv) simp
qed

fun commas :: "string list \<Rightarrow> string" where
  "commas [] = []"
| "commas [x] = x"
| "commas (x # y # ys) = x @ '','' @ commas (y # ys)"

fun render :: "json \<Rightarrow> string" where
  "render (JNum n) = dec_digits n"
| "render (JBool b) = (if b then ''true'' else ''false'')"
| "render (JStr s) = quoted (json_escape s)"
| "render (JArr vs) = ''['' @ commas (map render vs) @ '']''"
| "render (JObj kvs) = ''{'' @ commas (map (\<lambda>kv. quoted (json_escape (fst kv)) @ '':'' @ render (snd kv)) kvs) @ ''}''"

text \<open>Control characters without an escape are replaced by question marks on the page.\<close>

definition page_char :: "char \<Rightarrow> char" where
  "page_char c =
     (if (of_char c :: nat) < 0x20 \<and> c \<noteq> CHR 0x0A \<and> c \<noteq> CHR 0x0D \<and> c \<noteq> CHR 0x09 then CHR ''?'' else c)"

abbreviation page_text :: "string \<Rightarrow> string" where
  "page_text \<equiv> map page_char"

fun page_value :: "json \<Rightarrow> json" where
  "page_value (JNum n) = JNum n"
| "page_value (JBool b) = JBool b"
| "page_value (JStr s) = JStr (page_text s)"
| "page_value (JArr vs) = JArr (map page_value vs)"
| "page_value (JObj kvs) = JObj (map (\<lambda>kv. (page_text (fst kv), page_value (snd kv))) kvs)"

subsection \<open>A reference parser\<close>

definition digit :: "char \<Rightarrow> bool" where
  "digit c \<longleftrightarrow> 48 \<le> (of_char c :: nat) \<and> (of_char c :: nat) \<le> 57"

definition number_of :: "string \<Rightarrow> nat" where
  "number_of = foldl (\<lambda>a c. 10 * a + (of_char c - 48)) 0"

definition unescape :: "char \<Rightarrow> char option" where
  "unescape c =
     (if c = CHR 0x22 \<or> c = CHR 0x5C \<or> c = CHR ''/'' then Some c
      else if c = CHR ''n'' then Some (CHR 0x0A)
      else if c = CHR ''r'' then Some (CHR 0x0D)
      else if c = CHR ''t'' then Some (CHR 0x09)
      else if c = CHR ''b'' then Some (CHR 0x08)
      else if c = CHR ''f'' then Some (CHR 0x0C)
      else None)"

fun parse_str :: "string \<Rightarrow> (string \<times> string) option" where
  "parse_str [] = None"
| "parse_str (c # cs) =
     (if c = CHR 0x22 then Some ([], cs)
      else if c = CHR 0x5C then
        (case cs of
           [] \<Rightarrow> None
         | d # ds \<Rightarrow> (case unescape d of
                        None \<Rightarrow> None
                      | Some x \<Rightarrow> map_option (apfst (Cons x)) (parse_str ds)))
      else if (of_char c :: nat) < 0x20 then None
      else map_option (apfst (Cons c)) (parse_str cs))"

fun parse_val :: "nat \<Rightarrow> string \<Rightarrow> (json \<times> string) option"
  and parse_elems :: "nat \<Rightarrow> string \<Rightarrow> (json list \<times> string) option"
  and parse_members :: "nat \<Rightarrow> string \<Rightarrow> ((string \<times> json) list \<times> string) option" where
  "parse_val 0 s = None"
| "parse_val (Suc f) s =
     (case s of
        [] \<Rightarrow> None
      | c # cs \<Rightarrow>
          if c = CHR 0x22 then map_option (apfst JStr) (parse_str cs)
          else if digit c then Some (JNum (number_of (takeWhile digit s)), dropWhile digit s)
          else if c = CHR ''['' then
            (if take 1 cs = '']'' then Some (JArr [], drop 1 cs) else map_option (apfst JArr) (parse_elems f cs))
          else if c = CHR 0x7B then
            (if take 1 cs = ''}'' then Some (JObj [], drop 1 cs) else map_option (apfst JObj) (parse_members f cs))
          else if take 4 s = ''true'' then Some (JBool True, drop 4 s)
          else if take 5 s = ''false'' then Some (JBool False, drop 5 s)
          else None)"
| "parse_elems 0 s = None"
| "parse_elems (Suc f) s =
     (case parse_val f s of
        Some (v, c # r) \<Rightarrow>
          if c = CHR '','' then map_option (apfst (Cons v)) (parse_elems f r)
          else if c = CHR '']'' then Some ([v], r)
          else None
      | _ \<Rightarrow> None)"
| "parse_members 0 s = None"
| "parse_members (Suc f) s =
     (case s of
        [] \<Rightarrow> None
      | q # cs \<Rightarrow>
          if q \<noteq> CHR 0x22 then None
          else (case parse_str cs of
                  Some (k, c # r) \<Rightarrow>
                    if c \<noteq> CHR '':'' then None
                    else (case parse_val f r of
                            Some (v, d # r') \<Rightarrow>
                              if d = CHR '','' then map_option (apfst (Cons (k, v))) (parse_members f r')
                              else if d = CHR ''}'' then Some ([(k, v)], r')
                              else None
                          | _ \<Rightarrow> None)
                | _ \<Rightarrow> None))"

definition json_parse :: "string \<Rightarrow> json option" where
  "json_parse s = (case parse_val (length s) s of Some (v, []) \<Rightarrow> Some v | _ \<Rightarrow> None)"

subsection \<open>The parser inverts the printer\<close>

lemma parse_str_escape: "parse_str (json_escape s @ CHR 0x22 # r) = Some (page_text s, r)"
  by (induction s) (auto simp: page_char_def unescape_def)

lemma digit_char_of: "(n :: nat) < 10 \<Longrightarrow> digit (char_of (48 + n))"
  by (simp add: digit_def)

lemma dec_digits_digits: "list_all digit (dec_digits n)"
proof (induction n rule: dec_digits.induct)
  case (1 n)
  then show ?case by (subst dec_digits.simps) (simp add: digit_char_of)
qed

lemma number_of_dec_digits: "number_of (dec_digits n) = n"
proof (induction n rule: dec_digits.induct)
  case (1 n)
  have m: "(of_char (char_of (48 + n mod 10) :: char) :: nat) = 48 + n mod 10"
    by (simp add: of_char_of)
  show ?case
  proof (cases "n < 10")
    case True
    then show ?thesis by (subst dec_digits.simps) (simp add: number_of_def)
  next
    case False
    with 1 have "number_of (dec_digits (n div 10)) = n div 10" by simp
    with False m show ?thesis by (subst dec_digits.simps) (simp add: number_of_def)
  qed
qed

lemma takeWhile_digits:
  "\<lbrakk>list_all digit ds; r = [] \<or> \<not> digit (hd r)\<rbrakk> \<Longrightarrow> takeWhile digit (ds @ r) = ds \<and> dropWhile digit (ds @ r) = r"
  by (induction ds) (cases r; auto)+

definition parses :: "json \<Rightarrow> bool" where
  "parses v \<longleftrightarrow> (\<forall>f r. length (render v) \<le> f \<longrightarrow> (r = [] \<or> \<not> digit (hd r)) \<longrightarrow> parse_val f (render v @ r) = Some (page_value v, r))"

lemma hd_dec_digits_digit: "digit (hd (dec_digits n))"
  using dec_digits_digits [of n] dec_digits_ne [of n] by (cases "dec_digits n") auto

lemma not_digit [simp]: "\<not> digit CHR '',''" "\<not> digit CHR '']''" "\<not> digit CHR ''}''" "\<not> digit CHR 0x22" "\<not> digit CHR ''[''"
    "\<not> digit CHR 0x7B" "\<not> digit CHR ''t''" "\<not> digit CHR ''f''"
  by (simp_all add: digit_def)

lemma render_head: "\<exists>c cs. render v = c # cs \<and> c \<noteq> CHR '']'' \<and> c \<noteq> CHR ''}''"
proof (cases v)
  case (JNum n)
  then show ?thesis using hd_dec_digits_digit [of n] dec_digits_ne [of n] by (cases "dec_digits n") auto
qed (auto simp: quoted_def)

lemma parsesI:
  assumes "\<And>g r. \<lbrakk>length (render v) \<le> Suc g; r = [] \<or> \<not> digit (hd r)\<rbrakk> \<Longrightarrow> parse_val (Suc g) (render v @ r) = Some (page_value v, r)"
  shows "parses v"
  unfolding parses_def
proof (intro allI impI)
  fix f r
  assume "length (render v) \<le> f" "r = [] \<or> \<not> digit (hd r)"
  moreover have "0 < length (render v)" using render_head [of v] by auto
  ultimately show "parse_val f (render v @ r) = Some (page_value v, r)" using assms by (cases f) auto
qed

lemma parses_elems:
  "\<lbrakk>vs \<noteq> []; \<forall>v \<in> set vs. parses v; length (commas (map render vs)) < f\<rbrakk> \<Longrightarrow>
    parse_elems f (commas (map render vs) @ CHR '']'' # r) = Some (map page_value vs, r)"
proof (induction vs arbitrary: f)
  case (Cons v vs)
  then obtain g where f: "f = Suc g" by (cases f) auto
  have v: "parses v" using Cons.prems(2) by simp
  show ?case
  proof (cases vs)
    case Nil
    with v Cons.prems(3) f show ?thesis by (simp add: parses_def)
  next
    case (Cons w ws)
    let ?t = "commas (map render vs) @ CHR '']'' # r"
    have l: "length (render v) \<le> g" "length (commas (map render vs)) < g"
      using Cons.prems(3) f Cons by simp_all
    have "parse_val g (render v @ CHR '','' # ?t) = Some (page_value v, CHR '','' # ?t)"
      using v l(1) by (simp add: parses_def)
    moreover have "parse_elems g ?t = Some (map page_value vs, r)"
      using Cons.IH [of g] Cons Cons.prems(2) l(2) by simp
    ultimately show ?thesis using Cons f by simp
  qed
qed simp

abbreviation member_text :: "string \<times> json \<Rightarrow> string" where
  "member_text kv \<equiv> quoted (json_escape (fst kv)) @ '':'' @ render (snd kv)"

lemma parses_members:
  "\<lbrakk>kvs \<noteq> []; \<forall>kv \<in> set kvs. parses (snd kv); length (commas (map member_text kvs)) < f\<rbrakk> \<Longrightarrow>
    parse_members f (commas (map member_text kvs) @ CHR ''}'' # r) =
      Some (map (\<lambda>kv. (page_text (fst kv), page_value (snd kv))) kvs, r)"
proof (induction kvs arbitrary: f)
  case (Cons kv kvs)
  then obtain g where f: "f = Suc g" by (cases f) auto
  have v: "parses (snd kv)" using Cons.prems(2) by simp
  show ?case
  proof (cases kvs)
    case Nil
    with v Cons.prems(3) f show ?thesis by (simp add: parses_def quoted_def parse_str_escape)
  next
    case (Cons w ws)
    let ?t = "commas (map member_text kvs) @ CHR ''}'' # r"
    have l: "length (render (snd kv)) \<le> g" "length (commas (map member_text kvs)) < g"
      using Cons.prems(3) f Cons by simp_all
    have "parse_val g (render (snd kv) @ CHR '','' # ?t) = Some (page_value (snd kv), CHR '','' # ?t)"
      using v l(1) by (simp add: parses_def)
    moreover have "parse_members g ?t = Some (map (\<lambda>kv. (page_text (fst kv), page_value (snd kv))) kvs, r)"
      using Cons.IH [of g] Cons Cons.prems(2) l(2) by simp
    ultimately show ?thesis using Cons f by (simp add: quoted_def parse_str_escape)
  qed
qed simp

lemma commas_head: "xs \<noteq> [] \<Longrightarrow> (\<exists>c cs. hd xs = c # cs \<and> P c) \<Longrightarrow> \<exists>c cs. commas xs = c # cs \<and> P c"
  by (induction xs rule: commas.induct) auto

lemma parses_render: "parses v"
proof (induction v rule: render.induct)
  case (1 n)
  show ?case
  proof (rule parsesI)
    fix g :: nat and r
    assume r: "r = [] \<or> \<not> digit (hd r)"
    obtain c cs where d: "dec_digits n = c # cs" using dec_digits_ne [of n] by (cases "dec_digits n") auto
    then have "digit c" using hd_dec_digits_digit [of n] by simp
    moreover from this have "c \<noteq> CHR 0x22" by auto
    ultimately show "parse_val (Suc g) (render (JNum n) @ r) = Some (page_value (JNum n), r)"
      using takeWhile_digits [OF dec_digits_digits r, of n] number_of_dec_digits [of n] d by simp
  qed
next
  case (4 vs)
  show ?case
  proof (rule parsesI)
    fix g r
    assume l: "length (render (JArr vs)) \<le> Suc g"
    show "parse_val (Suc g) (render (JArr vs) @ r) = Some (page_value (JArr vs), r)"
    proof (cases "vs = []")
      case False
      then obtain c cs where "commas (map render vs) = c # cs" "c \<noteq> CHR '']''"
        using commas_head [of "map render vs" "\<lambda>c. c \<noteq> CHR '']''"] render_head [of "hd vs"] by (auto simp: hd_map)
      moreover have "parse_elems g (commas (map render vs) @ CHR '']'' # r) = Some (map page_value vs, r)"
        using parses_elems [OF False] 4 l by simp
      ultimately show ?thesis by simp
    qed simp
  qed
next
  case (5 kvs)
  show ?case
  proof (rule parsesI)
    fix g r
    assume l: "length (render (JObj kvs)) \<le> Suc g"
    show "parse_val (Suc g) (render (JObj kvs) @ r) = Some (page_value (JObj kvs), r)"
    proof (cases "kvs = []")
      case False
      then obtain c cs where "commas (map member_text kvs) = c # cs" "c \<noteq> CHR ''}''"
        using commas_head [of "map member_text kvs" "\<lambda>c. c \<noteq> CHR ''}''"] by (auto simp: hd_map quoted_def)
      moreover have "parse_members g (commas (map member_text kvs) @ CHR ''}'' # r) =
          Some (map (\<lambda>kv. (page_text (fst kv), page_value (snd kv))) kvs, r)"
        using parses_members [OF False] 5 l by simp
      ultimately show ?thesis by simp
    qed simp
  qed
qed (rule parsesI, simp add: quoted_def parse_str_escape)+

lemma json_parse_render: "json_parse (render v) = Some (page_value v)"
  using parses_render [of v] by (simp add: parses_def json_parse_def)

subsection \<open>The pages as values\<close>

definition conn_value :: "'db relay \<Rightarrow> u64 \<Rightarrow> json" where
  "conn_value r c =
     JObj [(''conn_id'', JNum (unat (conn_id (the_sess r c)))), (''endpoint'', JStr (endpoint_str (the_sess r c))),
           (''pending_bytes'', JNum (pending_bytes (the_sess r c)))]"

definition user_value :: "'db relay \<Rightarrow> u64 \<Rightarrow> json" where
  "user_value r uid =
     JObj [(''user_id'', JNum (unat uid)),
           (''username'', JStr (case uid_to_username r uid of Some n \<Rightarrow> n | None \<Rightarrow> [])),
           (''is_admin'', JBool (first_admin r (case user_deque r uid of Some dq \<Rightarrow> dq | None \<Rightarrow> []))),
           (''recv_mode'', JStr (case user_recv_mode r uid of Some m \<Rightarrow> recv_mode_cstr m | None \<Rightarrow> ''broadcast'')),
           (''connections'', JArr (map (conn_value r) (list_user_connections uid r)))]"

definition users_value :: "'db env \<Rightarrow> 'db relay \<Rightarrow> json" where
  "users_value e r = JObj [(''users'', JArr (map (user_value r) (e_order e (user_deque r))))]"

definition event_value :: "AdminEvent \<Rightarrow> json" where
  "event_value ev =
     JObj [(''ts_ms'', JNum (unat (ev_ts_ms ev))), (''level'', JStr (ev_level ev)), (''msg'', JStr (ev_msg ev))]"

definition events_value :: "'db relay \<Rightarrow> json" where
  "events_value r = JObj [(''events'', JArr (map event_value (events r)))]"

definition stats_value :: "StatsSnapshot \<Rightarrow> json" where
  "stats_value s =
     JObj [(''ts_ms'', JNum (unat (st_ts_ms s))), (''started_ms'', JNum (unat (st_started_ms s))),
           (''sessions_alive'', JNum (sessions_alive s)), (''sessions_logged_in'', JNum (sessions_logged_in s)),
           (''unique_users'', JNum (unique_users s)), (''pending_bytes'', JNum (st_pending_bytes s)),
           (''frames_in'', JNum (unat (st_frames_in s))), (''bytes_in'', JNum (unat (st_bytes_in s))),
           (''frames_out'', JNum (unat (st_frames_out s))), (''bytes_out'', JNum (unat (st_bytes_out s))),
           (''drops'', JNum (unat (st_drops s)))]"

text \<open>A loop that puts a comma before every item but the first.\<close>

definition listed :: "bool \<Rightarrow> string list \<Rightarrow> string" where
  "listed first xs = (if first \<or> xs = [] then [] else '','') @ commas xs"

lemma listed_simps [simp]:
  "listed first [] = []" "listed first (x # xs) = (if first then [] else '','') @ x @ listed False xs"
  by (cases xs; simp add: listed_def)+

lemma listed_True: "listed True xs = commas xs"
  by (simp add: listed_def)

lemma conns_json_listed:
  "conns_json r fc cs j = j @ listed fc (map (render \<circ> conn_value r) (filter (is_open r) cs))"
  by (induction r fc cs j rule: conns_json.induct) (simp_all add: conn_value_def quoted_def Let_def)

lemma json_escape_mode [simp]: "json_escape (recv_mode_cstr m) = recv_mode_cstr m"
  by (simp add: recv_mode_cstr_def)

lemma user_json_render:
  "user_json r uid (case user_deque r uid of Some dq \<Rightarrow> dq | None \<Rightarrow> []) j = j @ render (user_value r uid)"
  by (simp add: user_json_def user_value_def list_user_connections_def conns_json_listed listed_True quoted_def Let_def
      split: option.splits)

lemma users_json_listed: "users_json r first uids j = j @ listed first (map (render \<circ> user_value r) uids)"
  by (induction r first uids j rule: users_json.induct) (simp_all add: user_json_render Let_def)

lemma build_users_json_render: "build_users_json e r = render (users_value e r)"
  by (simp add: build_users_json_def users_json_listed listed_True users_value_def quoted_def Let_def)

lemma json_escape_level [simp]: "json_escape (level_name lv) = level_name lv"
  by (cases lv) simp_all

lemma events_json_listed:
  "\<forall>ev \<in> set evs. \<exists>lv. ev_level ev = level_name lv \<Longrightarrow>
    events_json first evs j = j @ listed first (map (render \<circ> event_value) evs)"
  by (induction first evs j rule: events_json.induct) (auto simp: event_value_def quoted_def Let_def)

lemma build_events_json_render:
  "\<forall>ev \<in> set (events r). \<exists>lv. ev_level ev = level_name lv \<Longrightarrow> build_events_json r = render (events_value r)"
  by (simp add: build_events_json_def events_json_listed listed_True events_value_def quoted_def)

lemma build_stats_json_render: "build_stats_json e r = (fst (snapshot_stats e r), render (stats_value (snd (snapshot_stats e r))))"
  by (simp add: build_stats_json_def stats_value_def stat_field_def quoted_def split: prod.splits)

subsection \<open>Properties\<close>

text \<open>
  C19. The admin pages are well-formed JSON.  Between any two actions of the server's threads the three pages parse, and their values
  are the registered users with their open connections, the event log, and the statistics; no name
  or message can break out of its string.  Only control characters other than newline, carriage
  return and tab are replaced.
\<close>

theorem admin_pages_parse:
  assumes "reachable_threads e cfg0 (r, P)" and "1 \<le> max_connections_per_user (session cfg0)"
  shows "json_parse (build_users_json e r) = Some (page_value (users_value e r)) \<and>
    json_parse (build_events_json r) = Some (page_value (events_value r)) \<and>
    json_parse (snd (build_stats_json e r)) = Some (page_value (stats_value (snd (snapshot_stats e r))))"
proof -
  have "\<forall>ev \<in> set (events r). \<exists>lv. ev_level ev = level_name lv"
    using relay_invD(11) [OF threads_relay_inv [OF assms]] by (simp add: events_ok_def)
  then show ?thesis
    by (simp add: build_users_json_render build_events_json_render build_stats_json_render json_parse_render)
qed

theorem admin_pages_parse_witness:
  "json_parse (build_users_json demo_env second_run) = Some (page_value (users_value demo_env second_run))"
  using admin_pages_parse [OF reachable_scheduled [OF second_run_reachable]]
  by (simp add: shipped_config_def default_config_def default_session_policy_def)

definition admin_status :: "http_request \<Rightarrow> nat" where
  "admin_status req =
     (case rq_method req of
        verb_options \<Rightarrow> 204
      | verb_other \<Rightarrow> 405
      | verb_get \<Rightarrow> if rq_target req \<in> {''/api/health'', ''/health'', ''/api/stats'', ''/api/events'', ''/api/users''} then 200 else 404)"

lemma reachable_step: "\<lbrakk>reachable e cfg0 r; server_step e r ev r'\<rbrakk> \<Longrightarrow> reachable e cfg0 r'"
  unfolding reachable_def by (meson runs_snoc)

lemma snapshot_step: "server_step e r (e_now e, e_wall e, SMetrics) (fst (snapshot_stats e r))"
  using server_metrics [of e r "e_now e" "e_wall e"] by simp

lemma handle_admin_shape:
  assumes "handle_admin e prep (Some req) r = (r', res)"
  shows "(r' = r \<or> r' = fst (snapshot_stats e r)) \<and>
    (\<exists>x. res = Some (prep x) \<and> rs_result x = admin_status req \<and> \<not> rs_keep_alive x \<and>
      rs_fields x ''Access-Control-Allow-Origin'' = Some ''*'')"
  using assms
  by (cases "rq_method req")
    (auto simp: handle_admin_def admin_status_def add_admin_cors_def set_field_def Let_def build_stats_json_render
      split: if_splits)

text \<open>
  The admin interface only reads.  Every complete request gets exactly one answer: 204 for OPTIONS, 405 for
  any other method than GET, 200 for the five pages and 404 for any other target, always with the
  CORS header and without keep-alive.  The state stays reachable, and nothing but the list
  \<^verbatim>\<open>all_\<close> changes, from which closed sessions may be dropped.
\<close>

lemma admin_requests_only_read:
  assumes "reachable e cfg0 r" and "handle_admin e prepare_payload (Some req) r = (r', res)"
  shows "reachable e cfg0 r' \<and>
    (r' = r \<or> r' = r\<lparr>all_sessions := filter (is_open r) (all_sessions r)\<rparr>) \<and>
    (\<exists>x. res = Some (prepare_payload x) \<and> rs_result x = admin_status req \<and> \<not> rs_keep_alive x \<and>
      rs_fields x ''Access-Control-Allow-Origin'' = Some ''*'')"
  using handle_admin_shape [OF assms(2)] assms(1) reachable_step [OF assms(1) snapshot_step]
  by (auto simp: snapshot_stats_def Let_def)

end
