(* ===== verification/Server_Main.thy ===== *)
theory Server_Main
  imports Admin_Http
begin

text \<open>
  The frame around the server: the log (\<^verbatim>\<open>log.hpp\<close>), the listening sockets, the completion handlers of
  the timers and of the admin acceptor, and \<^verbatim>\<open>main\<close> (all of \<^verbatim>\<open>main.cpp\<close>).

  A completion handler returns the new state, the lines it logs and whether it armed its
  operation again.  \<^verbatim>\<open>now_local()\<close> and the socket calls are parameters: \<open>Some m\<close> is an error with
  message \<open>m\<close>.
\<close>

subsection \<open>Logging\<close>

fun log_level_name :: "Level \<Rightarrow> string" where
  "log_level_name kInfo = ''INFO''"
| "log_level_name kWarn = ''WARN''"
| "log_level_name kError = ''ERROR''"
| "log_level_name kDebug = ''DEBUG''"

text \<open>\<^verbatim>\<open>now_local()\<close> from the text of \<^verbatim>\<open>std::put_time\<close> and the milliseconds since the epoch: \<^verbatim>\<open>setw(3)\<close> with fill \<^verbatim>\<open>0\<close>.\<close>

definition now_local_text :: "string \<Rightarrow> nat \<Rightarrow> string" where
  "now_local_text date ms =
     (let d = dec_digits (ms mod 1000) in date @ ''.'' @ replicate (3 - length d) (CHR ''0'') @ d)"

definition log_write :: "string \<Rightarrow> Level \<Rightarrow> string \<Rightarrow> string" where
  "log_write now_local lv msg = now_local @ '' ['' @ log_level_name lv @ ''] '' @ msg @ [CHR 0x0A]"

definition header_to_string :: "Header \<Rightarrow> string" where
  "header_to_string h =
     ''magic='' @ dec_digits (unat (magic h)) @ '' ver='' @ dec_digits (unat (version h)) @
     '' hlen='' @ dec_digits (unat (header_len h)) @ '' blen='' @ dec_digits (unat (body_len h)) @
     '' type='' @ dec_digits (unat (msg_type h)) @ '' seq='' @ dec_digits (unat (seq h)) @
     '' r0='' @ dec_digits (unat (reserved0 h))"

subsection \<open>Listening sockets\<close>

record listen_api =
  la_make_address :: "string \<Rightarrow> string option"
  la_open :: "string \<Rightarrow> string option"
  la_bind :: "string \<Rightarrow> u16 \<Rightarrow> string option"
  la_listen :: "string \<Rightarrow> u16 \<Rightarrow> int \<Rightarrow> string option"

definition open_listen :: "listen_api \<Rightarrow> Listen \<Rightarrow> string \<Rightarrow> string option" where
  "open_listen os ls tag =
     (case la_make_address os (l_host ls) of
        Some m \<Rightarrow> Some (tag @ '' listen host invalid: '' @ m)
      | None \<Rightarrow>
     (case la_open os (l_host ls) of
        Some m \<Rightarrow> Some (tag @ '' acceptor open: '' @ m)
      | None \<Rightarrow>
     (case la_bind os (l_host ls) (l_port ls) of
        Some m \<Rightarrow> Some (tag @ '' bind: '' @ m)
      | None \<Rightarrow>
     (case la_listen os (l_host ls) (l_port ls) (l_backlog ls) of
        Some m \<Rightarrow> Some (tag @ '' listen: '' @ m)
      | None \<Rightarrow> None))))"

subsection \<open>Completion handlers\<close>

definition metrics_line :: "StatsSnapshot \<Rightarrow> string" where
  "metrics_line s =
     ''metrics: sessions='' @ dec_digits (sessions_alive s) @ '' users='' @ dec_digits (unique_users s) @
     '' frames_in='' @ dec_digits (unat (st_frames_in s)) @ '' bytes_in='' @ dec_digits (unat (st_bytes_in s)) @
     '' frames_out='' @ dec_digits (unat (st_frames_out s)) @ '' bytes_out='' @ dec_digits (unat (st_bytes_out s)) @
     '' drops='' @ dec_digits (unat (st_drops s)) @ '' pending_bytes='' @ dec_digits (st_pending_bytes s)"

definition tick_metrics :: "'db env \<Rightarrow> string \<Rightarrow> bool \<Rightarrow> 'db relay \<Rightarrow> 'db relay \<times> string list \<times> bool" where
  "tick_metrics e now_local ec r =
     (if ec then (r, [], False)
      else (case snapshot_stats e r of (r, s) \<Rightarrow> (r, [log_write now_local kInfo (metrics_line s)], True)))"

definition tick_heartbeat :: "'db env \<Rightarrow> bool \<Rightarrow> 'db relay \<Rightarrow> 'db relay \<times> bool" where
  "tick_heartbeat e ec r = (if ec then (r, False) else (check_heartbeats e r, True))"

text \<open>The admin acceptor: an error is logged, a socket starts \<^verbatim>\<open>handle_admin\<close>; in both cases it accepts again.\<close>

definition accept_admin :: "string \<Rightarrow> (string + 'sock) \<Rightarrow> string list \<times> 'sock option \<times> bool" where
  "accept_admin now_local res =
     (case res of
        Inl m \<Rightarrow> ([log_write now_local kError (''accept admin error: '' @ m)], None, True)
      | Inr sock \<Rightarrow> ([], Some sock, True))"

subsection \<open>The program\<close>

text \<open>
  \<^verbatim>\<open>main\<close> up to the threads: the path of the configuration, the loader, the constructor and \<^verbatim>\<open>start\<close>.  The
  outcome is the fatal line of exit code 1, or the server that \<^verbatim>\<open>io_threads\<close> threads then run.
\<close>

definition run_main :: "'db env \<Rightarrow> listen_api \<Rightarrow> (string \<Rightarrow> string + ptree) \<Rightarrow> string \<Rightarrow> string list \<Rightarrow> string + 'db relay \<times> int" where
  "run_main e os read_json now_local argv =
     (let cfg_path = (if 2 \<le> length argv then argv ! 1 else ''deliver/server/forwarder.json'')
      in case load_config_or_throw read_json cfg_path of
           Inl err \<Rightarrow> Inl (log_write now_local kError (''fatal: '' @ err))
         | Inr cf \<Rightarrow>
             (case start e (open_listen os) (new_relay cf (e_wall e)) of
                (_, Inl err) \<Rightarrow> Inl (log_write now_local kError (''fatal: '' @ err))
              | (r, Inr _) \<Rightarrow> Inr (r, io_threads cf)))"

subsection \<open>Properties\<close>

text \<open>
  C16. Whatever \<^verbatim>\<open>main\<close> runs is sound.  If the program gets past its start-up, every state its threads reach,
  however they are interrupted, is governed by a configuration within the documented limits and satisfies the server invariant,
  and between 1 and 64 threads run it.
\<close>

theorem main_runs_a_sound_server:
  assumes "run_main e os read_json now_local argv = Inr (r0, n)" and "runs (thread_step e) (r0, Map.empty) evs (r, P)"
  shows "config_ok (r_cfg r) \<and> relay_inv (r_cfg r) r \<and> 1 \<le> n \<and> n \<le> 64"
proof -
  let ?path = "if 2 \<le> length argv then argv ! 1 else ''deliver/server/forwarder.json''"
  obtain cf where l: "load_config_or_throw read_json ?path = Inr cf"
    using assms(1) by (cases "load_config_or_throw read_json ?path") (simp_all add: run_main_def Let_def)
  with assms(1) have s: "start e (open_listen os) (new_relay cf (e_wall e)) = (r0, Inr ())" and n: "n = io_threads cf"
    by (auto simp: run_main_def Let_def split: prod.splits sum.splits)
  have ok: "config_ok cf" using l by (rule loaded_config_ok)
  have "reachable_threads e cf (r, P)" unfolding reachable_threads_def using s assms(2) by blast
  then have "relay_inv cf r" by (rule threads_relay_inv) (use ok in \<open>simp add: config_ok_def\<close>)
  then show ?thesis using ok n relay_invD(1) [of cf r] by (simp add: config_ok_def)
qed

definition quiet_os :: listen_api where
  "quiet_os = \<lparr>la_make_address = (\<lambda>_. None), la_open = (\<lambda>_. None), la_bind = (\<lambda>_ _. None), la_listen = (\<lambda>_ _ _. None)\<rparr>"

lemma shipped_main:
  "run_main demo_env quiet_os (\<lambda>_. Inr forwarder_json) [] [''asio_forwarder'', ''forwarder.json''] =
     Inr (fst (start demo_env (open_listen quiet_os) (new_relay shipped_config 0)), io_threads shipped_config)"
  by (simp add: run_main_def load_shipped_config) (simp add: start_def connect_def demo_env_def sql_api_def new_relay_def
      open_listen_def quiet_os_def Let_def)

theorem main_runs_a_sound_server_witness:
  "relay_inv (r_cfg (fst (start demo_env (open_listen quiet_os) (new_relay shipped_config 0))))
     (fst (start demo_env (open_listen quiet_os) (new_relay shipped_config 0)))"
  using main_runs_a_sound_server [OF shipped_main runs_nil] by simp

end
