(* ===== verification/Relay_Client.thy ===== *)
theory Relay_Client
  imports Frame_IO MsgPack_Format
begin

text \<open>
  \<^verbatim>\<open>fwd::sdk::RelayClient\<close> (\<^verbatim>\<open>relay_client.hpp\<close> and the first part of \<^verbatim>\<open>forwarder_sdk.cpp\<close>): the client side
  of the wire protocol.

  The socket is a parameter: \<open>s_read n s\<close> stands for \<^verbatim>\<open>boost::asio::read\<close> of exactly \<open>n\<close> bytes (\<open>None\<close> is the
  exception), \<open>s_write d s\<close> for \<^verbatim>\<open>boost::asio::write\<close> to an open socket (\<open>Some\<close> is the message of the exception),
  \<open>s_connect\<close> for name resolution and \<^verbatim>\<open>boost::asio::connect\<close>.  msgpack-c is a
  parameter as in the server.  An exception thrown to the caller is the left summand of a result;
  inside \<open>rc_recv\<close> every exception is caught.
\<close>

subsection \<open>State\<close>

record 's sdk_env =
  s_pack :: "pk_call list \<Rightarrow> string"
  s_unpack :: "string \<Rightarrow> mobj option"
  s_debug :: "mobj \<Rightarrow> string" \<comment> \<open>\<^verbatim>\<open>operator<<\<close> of msgpack objects\<close>
  s_read :: "nat \<Rightarrow> 's \<Rightarrow> bytes option \<times> 's"
  s_write :: "string \<Rightarrow> 's \<Rightarrow> string option \<times> 's"
  s_connect :: "string \<Rightarrow> string \<Rightarrow> 's \<Rightarrow> string option \<times> 's \<times> bool" \<comment> \<open>resolve and connect; is the socket open\<close>
  s_closed_error :: string \<comment> \<open>message of a write to a closed socket\<close>

record 's relay_client =
  rc_sock :: 's
  rc_open :: bool
  rc_seq :: u32

text \<open>\<^verbatim>\<open>TypedPayload\<close>: the holder keeps the decoded object with the zone it points into; a default-constructed one has none.\<close>

record TypedPayload =
  tp_type :: string
  tp_holder :: "mobj option"

definition tp_valid :: "TypedPayload \<Rightarrow> bool" where
  "tp_valid tp \<longleftrightarrow> tp_holder tp \<noteq> None"

text \<open>
  The msgpack adaptor of a business type, which is the caller's code: what \<^verbatim>\<open>msgpack::pack\<close> packs for a value, and
  \<^verbatim>\<open>object::convert\<close>, whose \<^verbatim>\<open>type_error\<close> is \<open>None\<close>.
\<close>

record 'a adaptor =
  ad_pack :: "'a \<Rightarrow> pk_call list"
  ad_convert :: "mobj \<Rightarrow> 'a option"

definition tp_as :: "'a adaptor \<Rightarrow> TypedPayload \<Rightarrow> string + 'a" where
  "tp_as ad tp =
     (if \<not> tp_valid tp then Inl ''TypedPayload invalid''
      else case ad_convert ad (the (tp_holder tp)) of None \<Rightarrow> Inl ''std::bad_cast'' | Some v \<Rightarrow> Inr v)"

record Deliver =
  d_seq :: u32
  d_payload :: string
  d_src_conn_id :: u64
  d_dst_conn_id :: u64
  d_src_username :: string
  d_dst_username :: string
  d_typed :: "TypedPayload option"

record ServerReply =
  sr_seq :: u32
  sr_ok :: bool
  sr_code :: int
  sr_op :: string
  sr_message :: string
  sr_raw :: string
  sr_body_raw :: string

datatype Event = DeliverEv Deliver | ReplyEv ServerReply | KickEv string

definition empty_deliver :: Deliver where
  "empty_deliver = \<lparr>d_seq = 0, d_payload = [], d_src_conn_id = 0, d_dst_conn_id = 0, d_src_username = [],
     d_dst_username = [], d_typed = None\<rparr>"

definition empty_reply :: ServerReply where
  "empty_reply = \<lparr>sr_seq = 0, sr_ok = False, sr_code = 0, sr_op = [], sr_message = [], sr_raw = [], sr_body_raw = []\<rparr>"

subsection \<open>Sending\<close>

definition next_seq :: "u32 \<Rightarrow> u32" where
  "next_seq q = (let q = (q + 1) AND 0x7FFFFFFF in if q = 0 then 1 else q)"

definition write_all :: "'s sdk_env \<Rightarrow> string \<Rightarrow> 's relay_client \<Rightarrow> 's relay_client \<times> string option" where
  "write_all e data c =
     (if \<not> rc_open c then (c, Some (s_closed_error e))
      else case s_write e data (rc_sock c) of (err, s) \<Rightarrow> (c\<lparr>rc_sock := s\<rparr>, err))"

definition emit_msgpack :: "'s sdk_env \<Rightarrow> u32 \<Rightarrow> u32 \<Rightarrow> string \<Rightarrow> 's relay_client \<Rightarrow> 's relay_client \<times> string option" where
  "emit_msgpack e mt q buf c =
     (let h = default_header\<lparr>msg_type := mt, seq := q, reserved0 := 0, body_len := word_of_nat (length buf)\<rparr>;
          hb = pack_le h
      in case write_all e (chars_of_bytes hb) c of
           (c, Some err) \<Rightarrow> (c, Some err)
         | (c, None) \<Rightarrow> if buf \<noteq> [] then write_all e buf c else (c, None))"

text \<open>The common shape of the request methods: draw a number, pack, emit, return the number.\<close>

definition rc_request :: "'s sdk_env \<Rightarrow> u32 \<Rightarrow> string \<Rightarrow> 's relay_client \<Rightarrow> 's relay_client \<times> (string + u32)" where
  "rc_request e mt body c =
     (let q = next_seq (rc_seq c); c = c\<lparr>rc_seq := q\<rparr>
      in case emit_msgpack e mt q body c of
           (c, Some err) \<Rightarrow> (c, Inl err)
         | (c, None) \<Rightarrow> (c, Inr q))"

definition login_calls :: "string \<Rightarrow> string \<Rightarrow> string \<Rightarrow> string \<Rightarrow> pk_call list" where
  "login_calls un pw pr rm =
     [PackMap 4, PackStr ''username'', PackStr un, PackStr ''password'', PackStr pw,
      PackStr ''peer_role'', PackStr pr, PackStr ''recv_mode'', PackStr rm]"

definition rc_login :: "'s sdk_env \<Rightarrow> string \<Rightarrow> string \<Rightarrow> string \<Rightarrow> string \<Rightarrow> 's relay_client \<Rightarrow> 's relay_client \<times> (string + u32)" where
  "rc_login e un pw pr rm c = rc_request e kClientLogin (s_pack e (login_calls un pw pr rm)) c"

definition rc_heartbeat :: "'s sdk_env \<Rightarrow> 's relay_client \<Rightarrow> 's relay_client \<times> (string + u32)" where
  "rc_heartbeat e c = rc_request e kClientHeartbeat (s_pack e [PackMap 0]) c"

definition data_calls :: "string \<Rightarrow> string \<Rightarrow> pk_call list" where
  "data_calls dst payload =
     [PackMap 2, PackStr ''dst_username'', PackStr dst,
      PackStr ''payload'', PackBin (word_of_nat (length payload)),
      PackBinBody (take (unat (word_of_nat (length payload) :: u32)) payload)]"

definition rc_send_data :: "'s sdk_env \<Rightarrow> string \<Rightarrow> string \<Rightarrow> 's relay_client \<Rightarrow> 's relay_client \<times> (string + u32)" where
  "rc_send_data e dst payload c = rc_request e kClientData (s_pack e (data_calls dst payload)) c"

definition rc_control_list_users :: "'s sdk_env \<Rightarrow> 's relay_client \<Rightarrow> 's relay_client \<times> (string + u32)" where
  "rc_control_list_users e c =
     rc_request e kClientControl (s_pack e [PackMap 1, PackStr ''action'', PackStr ''list_users'']) c"

definition kick_calls :: "u64 \<Rightarrow> pk_call list" where
  "kick_calls target =
     [PackMap 2, PackStr ''action'', PackStr ''kick_user'', PackStr ''target_user_id'', PackInt (uint target)]"

definition rc_control_kick_user :: "'s sdk_env \<Rightarrow> u64 \<Rightarrow> 's relay_client \<Rightarrow> 's relay_client \<times> (string + u32)" where
  "rc_control_kick_user e target c = rc_request e kClientControl (s_pack e (kick_calls target)) c"

definition rc_control_send_raw :: "'s sdk_env \<Rightarrow> string \<Rightarrow> 's relay_client \<Rightarrow> 's relay_client \<times> (string + u32)" where
  "rc_control_send_raw e body c = rc_request e kClientControl body c"

definition pack_typed_payload :: "'s sdk_env \<Rightarrow> string \<Rightarrow> mobj \<Rightarrow> string" where
  "pack_typed_payload e ty ob =
     s_pack e ([PackMap 2, PackStr ''type'', PackStr ty, PackStr ''data''] @ calls ob)"

text \<open>
  The templates over a business type: the value is packed, unpacked again into an object and packed into the envelope.  An
  exception of \<^verbatim>\<open>msgpack::unpack\<close> passes through.
\<close>

definition pack_typed_payload_of :: "'s sdk_env \<Rightarrow> 'a adaptor \<Rightarrow> string \<Rightarrow> 'a \<Rightarrow> string + string" where
  "pack_typed_payload_of e ad ty v =
     (case s_unpack e (s_pack e (ad_pack ad v)) of
        None \<Rightarrow> Inl ''msgpack''
      | Some ob \<Rightarrow> Inr (pack_typed_payload e ty ob))"

definition send_data_typed ::
  "'s sdk_env \<Rightarrow> 'a adaptor \<Rightarrow> string \<Rightarrow> string \<Rightarrow> 'a \<Rightarrow> 's relay_client \<Rightarrow> 's relay_client \<times> (string + u32)" where
  "send_data_typed e ad dst ty v c =
     (case pack_typed_payload_of e ad ty v of Inl err \<Rightarrow> (c, Inl err) | Inr p \<Rightarrow> rc_send_data e dst p c)"

definition rc_connect :: "'s sdk_env \<Rightarrow> string \<Rightarrow> u16 \<Rightarrow> 's relay_client \<Rightarrow> 's relay_client \<times> string option" where
  "rc_connect e host port c =
     (case s_connect e host (dec_digits (unat port)) (rc_sock c) of
        (err, s, op) \<Rightarrow> (c\<lparr>rc_sock := s, rc_open := op\<rparr>, err))"

definition rc_close :: "'s relay_client \<Rightarrow> 's relay_client" where
  "rc_close c = (if \<not> rc_open c then c else c\<lparr>rc_open := False\<rparr>)"

text \<open>The constructor makes a socket that is not open, and the first number is drawn after \<open>1\<close>; the destructor closes.\<close>

definition new_relay_client :: "'s \<Rightarrow> 's relay_client" where
  "new_relay_client sock = \<lparr>rc_sock = sock, rc_open = False, rc_seq = 1\<rparr>"

definition destroy_relay_client :: "'s relay_client \<Rightarrow> 's relay_client" where
  "destroy_relay_client c = rc_close c"

subsection \<open>Receiving\<close>

text \<open>\<^verbatim>\<open>object::convert\<close> to \<^verbatim>\<open>std::uint64_t\<close> and \<^verbatim>\<open>std::string\<close>; \<open>None\<close> is \<^verbatim>\<open>msgpack::type_error\<close>.\<close>

fun convert_u64 :: "mobj \<Rightarrow> u64 option" where
  "convert_u64 (MPosInt w) = Some w"
| "convert_u64 _ = None"

fun convert_str :: "mobj \<Rightarrow> string option" where
  "convert_str (MStr s) = Some s"
| "convert_str (MBin s) = Some s"
| "convert_str _ = None"

fun deliver_field :: "string \<Rightarrow> mobj \<Rightarrow> Deliver \<Rightarrow> Deliver option" where
  "deliver_field k v d =
     (if k = ''src_conn_id'' then map_option (\<lambda>w. d\<lparr>d_src_conn_id := w\<rparr>) (convert_u64 v)
      else if k = ''dst_conn_id'' then map_option (\<lambda>w. d\<lparr>d_dst_conn_id := w\<rparr>) (convert_u64 v)
      else if k = ''src_username'' then map_option (\<lambda>s. d\<lparr>d_src_username := s\<rparr>) (convert_str v)
      else if k = ''dst_username'' then map_option (\<lambda>s. d\<lparr>d_dst_username := s\<rparr>) (convert_str v)
      else if k = ''payload'' then
        (case v of MBin p \<Rightarrow> Some (d\<lparr>d_payload := p\<rparr>) | MStr p \<Rightarrow> Some (d\<lparr>d_payload := p\<rparr>) | _ \<Rightarrow> Some d)
      else Some d)"

fun deliver_fields :: "mmap \<Rightarrow> Deliver \<Rightarrow> Deliver option" where
  "deliver_fields [] d = Some d"
| "deliver_fields ((k, v) # m) d =
     (case k of
        MStr ks \<Rightarrow> (case deliver_field ks v d of None \<Rightarrow> None | Some d \<Rightarrow> deliver_fields m d)
      | _ \<Rightarrow> deliver_fields m d)"

fun typed_fields :: "mmap \<Rightarrow> string option \<Rightarrow> mobj option \<Rightarrow> string option \<times> mobj option" where
  "typed_fields [] t ob = (t, ob)"
| "typed_fields ((k, v) # m) t ob =
     (case (k, v) of
        (MStr ks, MStr tv) \<Rightarrow>
          if ks = ''type'' then typed_fields m (Some tv) ob
          else if ks = ''data'' then typed_fields m t (Some v)
          else typed_fields m t ob
      | (MStr ks, _) \<Rightarrow> if ks = ''data'' then typed_fields m t (Some v) else typed_fields m t ob
      | _ \<Rightarrow> typed_fields m t ob)"

definition decode_typed :: "'s sdk_env \<Rightarrow> string \<Rightarrow> TypedPayload option" where
  "decode_typed e payload =
     (case s_unpack e payload of
        Some (MMap pm) \<Rightarrow>
          (case typed_fields pm None None of (Some t, Some ob) \<Rightarrow> Some \<lparr>tp_type = t, tp_holder = Some ob\<rparr> | _ \<Rightarrow> None)
      | _ \<Rightarrow> None)"

definition parse_deliver :: "'s sdk_env \<Rightarrow> Header \<Rightarrow> string \<Rightarrow> Event option" where
  "parse_deliver e h body =
     (let d = empty_deliver\<lparr>d_seq := seq h\<rparr> in
      case s_unpack e body of
        None \<Rightarrow> None
      | Some (MMap m) \<Rightarrow>
          (case deliver_fields m d of
             None \<Rightarrow> None
           | Some d \<Rightarrow> Some (DeliverEv (d\<lparr>d_typed := decode_typed e (d_payload d)\<rparr>)))
      | Some _ \<Rightarrow> Some (DeliverEv d))"

fun kick_reason :: "mmap \<Rightarrow> string \<Rightarrow> string option" where
  "kick_reason [] r = Some r"
| "kick_reason ((k, v) # m) r =
     (case k of
        MStr ks \<Rightarrow>
          if ks = ''reason'' then (case convert_str v of None \<Rightarrow> None | Some s \<Rightarrow> kick_reason m s)
          else kick_reason m r
      | _ \<Rightarrow> kick_reason m r)"

definition parse_kick :: "'s sdk_env \<Rightarrow> string \<Rightarrow> Event option" where
  "parse_kick e body =
     (case s_unpack e body of
        None \<Rightarrow> None
      | Some (MMap m) \<Rightarrow> map_option KickEv (kick_reason m [])
      | Some _ \<Rightarrow> Some (KickEv []))"

text \<open>\<^verbatim>\<open>static_cast<int>\<close> keeps the low 32 bits.\<close>

fun reply_field :: "string \<Rightarrow> mobj \<Rightarrow> ServerReply \<Rightarrow> ServerReply" where
  "reply_field k v r =
     (if k = ''ok'' then (case v of MBool b \<Rightarrow> r\<lparr>sr_ok := b\<rparr> | _ \<Rightarrow> r)
      else if k = ''op'' then (case v of MStr s \<Rightarrow> r\<lparr>sr_op := s\<rparr> | _ \<Rightarrow> r)
      else if k = ''code'' then
        (case v of
           MPosInt w \<Rightarrow> r\<lparr>sr_code := sint (ucast w :: u32)\<rparr>
         | MNegInt i \<Rightarrow> r\<lparr>sr_code := sint (word_of_int i :: u32)\<rparr>
         | _ \<Rightarrow> r)
      else if k = ''message'' then (case v of MStr s \<Rightarrow> r\<lparr>sr_message := s\<rparr> | _ \<Rightarrow> r)
      else if k = ''error'' then (case v of MStr s \<Rightarrow> r\<lparr>sr_message := s\<rparr> | _ \<Rightarrow> r)
      else r)"

fun reply_fields :: "mmap \<Rightarrow> ServerReply \<Rightarrow> ServerReply" where
  "reply_fields [] r = r"
| "reply_fields ((k, v) # m) r =
     (case k of MStr ks \<Rightarrow> reply_fields m (reply_field ks v r) | _ \<Rightarrow> reply_fields m r)"

definition parse_reply :: "'s sdk_env \<Rightarrow> Header \<Rightarrow> string \<Rightarrow> Event option" where
  "parse_reply e h body =
     (case s_unpack e body of
        None \<Rightarrow> None
      | Some ob \<Rightarrow>
          (let r = empty_reply\<lparr>sr_seq := seq h, sr_body_raw := body, sr_raw := s_debug e ob\<rparr>
           in case ob of MMap m \<Rightarrow> Some (ReplyEv (reply_fields m r)) | _ \<Rightarrow> Some (ReplyEv r)))"

text \<open>
  \<^verbatim>\<open>recv\<close>: an exception anywhere closes the socket and is reported as \<open>None\<close>; so is a frame of unknown
  type, but then the socket stays open.
\<close>

definition rc_caught :: "'s relay_client \<Rightarrow> Event option \<Rightarrow> 's relay_client \<times> Event option" where
  "rc_caught c ev = (case ev of None \<Rightarrow> (rc_close c, None) | Some v \<Rightarrow> (c, Some v))"

definition rc_recv :: "'s sdk_env \<Rightarrow> 's relay_client \<Rightarrow> 's relay_client \<times> Event option" where
  "rc_recv e c =
     (if \<not> rc_open c then (c, None)
      else
        (case s_read e (unat kHeaderLen) (rc_sock c) of
           (None, s) \<Rightarrow> (rc_close (c\<lparr>rc_sock := s\<rparr>), None)
         | (Some hb, s) \<Rightarrow>
             (let h = unpack_le hb in
              case (if body_len h \<noteq> 0 then s_read e (unat (body_len h)) s else (Some [], s)) of
                (None, s) \<Rightarrow> (rc_close (c\<lparr>rc_sock := s\<rparr>), None)
              | (Some bb, s) \<Rightarrow>
                  (let body = chars_of_bytes bb; c = c\<lparr>rc_sock := s\<rparr> in
                   if msg_type h = kMsgDeliver then rc_caught c (parse_deliver e h body)
                   else if msg_type h = kMsgKick then rc_caught c (parse_kick e body)
                   else if msg_type h = kMsgServerReply then rc_caught c (parse_reply e h body)
                   else (c, None)))))"

subsection \<open>Sequence numbers\<close>

definition seq_period :: nat where "seq_period = 2 ^ 31 - 1"

lemma and_low31: "unat ((q :: u32) AND 0x7FFFFFFF) = unat q mod 2 ^ 31"
proof -
  have "(0x7FFFFFFF :: u32) = mask 31" by (simp add: mask_eq_exp_minus_1)
  then show ?thesis by (simp only: flip: take_bit_eq_mask) (simp add: take_bit_eq_mod unat_mod_distrib)
qed

lemma unat_next_seq:
  assumes "1 \<le> unat q" and "unat q \<le> seq_period"
  shows "unat (next_seq q) = unat q mod seq_period + 1"
proof -
  have s: "unat (q + 1) = Suc (unat q)" using assms(2) by (simp add: unat_word_ariths seq_period_def)
  show ?thesis
  proof (cases "unat q = seq_period")
    case True
    then have "unat ((q + 1) AND 0x7FFFFFFF) = 0" by (simp only: and_low31 s) (simp add: seq_period_def)
    then have "(q + 1) AND 0x7FFFFFFF = 0" by (simp only: unat_eq_0)
    with True show ?thesis by (simp add: next_seq_def)
  next
    case False
    with assms have "unat ((q + 1) AND 0x7FFFFFFF) = Suc (unat q)" by (simp only: and_low31 s) (simp add: seq_period_def)
    then have "(q + 1) AND 0x7FFFFFFF \<noteq> 0" by auto
    with \<open>unat ((q + 1) AND 0x7FFFFFFF) = Suc (unat q)\<close> False assms(2) show ?thesis by (simp add: next_seq_def Let_def)
  qed
qed

lemma unat_next_seq_iter:
  assumes "1 \<le> unat q" and "unat q \<le> seq_period"
  shows "unat ((next_seq ^^ n) q) = (unat q - 1 + n) mod seq_period + 1"
proof (induction n)
  case 0
  with assms show ?case by simp
next
  case (Suc n)
  have p: "0 < seq_period" by (simp add: seq_period_def)
  let ?x = "(unat q - 1 + n) mod seq_period"
  have "?x < seq_period" using p by simp
  with Suc have "unat (next_seq ((next_seq ^^ n) q)) = (?x + 1) mod seq_period + 1"
    by (subst unat_next_seq) simp_all
  then show ?case by (simp add: mod_Suc_eq)
qed

subsection \<open>Frames on the wire\<close>

lemma rc_request_writes:
  assumes "s_write e = (\<lambda>d s. (None, w s d))" and "rc_open c"
  shows "rc_request e mt body c =
    (c\<lparr>rc_seq := next_seq (rc_seq c),
       rc_sock := (if body \<noteq> [] then w (w (rc_sock c) (chars_of_bytes (pack_le
             (default_header\<lparr>msg_type := mt, seq := next_seq (rc_seq c), reserved0 := 0, body_len := word_of_nat (length body)\<rparr>)))) body
         else w (rc_sock c) (chars_of_bytes (pack_le
             (default_header\<lparr>msg_type := mt, seq := next_seq (rc_seq c), reserved0 := 0, body_len := word_of_nat (length body)\<rparr>))))\<rparr>,
     Inr (next_seq (rc_seq c)))"
  using assms by (simp add: rc_request_def emit_msgpack_def write_all_def Let_def)

definition login_body_obj :: "string \<Rightarrow> string \<Rightarrow> string \<Rightarrow> string \<Rightarrow> mobj" where
  "login_body_obj un pw pr rm =
     MMap [(MStr ''username'', MStr un), (MStr ''password'', MStr pw), (MStr ''peer_role'', MStr pr), (MStr ''recv_mode'', MStr rm)]"

definition data_body_obj :: "string \<Rightarrow> string \<Rightarrow> mobj" where
  "data_body_obj dst p = MMap [(MStr ''dst_username'', MStr dst), (MStr ''payload'', MBin p)]"

lemma login_calls_eq: "login_calls un pw pr rm = calls (login_body_obj un pw pr rm)"
  by (simp add: login_calls_def login_body_obj_def)

lemma data_calls_eq: "length p < 2 ^ 32 \<Longrightarrow> data_calls dst p = calls (data_body_obj dst p)"
  by (simp add: data_calls_def data_body_obj_def)

subsection \<open>Receiving over a chunked socket\<close>

text \<open>The reference socket: input cut into chunks, output collected.\<close>

type_synonym wire = "(bytes \<times> nat list) \<times> string"

definition wire_env :: "wire sdk_env" where
  "wire_env = \<lparr>s_pack = mp_pack, s_unpack = mp_unpack, s_debug = (\<lambda>_. []),
     s_read = (\<lambda>n s. case recv_exact chunk_recv n (fst s) of (r, i) \<Rightarrow> (r, (i, snd s))),
     s_write = (\<lambda>d s. (None, (fst s, snd s @ d))),
     s_connect = (\<lambda>_ _ s. (None, s, True)), s_closed_error = ''Bad file descriptor''\<rparr>"

lemma wire_env_simps [simp]:
  "s_pack wire_env = mp_pack" "s_unpack wire_env = mp_unpack" "s_write wire_env = (\<lambda>d s. (None, (fst s, snd s @ d)))"
  by (simp_all add: wire_env_def)

lemma wire_read:
  assumes "fst (fst s) = d @ rest"
  shows "\<exists>ks. s_read wire_env (length d) s = (Some d, ((rest, ks), snd s))"
proof -
  obtain s' where "recv_exact chunk_recv (length d) (fst s) = (Some d, s')" "fst s' = rest"
    using chunked.recv_exact_ok [of "length d" "fst s"] assms by auto
  then show ?thesis by (cases s') (simp add: wire_env_def)
qed

lemma wire_short:
  assumes "length (fst (fst s)) < n"
  shows "\<exists>s'. s_read wire_env n s = (None, s')"
proof -
  have "fst (recv_exact chunk_recv n (fst s)) = None" using chunked.recv_exact_short [of "fst s" n] assms by simp
  then show ?thesis by (cases "recv_exact chunk_recv n (fst s)") (simp add: wire_env_def)
qed

definition dispatch :: "'s sdk_env \<Rightarrow> Header \<Rightarrow> string \<Rightarrow> 's relay_client \<Rightarrow> 's relay_client \<times> Event option" where
  "dispatch e h body c =
     (if msg_type h = kMsgDeliver then rc_caught c (parse_deliver e h body)
      else if msg_type h = kMsgKick then rc_caught c (parse_kick e body)
      else if msg_type h = kMsgServerReply then rc_caught c (parse_reply e h body)
      else (c, None))"

lemma rc_recv_frame:
  assumes "rc_open c" and "fst (fst (rc_sock c)) = bytes_of_chars (pack_frame h body) @ rest" and "length body < 2 ^ 32"
  shows "\<exists>ks. rc_recv wire_env c =
    dispatch wire_env (h\<lparr>body_len := word_of_nat (length body)\<rparr>) body (c\<lparr>rc_sock := ((rest, ks), snd (rc_sock c))\<rparr>)"
proof -
  let ?h = "h\<lparr>body_len := word_of_nat (length body)\<rparr>"
  obtain ks where r1: "s_read wire_env 24 (rc_sock c) = (Some (pack_le ?h), ((bytes_of_chars body @ rest, ks), snd (rc_sock c)))"
    using wire_read [of "rc_sock c" "pack_le ?h"] assms(2) by (auto simp: pack_frame_bytes)
  obtain ks' where r2: "s_read wire_env (length body) ((bytes_of_chars body @ rest, ks), snd (rc_sock c)) =
      (Some (bytes_of_chars body), ((rest, ks'), snd (rc_sock c)))"
    using wire_read [of "((bytes_of_chars body @ rest, ks), snd (rc_sock c))" "bytes_of_chars body" rest] by auto
  have l: "unat (body_len ?h) = length body" using assms(3) by simp
  show ?thesis
  proof (cases "body = []")
    case True
    with r1 assms(1) show ?thesis by (intro exI [of _ ks]) (simp add: rc_recv_def kHeaderLen_def dispatch_def Let_def)
  next
    case False
    then have "body_len ?h \<noteq> 0" using l by auto
    with r1 r2 l assms(1) show ?thesis
      by (intro exI [of _ ks']) (simp add: rc_recv_def kHeaderLen_def dispatch_def Let_def)
  qed
qed

subsection \<open>Properties\<close>

text \<open>
  Sequence numbers.  From any number in use, the next $2^{31}-1$ request numbers are pairwise different, never
  zero and fit in 31 bits, so a reply's number identifies its request among that many.
\<close>

lemma request_numbers_distinct:
  assumes "1 \<le> unat q" and "unat q \<le> 2 ^ 31 - 1" and "i < j" and "j < i + (2 ^ 31 - 1)"
  shows "(next_seq ^^ i) q \<noteq> (next_seq ^^ j) q \<and> (next_seq ^^ i) q \<noteq> 0 \<and> unat ((next_seq ^^ i) q) < 2 ^ 31"
proof -
  have q: "1 \<le> unat q" "unat q \<le> seq_period" using assms(1,2) by (simp_all add: seq_period_def)
  note it = unat_next_seq_iter [OF q]
  have "unat ((next_seq ^^ i) q) \<noteq> unat ((next_seq ^^ j) q)"
  proof
    assume "unat ((next_seq ^^ i) q) = unat ((next_seq ^^ j) q)"
    then have "(unat q - 1 + i) mod seq_period = (unat q - 1 + j) mod seq_period" by (simp add: it)
    then have "seq_period dvd (unat q - 1 + j) - (unat q - 1 + i)"
      using assms(3) mod_eq_dvd_iff_nat [of "unat q - 1 + i" "unat q - 1 + j" seq_period] by simp
    then have "seq_period dvd j - i" by simp
    then have "seq_period \<le> j - i" using assms(3) by (simp add: dvd_imp_le)
    with assms(3,4) show False by (simp add: seq_period_def)
  qed
  moreover have "unat ((next_seq ^^ i) q) \<noteq> 0" using it by simp
  moreover have "(unat q - 1 + i) mod seq_period < seq_period" by (simp add: seq_period_def)
  then have "unat ((next_seq ^^ i) q) < 2 ^ 31" unfolding it by (simp add: seq_period_def)
  ultimately show ?thesis by auto
qed

text \<open>
  A frame of unknown type looks like the end of the stream.  \<^verbatim>\<open>recv\<close> consumes a well-formed frame whose
  type is none of 200, 201 and 202 and returns \<^verbatim>\<open>nullopt\<close>, although the socket is open and later
  frames are still there to be read.
\<close>

lemma unknown_frame_looks_like_eof:
  assumes "rc_open c" and "fst (fst (rc_sock c)) = bytes_of_chars (pack_frame h body) @ rest" and "length body < 2 ^ 32"
    and "msg_type h \<notin> {kMsgDeliver, kMsgServerReply, kMsgKick}"
  shows "\<exists>c'. rc_recv wire_env c = (c', None) \<and> rc_open c' \<and> fst (fst (rc_sock c')) = rest"
  using rc_recv_frame [OF assms(1-3)] assms(1,4) by (auto simp: dispatch_def)

definition stray_client :: "wire relay_client" where
  "stray_client = \<lparr>rc_sock = ((bytes_of_chars (pack_frame (default_header\<lparr>msg_type := 7\<rparr>) ''x'') @ [1], []), []),
     rc_open = True, rc_seq = 1\<rparr>"

end
