(* ===== verification/Client_Api.thy ===== *)
theory Client_Api
  imports Relay_Client Text_Literals
begin

text \<open>
  \<^verbatim>\<open>fwd::asio_forwarder_client\<close> (\<^verbatim>\<open>asio_forwarder_client.hpp\<close> and the second part of \<^verbatim>\<open>forwarder_sdk.cpp\<close>): the
  synchronous client on top of \<^verbatim>\<open>RelayClient\<close>.

  Its core are the four waiting loops, which sort incoming events into acknowledgements, queued
  deliveries and errors.  A loop that may wait for ever is a \<^theory_text>\<open>partial_function\<close> into \<open>option\<close>: \<open>None\<close> is
  a loop that does not end.  An exception is the left summand of the result.  The heartbeat thread
  only sends; its effect on the receiving side is that HEARTBEAT replies may arrive at any moment,
  which the loops skip.
\<close>

subsection \<open>State\<close>

datatype recv_mode = Broadcast | RoundRobin

definition recv_mode_str :: "recv_mode \<Rightarrow> string" where
  "recv_mode_str m = (if m = Broadcast then ''broadcast'' else ''round_robin'')"

record 's client =
  cl_rc :: "'s relay_client"
  cl_username :: string
  in_order :: "Event list"
  pre_delivers :: "Deliver list"
  auto_hb_enabled :: bool
  auto_hb_interval :: int
  hb_running :: bool \<comment> \<open>\<^verbatim>\<open>hb_th_.joinable()\<close>\<close>
  hb_stop :: bool

definition new_client :: "'s relay_client \<Rightarrow> 's client" where
  "new_client rc = \<lparr>cl_rc = rc, cl_username = [], in_order = [], pre_delivers = [], auto_hb_enabled = True,
     auto_hb_interval = 20, hb_running = False, hb_stop = True\<rparr>"

definition set_auto_heartbeat :: "bool \<Rightarrow> 's client \<Rightarrow> 's client" where
  "set_auto_heartbeat enable c = c\<lparr>auto_hb_enabled := enable\<rparr>"

definition set_auto_heartbeat_interval :: "int \<Rightarrow> 's client \<Rightarrow> 's client" where
  "set_auto_heartbeat_interval n c = c\<lparr>auto_hb_interval := (if n < 1 then 1 else n)\<rparr>"

definition start_auto_heartbeat_worker :: "'s client \<Rightarrow> 's client" where
  "start_auto_heartbeat_worker c =
     (if \<not> auto_hb_enabled c then c
      else if hb_running c then c
      else c\<lparr>hb_stop := False, hb_running := True\<rparr>)"

text \<open>\<^verbatim>\<open>local_username()\<close> and \<^verbatim>\<open>raw()\<close> are the fields \<open>cl_username\<close> and \<open>cl_rc\<close>.\<close>

definition stop_auto_heartbeat_worker :: "'s client \<Rightarrow> 's client" where
  "stop_auto_heartbeat_worker c = c\<lparr>hb_stop := True, hb_running := False\<rparr>"

definition destroy_client :: "'s client \<Rightarrow> 's client" where
  "destroy_client c = (let c = stop_auto_heartbeat_worker c in c\<lparr>cl_rc := destroy_relay_client (cl_rc c)\<rparr>)"

text \<open>
  The body of the heartbeat thread.  \<open>obs\<close> are the values the thread reads from \<^verbatim>\<open>hb_stop_\<close>, one per load, as
  far as it runs; between two loads of the inner loop it sleeps for a second.
\<close>

fun sleep_loop :: "nat \<Rightarrow> bool list \<Rightarrow> bool list option" where
  "sleep_loop 0 obs = Some obs"
| "sleep_loop (Suc n) [] = None"
| "sleep_loop (Suc n) (b # obs) = (if b then None else sleep_loop n obs)"

lemma sleep_loop_length: "sleep_loop n obs = Some obs' \<Longrightarrow> length obs' \<le> length obs"
  by (induction n obs rule: sleep_loop.induct) (auto split: if_splits)

function auto_heartbeat_loop :: "'s sdk_env \<Rightarrow> nat \<Rightarrow> bool list \<Rightarrow> 's relay_client \<Rightarrow> 's relay_client" where
  "auto_heartbeat_loop e n obs rc =
     (case obs of
        [] \<Rightarrow> rc
      | b # obs1 \<Rightarrow>
          if b then rc
          else (case sleep_loop n obs1 of
                  None \<Rightarrow> rc
                | Some obs2 \<Rightarrow>
                    (case rc_heartbeat e rc of
                       (rc, Inl _) \<Rightarrow> rc
                     | (rc, Inr _) \<Rightarrow> auto_heartbeat_loop e n obs2 rc)))"
  by pat_completeness auto
termination
  by (relation "measure (\<lambda>(e, n, obs, rc). length obs)") (auto dest: sleep_loop_length)

declare auto_heartbeat_loop.simps [simp del]

record ConnectionConfig =
  cc_host :: string
  cc_port :: u16

definition cl_open :: "'s sdk_env \<Rightarrow> ConnectionConfig \<Rightarrow> 's client \<Rightarrow> 's client \<times> string option" where
  "cl_open e cf c = (case rc_connect e (cc_host cf) (cc_port cf) (cl_rc c) of (rc, err) \<Rightarrow> (c\<lparr>cl_rc := rc\<rparr>, err))"

subsection \<open>The next event\<close>

text \<open>The head of every waiting loop: refill \<^verbatim>\<open>in_order_\<close> by one \<^verbatim>\<open>recv\<close> if it is empty, then pop its front.\<close>

definition next_event :: "'s sdk_env \<Rightarrow> 's client \<Rightarrow> 's client \<times> Event option" where
  "next_event e c =
     (case in_order c of
        ev # evs \<Rightarrow> (c\<lparr>in_order := evs\<rparr>, Some ev)
      | [] \<Rightarrow>
          (case rc_recv e (cl_rc c) of
             (rc, None) \<Rightarrow> (c\<lparr>cl_rc := rc\<rparr>, None)
           | (rc, Some ev) \<Rightarrow> (c\<lparr>cl_rc := rc\<rparr>, Some ev)))"

definition heartbeat_ok :: "ServerReply \<Rightarrow> bool" where
  "heartbeat_ok r \<longleftrightarrow> sr_ok r \<and> sr_op r = ''HEARTBEAT''"

definition message_or :: "string \<Rightarrow> ServerReply \<Rightarrow> string" where
  "message_or d r = (if sr_message r = [] then d else sr_message r)"

subsection \<open>The waiting loops\<close>

partial_function (option) sign_on_wait :: "'s sdk_env \<Rightarrow> 's client \<Rightarrow> ('s client \<times> (string + unit)) option" where
  "sign_on_wait e c =
     (case next_event e c of
        (c, None) \<Rightarrow> Some (c, Inl txt_sign_on_eof)
      | (c, Some (KickEv reason)) \<Rightarrow> Some (c, Inl (''sign_on: KICK '' @ reason))
      | (c, Some (DeliverEv d)) \<Rightarrow> Some (c, Inl txt_sign_on_deliver)
      | (c, Some (ReplyEv r)) \<Rightarrow>
          if heartbeat_ok r then sign_on_wait e c
          else if \<not> sr_ok r then Some (c, Inl (''sign_on: '' @ message_or ''error'' r))
          else if sr_op r = ''LOGIN'' then Some (start_auto_heartbeat_worker c, Inr ())
          else Some (c, Inl (txt_sign_on_unexpected @ sr_op r)))"

partial_function (option) drain_server_ack :: "'s sdk_env \<Rightarrow> u32 \<Rightarrow> string \<Rightarrow> 's client \<Rightarrow> ('s client \<times> (string + unit)) option" where
  "drain_server_ack e q op c =
     (case next_event e c of
        (c, None) \<Rightarrow> Some (c, Inl (txt_waiting @ op @ txt_ack_eof))
      | (c, Some (KickEv reason)) \<Rightarrow> Some (c, Inl (''KICK '' @ reason))
      | (c, Some (DeliverEv d)) \<Rightarrow> drain_server_ack e q op (c\<lparr>pre_delivers := pre_delivers c @ [d]\<rparr>)
      | (c, Some (ReplyEv r)) \<Rightarrow>
          if heartbeat_ok r then drain_server_ack e q op c
          else if sr_seq r = q then
            (if \<not> sr_ok r then Some (c, Inl (op @ txt_not_accepted @ message_or ''?'' r))
             else if sr_op r = op then Some (c, Inr ())
             else Some (c, Inl (txt_waiting @ op @ txt_op_differs @ sr_op r)))
          else Some (c, Inl (txt_waiting @ op @ txt_seq_differs @ dec_digits (unat (sr_seq r)) @ '' op='' @ sr_op r)))"

partial_function (option) drain_control_full :: "'s sdk_env \<Rightarrow> u32 \<Rightarrow> 's client \<Rightarrow> ('s client \<times> (string + ServerReply)) option" where
  "drain_control_full e q c =
     (case next_event e c of
        (c, None) \<Rightarrow> Some (c, Inl ''CONTROL: EOF'')
      | (c, Some (KickEv reason)) \<Rightarrow> Some (c, Inl (''KICK '' @ reason))
      | (c, Some (DeliverEv d)) \<Rightarrow> drain_control_full e q (c\<lparr>pre_delivers := pre_delivers c @ [d]\<rparr>)
      | (c, Some (ReplyEv r)) \<Rightarrow>
          if heartbeat_ok r then drain_control_full e q c
          else if sr_seq r \<noteq> q then Some (c, Inl (txt_control_unexpected_seq @ dec_digits (unat (sr_seq r))))
          else if \<not> sr_ok r then Some (c, Inl (txt_control_not_accepted @ message_or ''?'' r))
          else if sr_op r \<noteq> ''CONTROL'' then Some (c, Inl (txt_control_op @ sr_op r))
          else Some (c, Inr r))"

partial_function (option) expect_heartbeat_ok :: "'s sdk_env \<Rightarrow> u32 \<Rightarrow> 's client \<Rightarrow> ('s client \<times> (string + unit)) option" where
  "expect_heartbeat_ok e q c =
     (case next_event e c of
        (c, None) \<Rightarrow> Some (c, Inl ''heartbeat: EOF'')
      | (c, Some (KickEv reason)) \<Rightarrow> Some (c, Inl (''heartbeat: KICK '' @ reason))
      | (c, Some (DeliverEv d)) \<Rightarrow> expect_heartbeat_ok e q (c\<lparr>pre_delivers := pre_delivers c @ [d]\<rparr>)
      | (c, Some (ReplyEv r)) \<Rightarrow>
          if heartbeat_ok r then (if sr_seq r = q then Some (c, Inr ()) else expect_heartbeat_ok e q c)
          else Some (c, Inl (txt_heartbeat_mismatch @ dec_digits (unat (sr_seq r)) @ '' op='' @ sr_op r)))"

partial_function (option) recv_deliver :: "'s sdk_env \<Rightarrow> 's client \<Rightarrow> ('s client \<times> (string + Deliver)) option" where
  "recv_deliver e c =
     (case pre_delivers c of
        d # ds \<Rightarrow> Some (c\<lparr>pre_delivers := ds\<rparr>, Inr d)
      | [] \<Rightarrow>
          (case next_event e c of
             (c, None) \<Rightarrow> Some (c, Inl ''recv_deliver: EOF'')
           | (c, Some (KickEv reason)) \<Rightarrow> Some (c, Inl (''recv: KICK '' @ reason))
           | (c, Some (DeliverEv d)) \<Rightarrow> Some (c, Inr d)
           | (c, Some (ReplyEv r)) \<Rightarrow>
               if heartbeat_ok r then recv_deliver e c else Some (c, Inl txt_recv_201_before_200)))"

subsection \<open>Requests\<close>

text \<open>A request of the client followed by a waiting loop, if the request did not throw.\<close>

definition after_request :: "'s relay_client \<times> (string + u32) \<Rightarrow> 's client \<Rightarrow>
    (u32 \<Rightarrow> 's client \<Rightarrow> ('s client \<times> (string + 'r)) option) \<Rightarrow> ('s client \<times> (string + 'r)) option" where
  "after_request req c k =
     (case req of
        (rc, Inl err) \<Rightarrow> Some (c\<lparr>cl_rc := rc\<rparr>, Inl err)
      | (rc, Inr q) \<Rightarrow> k q (c\<lparr>cl_rc := rc\<rparr>))"

definition with_number :: "u32 \<Rightarrow> ('s client \<times> (string + unit)) option \<Rightarrow> ('s client \<times> (string + u32)) option" where
  "with_number q = map_option (\<lambda>(c, r). (c, map_sum id (\<lambda>_. q) r))"

definition sign_on :: "'s sdk_env \<Rightarrow> string \<Rightarrow> string \<Rightarrow> recv_mode \<Rightarrow> string \<Rightarrow> 's client \<Rightarrow> ('s client \<times> (string + unit)) option" where
  "sign_on e un pw rm pr c =
     (let c = c\<lparr>cl_username := un\<rparr>
      in after_request (rc_login e un pw pr (recv_mode_str rm) (cl_rc c)) c (\<lambda>_. sign_on_wait e))"

record SendOptions =
  wait_server_accept :: bool

definition default_send_options :: SendOptions where
  "default_send_options = \<lparr>wait_server_accept = True\<rparr>"

definition cl_send :: "'s sdk_env \<Rightarrow> string \<Rightarrow> string \<Rightarrow> SendOptions \<Rightarrow> 's client \<Rightarrow> ('s client \<times> (string + u32)) option" where
  "cl_send e dst payload opt c =
     after_request (rc_send_data e dst payload (cl_rc c)) c
       (\<lambda>q c. if wait_server_accept opt then with_number q (drain_server_ack e q ''DATA'' c) else Some (c, Inr q))"

definition poly_calls :: "int \<Rightarrow> string \<Rightarrow> pk_call list \<Rightarrow> pk_call list" where
  "poly_calls kind ty data =
     [PackMap 3, PackStr ''kind'', PackInt kind, PackStr ''type'', PackStr ty, PackStr ''data''] @ data"

definition send_poly :: "'s sdk_env \<Rightarrow> string \<Rightarrow> int \<Rightarrow> string \<Rightarrow> mobj \<Rightarrow> SendOptions \<Rightarrow> 's client \<Rightarrow> ('s client \<times> (string + u32)) option" where
  "send_poly e dst kind ty ob opt c = cl_send e dst (s_pack e (poly_calls kind ty (calls ob))) opt c"

definition send_poly_of ::
  "'s sdk_env \<Rightarrow> 'a adaptor \<Rightarrow> string \<Rightarrow> int \<Rightarrow> string \<Rightarrow> 'a \<Rightarrow> SendOptions \<Rightarrow> 's client \<Rightarrow> ('s client \<times> (string + u32)) option" where
  "send_poly_of e ad dst kind ty v opt c = cl_send e dst (s_pack e (poly_calls kind ty (ad_pack ad v))) opt c"

definition send_typed ::
  "'s sdk_env \<Rightarrow> 'a adaptor \<Rightarrow> string \<Rightarrow> string \<Rightarrow> 'a \<Rightarrow> SendOptions \<Rightarrow> 's client \<Rightarrow> ('s client \<times> (string + u32)) option" where
  "send_typed e ad dst ty v opt c =
     after_request (send_data_typed e ad dst ty v (cl_rc c)) c
       (\<lambda>q c. if wait_server_accept opt then with_number q (drain_server_ack e q ''DATA'' c) else Some (c, Inr q))"

definition cl_heartbeat :: "'s sdk_env \<Rightarrow> 's client \<Rightarrow> ('s client \<times> (string + unit)) option" where
  "cl_heartbeat e c = after_request (rc_heartbeat e (cl_rc c)) c (expect_heartbeat_ok e)"

text \<open>\<^verbatim>\<open>msgpack::unpack\<close> of the reply body; the exception of a malformed body is not caught.\<close>

definition unpack_reply :: "'s sdk_env \<Rightarrow> ('s client \<times> (string + ServerReply)) option \<Rightarrow> ('s client \<times> (string + mobj)) option" where
  "unpack_reply e = map_option (\<lambda>(c, r). (c,
     case r of
       Inl err \<Rightarrow> Inl err
     | Inr r \<Rightarrow> (case s_unpack e (sr_body_raw r) of None \<Rightarrow> Inl ''msgpack'' | Some ob \<Rightarrow> Inr ob)))"

definition control_request :: "'s sdk_env \<Rightarrow> string \<Rightarrow> 's client \<Rightarrow> ('s client \<times> (string + mobj)) option" where
  "control_request e body c =
     after_request (rc_control_send_raw e body (cl_rc c)) c (\<lambda>q c. unpack_reply e (drain_control_full e q c))"

definition cl_control_list_users :: "'s sdk_env \<Rightarrow> bool \<Rightarrow> 's client \<Rightarrow> ('s client \<times> (string + mobj option)) option" where
  "cl_control_list_users e wait c =
     after_request (rc_control_list_users e (cl_rc c)) c
       (\<lambda>q c. if \<not> wait then Some (c, Inr None)
              else map_option (\<lambda>(c, r). (c, map_sum id Some r)) (unpack_reply e (drain_control_full e q c)))"

definition cl_control_kick_user :: "'s sdk_env \<Rightarrow> u64 \<Rightarrow> bool \<Rightarrow> 's client \<Rightarrow> ('s client \<times> (string + u32)) option" where
  "cl_control_kick_user e target wait c =
     after_request (rc_control_kick_user e target (cl_rc c)) c
       (\<lambda>q c. if wait then with_number q (drain_server_ack e q ''CONTROL'' c) else Some (c, Inr q))"

definition log_deliver :: "Deliver \<Rightarrow> string" where
  "log_deliver d =
     ''[deliver] '' @ d_src_username d @ '' -> '' @ d_dst_username d @ '' bytes='' @ dec_digits (length (d_payload d)) @
     '' src_conn='' @ dec_digits (unat (d_src_conn_id d)) @ '' dst_conn='' @ dec_digits (unat (d_dst_conn_id d)) @
     (case d_typed d of Some tp \<Rightarrow> if tp_valid tp then '' typed='' @ tp_type tp else [] | None \<Rightarrow> []) @ [CHR 0x0A]"

partial_function (option) drain_login_ok :: "'s sdk_env \<Rightarrow> 's relay_client \<Rightarrow> ('s relay_client \<times> bool) option" where
  "drain_login_ok e c =
     (case rc_recv e c of
        (c, None) \<Rightarrow> Some (c, False)
      | (c, Some (KickEv _)) \<Rightarrow> Some (c, False)
      | (c, Some (ReplyEv r)) \<Rightarrow> Some (c, sr_ok r)
      | (c, Some (DeliverEv _)) \<Rightarrow> drain_login_ok e c)"

definition try_login :: "'s sdk_env \<Rightarrow> string \<Rightarrow> u16 \<Rightarrow> string \<Rightarrow> string \<Rightarrow> recv_mode \<Rightarrow> string \<Rightarrow> 's relay_client \<Rightarrow> (string + bool) option" where
  "try_login e host port un pw rm pr c =
     (case rc_connect e host port c of
        (c, Some err) \<Rightarrow> Some (Inl err)
      | (c, None) \<Rightarrow>
          (case rc_login e un pw pr (recv_mode_str rm) c of
             (c, Inl err) \<Rightarrow> Some (Inl err)
           | (c, Inr _) \<Rightarrow> map_option (\<lambda>(_, b). Inr b) (drain_login_ok e c)))"

subsection \<open>Sequences of events\<close>

text \<open>\<open>event_stream e c evs c'\<close>: the next events of \<open>c\<close> are \<open>evs\<close>, and reading them leads to \<open>c'\<close>.\<close>

inductive event_stream :: "'s sdk_env \<Rightarrow> 's client \<Rightarrow> Event list \<Rightarrow> 's client \<Rightarrow> bool" for e where
  stream_end: "event_stream e c [] c"
| stream_step: "\<lbrakk>next_event e c = (c1, Some ev); event_stream e c1 evs c'\<rbrakk> \<Longrightarrow> event_stream e c (ev # evs) c'"

inductive_cases stream_nilE: "event_stream e c [] c'"
inductive_cases stream_consE: "event_stream e c (ev # evs) c'"

fun delivers :: "Event list \<Rightarrow> Deliver list" where
  "delivers [] = []"
| "delivers (DeliverEv d # evs) = d # delivers evs"
| "delivers (_ # evs) = delivers evs"

text \<open>What a loop waiting for an acknowledgement passes over.\<close>

fun passed_over :: "Event \<Rightarrow> bool" where
  "passed_over (DeliverEv _) = True"
| "passed_over (ReplyEv r) = heartbeat_ok r"
| "passed_over (KickEv _) = False"

fun keep_deliver :: "Event \<Rightarrow> 's client \<Rightarrow> 's client" where
  "keep_deliver (DeliverEv d) c = c\<lparr>pre_delivers := pre_delivers c @ [d]\<rparr>"
| "keep_deliver _ c = c"

lemma next_event_pre_delivers:
  "next_event e c = (c1, ev) \<Longrightarrow> next_event e (c\<lparr>pre_delivers := x\<rparr>) = (c1\<lparr>pre_delivers := x\<rparr>, ev)"
  "next_event e c = (c1, ev) \<Longrightarrow> pre_delivers c1 = pre_delivers c"
  by (auto simp: next_event_def split: list.splits prod.splits option.splits)

lemma event_stream_set_pre_delivers:
  "event_stream e c evs c' \<Longrightarrow> event_stream e (c\<lparr>pre_delivers := x\<rparr>) evs (c'\<lparr>pre_delivers := x\<rparr>)"
  by (induction rule: event_stream.induct) (auto intro: event_stream.intros dest: next_event_pre_delivers(1))

text \<open>Every waiting loop keeps the deliveries it meets, in order, for \<^verbatim>\<open>recv_deliver\<close>.\<close>

lemma collecting_loop:
  assumes step: "\<And>c c1 ev. \<lbrakk>next_event e c = (c1, Some ev); skip ev\<rbrakk> \<Longrightarrow> loop c = loop (keep_deliver ev c1)"
  shows "event_stream e c evs c' \<Longrightarrow> list_all skip evs \<Longrightarrow> loop c = loop (c'\<lparr>pre_delivers := pre_delivers c @ delivers evs\<rparr>)"
proof (induction evs arbitrary: c c')
  case Nil
  then show ?case by (auto elim: stream_nilE)
next
  case (Cons ev evs)
  from Cons.prems(1) obtain c1 where n: "next_event e c = (c1, Some ev)" and s: "event_stream e c1 evs c'"
    by (rule stream_consE)
  have p: "pre_delivers c1 = pre_delivers c" using next_event_pre_delivers(2) [OF n] .
  have one: "loop c = loop (keep_deliver ev c1)" using step [OF n] Cons.prems(2) by simp
  have rest: "list_all skip evs" using Cons.prems(2) by simp
  show ?case
  proof (cases ev)
    case (DeliverEv d)
    have "loop (c1\<lparr>pre_delivers := pre_delivers c @ [d]\<rparr>) = loop (c'\<lparr>pre_delivers := pre_delivers c @ d # delivers evs\<rparr>)"
      using Cons.IH [OF event_stream_set_pre_delivers [OF s, of "pre_delivers c @ [d]"] rest] by simp
    with one p DeliverEv show ?thesis by simp
  qed (use one p Cons.IH [OF s rest] in simp_all)
qed

lemma drain_server_ack_passes:
  "event_stream e c evs c' \<Longrightarrow> list_all passed_over evs \<Longrightarrow>
    drain_server_ack e q op c = drain_server_ack e q op (c'\<lparr>pre_delivers := pre_delivers c @ delivers evs\<rparr>)"
proof (rule collecting_loop [where loop = "drain_server_ack e q op"])
  fix c c1 :: "'a client" and ev
  assume "next_event e c = (c1, Some ev)" and "passed_over ev"
  then show "drain_server_ack e q op c = drain_server_ack e q op (keep_deliver ev c1)"
    by (cases ev) (simp_all add: drain_server_ack.simps [of e q op c])
qed

lemma drain_control_full_passes:
  "event_stream e c evs c' \<Longrightarrow> list_all passed_over evs \<Longrightarrow>
    drain_control_full e q c = drain_control_full e q (c'\<lparr>pre_delivers := pre_delivers c @ delivers evs\<rparr>)"
proof (rule collecting_loop [where loop = "drain_control_full e q"])
  fix c c1 :: "'a client" and ev
  assume "next_event e c = (c1, Some ev)" and "passed_over ev"
  then show "drain_control_full e q c = drain_control_full e q (keep_deliver ev c1)"
    by (cases ev) (simp_all add: drain_control_full.simps [of e q c])
qed

lemma expect_heartbeat_ok_passes:
  "event_stream e c evs c' \<Longrightarrow> list_all (\<lambda>ev. passed_over ev \<and> (\<forall>r. ev = ReplyEv r \<longrightarrow> sr_seq r \<noteq> q)) evs \<Longrightarrow>
    expect_heartbeat_ok e q c = expect_heartbeat_ok e q (c'\<lparr>pre_delivers := pre_delivers c @ delivers evs\<rparr>)"
proof (rule collecting_loop [where loop = "expect_heartbeat_ok e q"])
  fix c c1 :: "'a client" and ev
  assume "next_event e c = (c1, Some ev)" and "passed_over ev \<and> (\<forall>r. ev = ReplyEv r \<longrightarrow> sr_seq r \<noteq> q)"
  then show "expect_heartbeat_ok e q c = expect_heartbeat_ok e q (keep_deliver ev c1)"
    by (cases ev) (simp_all add: expect_heartbeat_ok.simps [of e q c])
qed

subsection \<open>Termination\<close>

text \<open>
  A source of events that runs dry: every event \<^verbatim>\<open>recv\<close> returns uses up some input.  Over such a
  source no waiting loop waits for ever.
\<close>

locale finite_input =
  fixes e :: "'s sdk_env" and left :: "'s relay_client \<Rightarrow> nat"
  assumes recv_uses_input: "rc_recv e c = (c', Some ev) \<Longrightarrow> left c' < left c"
begin

definition pending :: "'s client \<Rightarrow> nat" where
  "pending c = length (in_order c) + left (cl_rc c)"

lemma next_event_pending: "next_event e c = (c', Some ev) \<Longrightarrow> pending c' < pending c"
  by (auto simp: next_event_def pending_def split: list.splits prod.splits option.splits dest: recv_uses_input)

lemma pending_pre_delivers [simp]: "pending (c\<lparr>pre_delivers := x\<rparr>) = pending c"
  by (simp add: pending_def)

lemma pending_keep [simp]: "pending (keep_deliver ev c) = pending c"
  by (cases ev) simp_all

lemma loop_returns:
  assumes step: "\<And>c. (\<exists>y. loop c = Some y) \<or>
      (\<exists>c1 ev. next_event e c = (c1, Some ev) \<and> loop c = loop (keep_deliver ev c1))"
  shows "\<exists>y. loop c = Some y"
proof (induction "pending c" arbitrary: c rule: less_induct)
  case less
  from step [of c] show ?case
  proof
    assume "\<exists>c1 ev. next_event e c = (c1, Some ev) \<and> loop c = loop (keep_deliver ev c1)"
    then obtain c1 ev where n: "next_event e c = (c1, Some ev)" and l: "loop c = loop (keep_deliver ev c1)" by blast
    have "pending (keep_deliver ev c1) < pending c" using next_event_pending [OF n] by simp
    from less [OF this] l show ?thesis by simp
  qed
qed

lemma sign_on_wait_returns: "\<exists>y. sign_on_wait e c = Some y"
proof (rule loop_returns)
  fix c
  show "(\<exists>y. sign_on_wait e c = Some y) \<or>
      (\<exists>c1 ev. next_event e c = (c1, Some ev) \<and> sign_on_wait e c = sign_on_wait e (keep_deliver ev c1))"
    by (cases "next_event e c") (auto simp: sign_on_wait.simps [of e c] split: option.splits Event.splits)
qed

lemma drain_server_ack_returns: "\<exists>y. drain_server_ack e q op c = Some y"
proof (rule loop_returns)
  fix c
  show "(\<exists>y. drain_server_ack e q op c = Some y) \<or>
      (\<exists>c1 ev. next_event e c = (c1, Some ev) \<and> drain_server_ack e q op c = drain_server_ack e q op (keep_deliver ev c1))"
    by (cases "next_event e c") (auto simp: drain_server_ack.simps [of e q op c] split: option.splits Event.splits)
qed

lemma drain_control_full_returns: "\<exists>y. drain_control_full e q c = Some y"
proof (rule loop_returns)
  fix c
  show "(\<exists>y. drain_control_full e q c = Some y) \<or>
      (\<exists>c1 ev. next_event e c = (c1, Some ev) \<and> drain_control_full e q c = drain_control_full e q (keep_deliver ev c1))"
    by (cases "next_event e c") (auto simp: drain_control_full.simps [of e q c] split: option.splits Event.splits)
qed

lemma expect_heartbeat_ok_returns: "\<exists>y. expect_heartbeat_ok e q c = Some y"
proof (rule loop_returns)
  fix c
  show "(\<exists>y. expect_heartbeat_ok e q c = Some y) \<or>
      (\<exists>c1 ev. next_event e c = (c1, Some ev) \<and> expect_heartbeat_ok e q c = expect_heartbeat_ok e q (keep_deliver ev c1))"
    by (cases "next_event e c") (auto simp: expect_heartbeat_ok.simps [of e q c] split: option.splits Event.splits)
qed

lemma recv_deliver_returns: "\<exists>y. recv_deliver e c = Some y"
proof (rule loop_returns)
  fix c
  show "(\<exists>y. recv_deliver e c = Some y) \<or>
      (\<exists>c1 ev. next_event e c = (c1, Some ev) \<and> recv_deliver e c = recv_deliver e (keep_deliver ev c1))"
    by (cases "next_event e c") (auto simp: recv_deliver.simps [of e c] split: option.splits Event.splits list.splits)
qed

lemma drain_login_ok_returns: "drain_login_ok e c \<noteq> None"
proof (induction "left c" arbitrary: c rule: less_induct)
  case less
  obtain c1 v where r: "rc_recv e c = (c1, v)" by fastforce
  show ?case
  proof (cases v)
    case None
    with r show ?thesis by (simp add: drain_login_ok.simps [of e c])
  next
    case (Some ev)
    with r less [OF recv_uses_input, of c1 ev] show ?thesis
      by (cases ev) (simp_all add: drain_login_ok.simps [of e c])
  qed
qed

end

lemma wire_read_cases:
  assumes "s_read wire_env n s = (r, s')"
  shows "r = None \<or> (\<exists>d. r = Some d \<and> length (fst (fst s')) + n = length (fst (fst s)))"
proof (cases "n \<le> length (fst (fst s))")
  case True
  then obtain t where "recv_exact chunk_recv n (fst s) = (Some (take n (fst (fst s))), t)" "fst t = drop n (fst (fst s))"
    using chunked.recv_exact_ok [of n "fst s"] by auto
  with assms True show ?thesis by (auto simp: wire_env_def)
next
  case False
  with wire_short [of s n] assms show ?thesis by auto
qed

interpretation wire_input: finite_input wire_env "\<lambda>c. length (fst (fst (rc_sock c)))"
proof
  fix c c' :: "wire relay_client" and ev
  assume r: "rc_recv wire_env c = (c', Some ev)"
  then obtain hb s where h: "s_read wire_env 24 (rc_sock c) = (Some hb, s)" and o: "rc_open c"
    by (auto simp: rc_recv_def kHeaderLen_def split: if_splits prod.splits option.splits)
  have l: "length (fst (fst s)) + 24 = length (fst (fst (rc_sock c)))" using wire_read_cases [OF h] by simp
  let ?b = "if body_len (unpack_le hb) \<noteq> 0 then s_read wire_env (unat (body_len (unpack_le hb))) s else (Some [], s)"
  obtain v t where b: "?b = (v, t)" by (cases ?b) blast
  from r h o b obtain bb where v: "v = Some bb" and s: "rc_sock c' = t"
    by (cases v) (auto simp: rc_recv_def kHeaderLen_def rc_caught_def rc_close_def Let_def split: if_splits option.splits)
  have "length (fst (fst t)) \<le> length (fst (fst s))"
    using b v wire_read_cases [of "unat (body_len (unpack_le hb))" s v t] by (auto split: if_splits)
  with l s show "length (fst (fst (rc_sock c'))) < length (fst (fst (rc_sock c)))" by simp
qed

subsection \<open>Frames as events\<close>

definition frame_event :: "'s sdk_env \<Rightarrow> Header \<Rightarrow> string \<Rightarrow> Event option" where
  "frame_event e h body =
     (if msg_type h = kMsgDeliver then parse_deliver e h body
      else if msg_type h = kMsgKick then parse_kick e body
      else if msg_type h = kMsgServerReply then parse_reply e h body
      else None)"

text \<open>\<open>carries fs evs\<close>: the frames \<open>fs\<close> fit their length fields and decode to the events \<open>evs\<close>.\<close>

definition carries :: "(Header \<times> string) list \<Rightarrow> Event list \<Rightarrow> bool" where
  "carries fs evs \<longleftrightarrow> list_all2 (\<lambda>(h, body) ev. length body < 2 ^ 32 \<and>
     frame_event wire_env (h\<lparr>body_len := word_of_nat (length body)\<rparr>) body = Some ev) fs evs"

definition frames_bytes :: "(Header \<times> string) list \<Rightarrow> bytes" where
  "frames_bytes fs = concat (map (\<lambda>(h, body). bytes_of_chars (pack_frame h body)) fs)"

abbreviation unread :: "wire client \<Rightarrow> bytes" where
  "unread c \<equiv> fst (fst (rc_sock (cl_rc c)))"

abbreviation written :: "wire client \<Rightarrow> string" where
  "written c \<equiv> snd (rc_sock (cl_rc c))"

definition idle_client :: "wire client \<Rightarrow> bool" where
  "idle_client c \<longleftrightarrow> rc_open (cl_rc c) \<and> in_order c = []"

lemma dispatch_event: "frame_event e h body = Some ev \<Longrightarrow> dispatch e h body c = (c, Some ev)"
  by (auto simp: dispatch_def frame_event_def rc_caught_def split: if_splits)

lemma next_event_frame:
  assumes "idle_client c" and "unread c = bytes_of_chars (pack_frame h body) @ rest" and "carries [(h, body)] [ev]"
  shows "\<exists>ks. next_event wire_env c = (c\<lparr>cl_rc := (cl_rc c)\<lparr>rc_sock := ((rest, ks), written c)\<rparr>\<rparr>, Some ev)"
proof -
  have b: "length body < 2 ^ 32" and f: "frame_event wire_env (h\<lparr>body_len := word_of_nat (length body)\<rparr>) body = Some ev"
    using assms(3) by (simp_all add: carries_def)
  obtain ks where "rc_recv wire_env (cl_rc c) =
      dispatch wire_env (h\<lparr>body_len := word_of_nat (length body)\<rparr>) body ((cl_rc c)\<lparr>rc_sock := ((rest, ks), written c)\<rparr>)"
    using rc_recv_frame [OF _ assms(2) b] assms(1) by (auto simp: idle_client_def)
  with f assms(1) show ?thesis
    by (intro exI [of _ ks]) (simp add: next_event_def idle_client_def dispatch_event)
qed

lemma carries_Cons: "carries ((h, body) # fs) evs \<longleftrightarrow> (\<exists>ev evs'. evs = ev # evs' \<and> carries [(h, body)] [ev] \<and> carries fs evs')"
  by (auto simp: carries_def list_all2_Cons1)

lemma wire_event_stream:
  "\<lbrakk>idle_client c; unread c = frames_bytes fs @ rest; carries fs evs\<rbrakk> \<Longrightarrow>
    \<exists>ks. event_stream wire_env c evs (c\<lparr>cl_rc := (cl_rc c)\<lparr>rc_sock := ((rest, ks), written c)\<rparr>\<rparr>)"
proof (induction fs arbitrary: c evs)
  case Nil
  then have "((rest, snd (fst (rc_sock (cl_rc c)))), written c) = rc_sock (cl_rc c)" and e: "evs = []"
    by (simp_all add: frames_bytes_def carries_def prod_eq_iff)
  then have "event_stream wire_env c [] (c\<lparr>cl_rc := (cl_rc c)\<lparr>rc_sock := ((rest, snd (fst (rc_sock (cl_rc c)))), written c)\<rparr>\<rparr>)"
    by (simp add: stream_end)
  with e show ?case by blast
next
  case (Cons f fs)
  obtain h body where f: "f = (h, body)" by fastforce
  from Cons.prems(3) f obtain ev evs' where e: "evs = ev # evs'" "carries [(h, body)] [ev]" "carries fs evs'"
    using carries_Cons [THEN iffD1] by blast
  have "unread c = bytes_of_chars (pack_frame h body) @ (frames_bytes fs @ rest)"
    using Cons.prems(2) f by (simp add: frames_bytes_def)
  from next_event_frame [OF Cons.prems(1) this e(2)] obtain ks where
    n: "next_event wire_env c = (c\<lparr>cl_rc := (cl_rc c)\<lparr>rc_sock := ((frames_bytes fs @ rest, ks), written c)\<rparr>\<rparr>, Some ev)" by blast
  let ?c = "c\<lparr>cl_rc := (cl_rc c)\<lparr>rc_sock := ((frames_bytes fs @ rest, ks), written c)\<rparr>\<rparr>"
  have "idle_client ?c" using Cons.prems(1) by (simp add: idle_client_def)
  from Cons.IH [OF this _ e(3)] obtain ks' where "event_stream wire_env ?c evs' (c\<lparr>cl_rc := (cl_rc c)\<lparr>rc_sock := ((rest, ks'), written c)\<rparr>\<rparr>)"
    by auto
  with n e(1) show ?case by (auto intro: stream_step)
qed

lemma event_stream_step_back:
  "event_stream e c (evs @ [ev]) c' \<Longrightarrow> \<exists>c1. event_stream e c evs c1 \<and> next_event e c1 = (c', Some ev)"
proof (induction evs arbitrary: c)
  case Nil
  then show ?case by (auto elim!: stream_consE stream_nilE intro: stream_end)
next
  case (Cons a evs)
  from Cons.prems obtain c2 where n: "next_event e c = (c2, Some a)" and s: "event_stream e c2 (evs @ [ev]) c'"
    by (auto elim: stream_consE)
  from Cons.IH [OF s] n show ?case by (blast intro: stream_step)
qed

lemma frames_bytes_append [simp]: "frames_bytes (fs @ gs) = frames_bytes fs @ frames_bytes gs"
  by (simp add: frames_bytes_def)

lemma carries_append: "\<lbrakk>carries fs evs; carries gs evs'\<rbrakk> \<Longrightarrow> carries (fs @ gs) (evs @ evs')"
  by (simp add: carries_def list_all2_appendI)

text \<open>The common course of a wait: noise, then the awaited event.\<close>

lemma wire_wait:
  assumes "idle_client c" and "unread c = frames_bytes (fs @ [f]) @ rest" and "carries fs evs" and "carries [f] [ev]"
  obtains c1 ks where "event_stream wire_env c evs c1"
    and "next_event wire_env c1 = (c\<lparr>cl_rc := (cl_rc c)\<lparr>rc_sock := ((rest, ks), written c)\<rparr>\<rparr>, Some ev)"
  using wire_event_stream [OF assms(1,2) carries_append [OF assms(3,4)]] event_stream_step_back by blast

subsection \<open>Properties of the waiting loops\<close>

text \<open>
  C15. The waiting loops end.  Whatever finite sequence of bytes the server sends before it closes, and
  however TCP cuts it, every operation of the client returns or throws: none waits for ever.
\<close>

theorem waiting_loops_return:
  fixes c :: "wire client"
  shows "sign_on wire_env un pw rm pr c \<noteq> None \<and> cl_send wire_env dst payload opt c \<noteq> None \<and>
    cl_heartbeat wire_env c \<noteq> None \<and> control_request wire_env body c \<noteq> None \<and>
    recv_deliver wire_env c \<noteq> None \<and> try_login wire_env host port un pw rm pr rc \<noteq> None"
proof (intro conjI)
  note loops = wire_input.sign_on_wait_returns wire_input.drain_server_ack_returns wire_input.expect_heartbeat_ok_returns
    wire_input.drain_control_full_returns wire_input.recv_deliver_returns
  show "sign_on wire_env un pw rm pr c \<noteq> None" "cl_send wire_env dst payload opt c \<noteq> None"
    "cl_heartbeat wire_env c \<noteq> None" "control_request wire_env body c \<noteq> None" "recv_deliver wire_env c \<noteq> None"
    using loops by (auto simp: sign_on_def cl_send_def cl_heartbeat_def control_request_def after_request_def with_number_def
        unpack_reply_def Let_def split: prod.splits sum.splits if_splits)
  show "try_login wire_env host port un pw rm pr rc \<noteq> None"
    using wire_input.drain_login_ok_returns by (simp add: try_login_def split: prod.splits sum.splits option.splits)
qed

definition data_frame :: "u32 \<Rightarrow> string \<Rightarrow> string \<Rightarrow> string" where
  "data_frame q dst payload =
     pack_frame (default_header\<lparr>msg_type := kClientData, seq := q\<rparr>) (mp_pack (data_calls dst payload))"

lemma mp_pack_nonempty: "mp_pack (PackMap n # cs) \<noteq> []"
  using enc_length(2) [of n] by (simp add: mp_pack_Cons)

lemma rc_send_data_wire:
  assumes "rc_open rc"
  shows "rc_send_data wire_env dst payload rc =
    (rc\<lparr>rc_seq := next_seq (rc_seq rc), rc_sock := (fst (rc_sock rc), snd (rc_sock rc) @ data_frame (next_seq (rc_seq rc)) dst payload)\<rparr>,
     Inr (next_seq (rc_seq rc)))"
proof -
  have "mp_pack (data_calls dst payload) \<noteq> []" unfolding data_calls_def by (rule mp_pack_nonempty)
  moreover have "s_write wire_env = (\<lambda>d s. (None, (\<lambda>s d. (fst s, snd s @ d)) s d))" by simp
  ultimately show ?thesis
    using rc_request_writes [of wire_env "\<lambda>s d. (fst s, snd s @ d)" rc kClientData "mp_pack (data_calls dst payload)"] assms
    by (simp add: rc_send_data_def data_frame_def pack_frame_def default_header_def Let_def)
qed

text \<open>
  C14. A send waits for its own acknowledgement.  The client writes one DATA frame; deliveries and heartbeat
  replies that arrive before the acknowledgement are passed over, the deliveries are kept for
  \<^verbatim>\<open>recv_deliver\<close> in their order of arrival behind those kept before, and the call returns the
  number of its frame without reading beyond the acknowledgement.
\<close>

theorem send_waits_for_its_ack:
  assumes "idle_client c" and "unread c = frames_bytes (fs @ [f]) @ rest"
    and "carries fs evs" and "list_all passed_over evs"
    and "carries [f] [ReplyEv r]" and "sr_ok r" and "sr_op r = ''DATA''" and "sr_seq r = next_seq (rc_seq (cl_rc c))"
  shows "\<exists>c'. cl_send wire_env dst payload default_send_options c = Some (c', Inr (next_seq (rc_seq (cl_rc c)))) \<and>
    pre_delivers c' = pre_delivers c @ delivers evs \<and> unread c' = rest \<and> idle_client c' \<and>
    written c' = written c @ data_frame (next_seq (rc_seq (cl_rc c))) dst payload"
proof -
  let ?q = "next_seq (rc_seq (cl_rc c))"
  let ?c = "c\<lparr>cl_rc := (cl_rc c)\<lparr>rc_seq := ?q, rc_sock := (fst (rc_sock (cl_rc c)), written c @ data_frame ?q dst payload)\<rparr>\<rparr>"
  have o: "rc_open (cl_rc c)" and idle: "idle_client ?c" and u: "unread ?c = frames_bytes (fs @ [f]) @ rest"
    using assms(1,2) by (simp_all add: idle_client_def)
  obtain c1 ks where s: "event_stream wire_env ?c evs c1"
    and n: "next_event wire_env c1 = (?c\<lparr>cl_rc := (cl_rc ?c)\<lparr>rc_sock := ((rest, ks), written ?c)\<rparr>\<rparr>, Some (ReplyEv r))"
    using wire_wait [OF idle u assms(3,5)] by blast
  let ?d = "pre_delivers c @ delivers evs"
  note n' = next_event_pre_delivers(1) [OF n, of ?d]
  have "drain_server_ack wire_env ?q ''DATA'' ?c = drain_server_ack wire_env ?q ''DATA'' (c1\<lparr>pre_delivers := ?d\<rparr>)"
    using drain_server_ack_passes [OF s assms(4), of ?q "''DATA''"] by simp
  also have "\<dots> = Some (?c\<lparr>cl_rc := (cl_rc ?c)\<lparr>rc_sock := ((rest, ks), written ?c)\<rparr>, pre_delivers := ?d\<rparr>, Inr ())"
    using n' assms(6-8) by (simp add: drain_server_ack.simps [of _ _ _ "c1\<lparr>pre_delivers := ?d\<rparr>"] heartbeat_ok_def)
  finally show ?thesis
    using o rc_send_data_wire [of "cl_rc c" dst payload]
    by (simp add: cl_send_def default_send_options_def after_request_def with_number_def idle_client_def assms(1) [unfolded idle_client_def])
qed

lemma parse_reply_map:
  "wf_obj (MMap m) \<Longrightarrow> parse_reply wire_env h (mp_pack (calls (MMap m))) =
    Some (ReplyEv (reply_fields m (empty_reply\<lparr>sr_seq := seq h, sr_body_raw := mp_pack (calls (MMap m)), sr_raw := []\<rparr>)))"
  by (simp only: parse_reply_def wire_env_simps mp.unpack_pack) (simp add: wire_env_def)

lemma parse_deliver_map:
  "wf_obj (MMap m) \<Longrightarrow> deliver_fields m (empty_deliver\<lparr>d_seq := seq h\<rparr>) = Some d \<Longrightarrow>
    parse_deliver wire_env h (mp_pack (calls (MMap m))) = Some (DeliverEv (d\<lparr>d_typed := decode_typed wire_env (d_payload d)\<rparr>))"
  by (simp only: parse_deliver_def wire_env_simps mp.unpack_pack) (simp add: Let_def)

definition note_obj :: mmap where "note_obj = [(MStr ''payload'', MBin ''hi''), (MStr ''src_username'', MStr ''al'')]"

definition ack_obj :: mmap where "ack_obj = [(MStr ''ok'', MBool True), (MStr ''op'', MStr ''DATA'')]"

definition note_frame :: "Header \<times> string" where
  "note_frame = (default_header\<lparr>msg_type := kMsgDeliver, seq := 9\<rparr>, mp_pack (calls (MMap note_obj)))"

definition ack_frame :: "Header \<times> string" where
  "ack_frame = (default_header\<lparr>msg_type := kMsgServerReply, seq := 2\<rparr>, mp_pack (calls (MMap ack_obj)))"

definition ack_client :: "wire client" where
  "ack_client = new_client \<lparr>rc_sock = ((frames_bytes ([note_frame] @ [ack_frame]) @ [], [3, 0, 7]), []), rc_open = True, rc_seq = 1\<rparr>"

lemma note_frame_carries: "\<exists>d. carries [note_frame] [DeliverEv d] \<and> d_payload d = ''hi''"
proof -
  have "parse_deliver wire_env h (mp_pack (calls (MMap note_obj))) =
      Some (DeliverEv ((empty_deliver\<lparr>d_seq := seq h, d_payload := ''hi'', d_src_username := ''al''\<rparr>)
        \<lparr>d_typed := decode_typed wire_env ''hi''\<rparr>))" for h
    by (subst parse_deliver_map [where d = "empty_deliver\<lparr>d_seq := seq h, d_payload := ''hi'', d_src_username := ''al''\<rparr>"]) (simp_all add: note_obj_def empty_deliver_def)
  moreover have "length (mp_pack (calls (MMap note_obj))) < 2 ^ 32" by (simp add: note_obj_def mp_pack_def enc_len_def)
  ultimately show ?thesis
    by (auto simp: carries_def note_frame_def frame_event_def empty_deliver_def)
qed

lemma ack_frame_carries:
  "\<exists>r. carries [ack_frame] [ReplyEv r] \<and> sr_ok r \<and> sr_op r = ''DATA'' \<and> sr_seq r = 2"
proof -
  have "parse_reply wire_env h (mp_pack (calls (MMap ack_obj))) =
      Some (ReplyEv (empty_reply\<lparr>sr_seq := seq h, sr_body_raw := mp_pack (calls (MMap ack_obj)), sr_raw := [], sr_ok := True, sr_op := ''DATA''\<rparr>))" for h
    by (subst parse_reply_map) (simp_all add: ack_obj_def)
  moreover have "length (mp_pack (calls (MMap ack_obj))) < 2 ^ 32" by (simp add: ack_obj_def mp_pack_def enc_len_def)
  ultimately show ?thesis
    by (auto simp: carries_def ack_frame_def frame_event_def msg_type_defs empty_reply_def)
qed

theorem send_waits_for_its_ack_witness:
  "\<exists>c'. cl_send wire_env ''bob'' ''x'' default_send_options ack_client = Some (c', Inr 2) \<and> map d_payload (pre_delivers c') = [''hi'']"
proof -
  obtain d where d: "carries [note_frame] [DeliverEv d]" "d_payload d = ''hi''" using note_frame_carries by blast
  obtain r where r: "carries [ack_frame] [ReplyEv r]" "sr_ok r" "sr_op r = ''DATA''" "sr_seq r = 2"
    using ack_frame_carries by blast
  have c: "idle_client ack_client" "unread ack_client = frames_bytes ([note_frame] @ [ack_frame]) @ []"
    "next_seq (rc_seq (cl_rc ack_client)) = 2" "pre_delivers ack_client = []"
    by (simp_all add: ack_client_def new_client_def idle_client_def next_seq_def)
  have "\<exists>c'. cl_send wire_env ''bob'' ''x'' default_send_options ack_client = Some (c', Inr 2) \<and> pre_delivers c' = [d]"
    using send_waits_for_its_ack [OF c(1,2) d(1) _ r(1-3), of "''bob''" "''x''"] r(4) c(3,4) by auto
  with d(2) show ?thesis by auto
qed

subsection \<open>The heartbeat thread\<close>

definition heartbeat_frame :: "u32 \<Rightarrow> string" where
  "heartbeat_frame q = pack_frame (default_header\<lparr>msg_type := kClientHeartbeat, seq := q\<rparr>) (mp_pack [PackMap 0])"

lemma rc_heartbeat_wire:
  assumes "rc_open rc"
  shows "rc_heartbeat wire_env rc =
    (rc\<lparr>rc_seq := next_seq (rc_seq rc), rc_sock := (fst (rc_sock rc), snd (rc_sock rc) @ heartbeat_frame (next_seq (rc_seq rc)))\<rparr>,
     Inr (next_seq (rc_seq rc)))"
proof -
  have "mp_pack [PackMap 0] \<noteq> []" by (rule mp_pack_nonempty)
  moreover have "s_write wire_env = (\<lambda>d s. (None, (\<lambda>s d. (fst s, snd s @ d)) s d))" by simp
  ultimately show ?thesis
    using rc_request_writes [of wire_env "\<lambda>s d. (fst s, snd s @ d)" rc kClientHeartbeat "mp_pack [PackMap 0]"] assms
    by (simp add: rc_heartbeat_def heartbeat_frame_def pack_frame_def default_header_def Let_def)
qed

lemma sleep_loop_eq: "sleep_loop n obs = (if n \<le> length (takeWhile Not obs) then Some (drop n obs) else None)"
  by (induction n obs rule: sleep_loop.induct) auto

lemma running_drop: "n \<le> length (takeWhile Not obs) \<Longrightarrow> length (takeWhile Not (drop n obs)) = length (takeWhile Not obs) - n"
  by (induction n obs rule: sleep_loop.induct) (auto split: if_splits)

text \<open>
  C40. The heartbeat thread keeps its interval.  As long as it reads \<^verbatim>\<open>false\<close> from the stop flag it sends one
  HEARTBEAT per \<open>n\<close> one-second sleeps, numbered consecutively, and nothing else; when it reads \<^verbatim>\<open>true\<close> it
  ends without sending another one.
\<close>

theorem heartbeat_thread_cadence:
  assumes "rc_open rc"
  shows "auto_heartbeat_loop wire_env n obs rc =
    (let k = length (takeWhile Not obs) div Suc n in
     rc\<lparr>rc_seq := (next_seq ^^ k) (rc_seq rc),
        rc_sock := (fst (rc_sock rc), snd (rc_sock rc) @ concat (map (\<lambda>i. heartbeat_frame ((next_seq ^^ Suc i) (rc_seq rc))) [0..<k]))\<rparr>)"
  using assms
proof (induction "length obs" arbitrary: obs rc rule: less_induct)
  case less
  let ?m = "length (takeWhile Not obs)"
  show ?case
  proof (cases "Suc n \<le> ?m")
    case False
    then have "?m div Suc n = 0" by simp
    moreover have "auto_heartbeat_loop wire_env n obs rc = rc"
      using False by (subst auto_heartbeat_loop.simps) (auto simp: sleep_loop_eq split: list.splits if_splits)
    ultimately show ?thesis by (simp add: Let_def)
  next
    case True
    then obtain obs1 where o: "obs = False # obs1" and n: "n \<le> length (takeWhile Not obs1)"
      by (cases obs) (auto split: if_splits)
    let ?rc = "rc\<lparr>rc_seq := next_seq (rc_seq rc), rc_sock := (fst (rc_sock rc), snd (rc_sock rc) @ heartbeat_frame (next_seq (rc_seq rc)))\<rparr>"
    let ?k = "length (takeWhile Not (drop n obs1)) div Suc n"
    have k: "?m div Suc n = Suc ?k" using running_drop [OF n] n o True by (simp add: le_div_geq)
    have "auto_heartbeat_loop wire_env n obs rc = auto_heartbeat_loop wire_env n (drop n obs1) ?rc"
      using o n rc_heartbeat_wire [OF less.prems] by (subst auto_heartbeat_loop.simps) (simp add: sleep_loop_eq)
    also have "\<dots> = ?rc\<lparr>rc_seq := (next_seq ^^ ?k) (rc_seq ?rc),
        rc_sock := (fst (rc_sock ?rc), snd (rc_sock ?rc) @ concat (map (\<lambda>i. heartbeat_frame ((next_seq ^^ Suc i) (rc_seq ?rc))) [0..<?k]))\<rparr>"
      using less.hyps [of "drop n obs1" ?rc] less.prems o by (simp add: Let_def)
    finally show ?thesis
      unfolding k by (simp add: Let_def map_upt_Suc funpow_swap1 del: upt_Suc)
  qed
qed

definition quiet_client :: "wire relay_client" where
  "quiet_client = \<lparr>rc_sock = (([], []), []), rc_open = True, rc_seq = 1\<rparr>"

theorem heartbeat_thread_cadence_witness:
  "snd (rc_sock (auto_heartbeat_loop wire_env 2 [False, False, False, False, True] quiet_client)) = heartbeat_frame 2"
  using heartbeat_thread_cadence [of quiet_client 2 "[False, False, False, False, True]"]
  by (simp add: quiet_client_def next_seq_def)

end
