(* ===== verification/End_To_End.thy ===== *)
theory End_To_End
  imports Interleaved_Server Client_Api
begin

text \<open>
  The client library and the server together: the bytes one side writes are what the other side
  reads.

  Both sides use the same wire format, so a frame the server posts is described by the event the
  client's \<^verbatim>\<open>recv\<close> makes of it (\<open>arrives\<close>), and the bytes a client writes are the input of one iteration
  of the server's \<^verbatim>\<open>read_loop\<close> (\<open>stream_input\<close>).  What happens between the strand of a session and its
  socket is the subject of \<open>Tcp_Session\<close> (\<open>session_fifo\<close>).
\<close>

subsection \<open>Frames of one side at the other\<close>

text \<open>\<open>arrives fr ev\<close>: a client that has the frame \<open>fr\<close> at the front of its socket, cut into any chunks, receives \<open>ev\<close>.\<close>

definition arrives :: "string \<Rightarrow> Event \<Rightarrow> bool" where
  "arrives fr ev \<longleftrightarrow>
     (\<forall>rc rest. rc_open rc \<longrightarrow> fst (fst (rc_sock rc)) = bytes_of_chars fr @ rest \<longrightarrow>
        (\<exists>rc'. rc_recv wire_env rc = (rc', Some ev) \<and> rc_open rc' \<and> fst (fst (rc_sock rc')) = rest))"

lemma pack_wire_frame: "pack_wire mt sq body = pack_frame (default_header\<lparr>msg_type := mt, seq := sq\<rparr>) body"
  by (simp add: pack_wire_def pack_frame_def default_header_def Let_def)

lemma arrives_wire:
  assumes "frame_event wire_env (default_header\<lparr>msg_type := mt, seq := sq, body_len := word_of_nat (length body)\<rparr>) body = Some ev"
    and "length body < 2 ^ 32"
  shows "arrives (pack_wire mt sq body) ev"
  unfolding arrives_def pack_wire_frame
proof (intro allI impI)
  fix rc :: "wire relay_client" and rest
  assume o: "rc_open rc" and b: "fst (fst (rc_sock rc)) = bytes_of_chars (pack_frame (default_header\<lparr>msg_type := mt, seq := sq\<rparr>) body) @ rest"
  from rc_recv_frame [OF o b assms(2)] dispatch_event [OF assms(1)] o
  show "\<exists>rc'. rc_recv wire_env rc = (rc', Some ev) \<and> rc_open rc' \<and> fst (fst (rc_sock rc')) = rest" by auto
qed

lemma length_enc_str: "length (enc (PackStr s)) \<le> length s + 5"
  by (simp add: enc_len_def)

lemma length_enc_int: "length (enc (PackInt i)) \<le> 9"
  by (simp add: Let_def)

lemma length_enc_bin: "length (enc (PackBin n)) \<le> 5"
  by (simp add: enc_len_def)

definition delivered :: "u32 \<Rightarrow> string \<Rightarrow> u64 \<Rightarrow> u64 \<Rightarrow> string \<Rightarrow> string \<Rightarrow> Deliver" where
  "delivered q p src dst su du =
     \<lparr>d_seq = q, d_payload = p, d_src_conn_id = src, d_dst_conn_id = dst, d_src_username = su, d_dst_username = du,
      d_typed = decode_typed wire_env p\<rparr>"

lemma length_deliver_body:
  "length (mp_pack (pack_deliver_envelope p src dst su du)) \<le> length p + length su + length du + 200"
proof -
  note b = length_enc_str [of "''payload''"] length_enc_str [of "''src_conn_id''"] length_enc_str [of "''dst_conn_id''"]
    length_enc_str [of "''src_username''"] length_enc_str [of "''dst_username''"] length_enc_str [of su] length_enc_str [of du]
    length_enc_int [of "uint src"] length_enc_int [of "uint dst"]
    length_enc_bin [of "word_of_nat (length p)"]
  have m: "length (enc (PackMap 5)) \<le> 5" by (simp add: enc_len_def)
  have "length (enc (PackBinBody (take (unat (word_of_nat (length p) :: u32)) p))) \<le> length p" by simp
  with b m show ?thesis
    by (simp add: pack_deliver_envelope_def mp_pack_Cons del: enc.simps)
qed

lemma deliver_frame_arrives:
  assumes "length p + length su + length du < 2 ^ 31"
  shows "arrives (pack_wire kMsgDeliver q (mp_pack (pack_deliver_envelope p src dst su du))) (DeliverEv (delivered q p src dst su du))"
proof (rule arrives_wire)
  have l: "length p < 2 ^ 32" using assms by simp
  let ?m = "[(MStr ''payload'', MBin p), (MStr ''src_conn_id'', MPosInt src), (MStr ''dst_conn_id'', MPosInt dst),
    (MStr ''src_username'', MStr su), (MStr ''dst_username'', MStr du)]"
  have "wf_obj (MMap ?m)" using assms by simp
  moreover have "deliver_fields ?m (empty_deliver\<lparr>d_seq := seq h\<rparr>) = Some ((delivered (seq h) p src dst su du)\<lparr>d_typed := None\<rparr>)" for h
    by (simp add: empty_deliver_def delivered_def)
  ultimately have "parse_deliver wire_env h (mp_pack (calls (MMap ?m))) = Some (DeliverEv (((delivered (seq h) p src dst su du)\<lparr>d_typed := None\<rparr>)
      \<lparr>d_typed := decode_typed wire_env (d_payload ((delivered (seq h) p src dst su du)\<lparr>d_typed := None\<rparr>))\<rparr>))" for h
    by (rule parse_deliver_map)
  then have "parse_deliver wire_env h (mp_pack (calls (deliver_obj p src dst su du))) = Some (DeliverEv (delivered (seq h) p src dst su du))" for h
    unfolding deliver_obj_def by (simp add: delivered_def del: calls.simps)
  then show "frame_event wire_env (default_header\<lparr>msg_type := kMsgDeliver, seq := q,
      body_len := word_of_nat (length (mp_pack (pack_deliver_envelope p src dst su du)))\<rparr>)
      (mp_pack (pack_deliver_envelope p src dst su du)) = Some (DeliverEv (delivered q p src dst su du))"
    unfolding deliver_envelope_calls [OF l] by (simp add: frame_event_def del: calls.simps)
  show "length (mp_pack (pack_deliver_envelope p src dst su du)) < 2 ^ 32"
    using length_deliver_body [of p src dst su du] assms by simp
qed

lemma ok_reply_arrives:
  assumes "length op \<le> 16"
  shows "\<exists>rr. arrives (pack_wire kMsgServerReply q (mp_pack (ok_reply op))) (ReplyEv rr) \<and> sr_ok rr \<and> sr_op rr = op \<and> sr_seq rr = q"
proof -
  have "wf_obj (ok_obj op)" using assms by (simp add: ok_obj_def)
  then have p: "parse_reply wire_env h (mp_pack (calls (ok_obj op))) = Some (ReplyEv (empty_reply\<lparr>sr_seq := seq h,
      sr_body_raw := mp_pack (calls (ok_obj op)), sr_raw := [], sr_ok := True, sr_op := op\<rparr>))" for h
    using parse_reply_map [of "[(MStr ''ok'', MBool True), (MStr ''op'', MStr op)]" h] unfolding ok_obj_def
    by (simp add: empty_reply_def)
  have "length (mp_pack (ok_reply op)) < 2 ^ 32" using assms by (simp add: ok_reply_def mp_pack_def enc_len_def)
  then have "arrives (pack_wire kMsgServerReply q (mp_pack (ok_reply op))) (ReplyEv (empty_reply\<lparr>sr_seq := q,
      sr_body_raw := mp_pack (calls (ok_obj op)), sr_raw := [], sr_ok := True, sr_op := op\<rparr>))"
    by (intro arrives_wire) (simp_all add: frame_event_def p ok_reply_calls msg_type_defs del: calls.simps)
  then show ?thesis by (auto simp: empty_reply_def)
qed

subsection \<open>Client frames at the server\<close>

text \<open>What the two reads of one iteration take from the bytes of a stream.\<close>

definition stream_input :: "bytes \<Rightarrow> int \<Rightarrow> read_input" where
  "stream_input bs t =
     \<lparr>ri_header = Some (take 24 bs),
      ri_body = Some (chars_of_bytes (take (unat (body_len (unpack_le (take 24 bs)))) (drop 24 bs))), ri_time = t\<rparr>"

definition reader_ready :: "'db env \<Rightarrow> 'db relay \<Rightarrow> u64 \<Rightarrow> bool" where
  "reader_ready e r c \<longleftrightarrow>
     \<not> stopped (the_sess r c) \<and>
     (idle_ms (timeouts (r_cfg r)) > 0 \<longrightarrow> e_now e - the (readers r c) \<le> idle_ms (timeouts (r_cfg r)))"

definition count_frame :: "u64 \<Rightarrow> int \<Rightarrow> nat \<Rightarrow> 'db relay \<Rightarrow> 'db relay" where
  "count_frame c t n r =
     r\<lparr>readers := (readers r)(c \<mapsto> t),
       r_metrics := (r_metrics r)\<lparr>frames_in := frames_in (r_metrics r) + 1,
         bytes_in := bytes_in (r_metrics r) + word_of_nat (unat kHeaderLen + n)\<rparr>\<rparr>"

lemma count_frame_fields [simp]:
  "r_cfg (count_frame c t n r) = r_cfg r" "heap (count_frame c t n r) = heap r" "name_to_uid (count_frame c t n r) = name_to_uid r"
  "user_deque (count_frame c t n r) = user_deque r" "user_recv_mode (count_frame c t n r) = user_recv_mode r"
  "rr_next_index (count_frame c t n r) = rr_next_index r"
  by (simp_all add: count_frame_def)

lemma read_client_frame:
  assumes "reader_ready e r c" and "magic h = kMagic" "version h = kVersion" "header_len h = kHeaderLen"
    and "length body \<le> unat (max_body_len (limits (r_cfg r)))"
  shows "read_loop_step e c (stream_input (bytes_of_chars (pack_frame h body) @ rest) t) r =
    (let r' = handle_client_frame e c (h\<lparr>body_len := word_of_nat (length body)\<rparr>) body (count_frame c t (length body) r)
     in (r', \<not> stopped (the_sess r' c)))"
proof -
  let ?h = "h\<lparr>body_len := word_of_nat (length body)\<rparr>"
  have "unat (max_body_len (limits (r_cfg r))) < 2 ^ 32"
    by (rule order_less_le_trans [OF unsigned_less]) simp
  with assms(5) have lb: "length body < 2 ^ 32" by simp
  define h' where "h' = ?h"
  have u: "unat (body_len h') = length body" using lb by (simp add: h'_def)
  have v: "magic h' = kMagic" "version h' = kVersion" "header_len h' = kHeaderLen" using assms(2-4) by (simp_all add: h'_def)
  have le: "\<not> body_len h' > max_body_len (limits (r_cfg r))" using assms(5) u by (simp add: word_less_nat_alt)
  have inp: "stream_input (bytes_of_chars (pack_frame h body) @ rest) t = \<lparr>ri_header = Some (pack_le h'), ri_body = Some body, ri_time = t\<rparr>"
    using u by (simp add: stream_input_def pack_frame_bytes h'_def)
  have b: "0 < body_len h' \<longleftrightarrow> body \<noteq> []" using u by (auto simp: word_less_nat_alt)
  have ready: "stopped (the_sess r c) = False"
    "(0 < idle_ms (timeouts (r_cfg r)) \<and> idle_ms (timeouts (r_cfg r)) < e_now e - the (readers r c)) = False"
    using assms(1) by (auto simp: reader_ready_def)
  show ?thesis
    using le b u v unfolding inp h'_def [symmetric]
    by (simp add: ready read_loop_step_def count_frame_def Let_def kHeaderLen_def)
qed

text \<open>A DATA frame of a logged-in session: the delivery, then the acknowledgement.\<close>

lemma handle_data_frame:
  assumes "e_unpack e = mp_unpack" and "logged_in (the_sess r c)" and "msg_type h = kClientData"
    and "length p < 2 ^ 32" and "length dst < 2 ^ 32" and "dst \<noteq> []"
  shows "handle_client_frame e c h (mp_pack (data_calls dst p)) r =
    (let r1 = upd_sess c (touch_heartbeat (e_now e)) r
     in send_reply e c (ok_reply ''DATA'') (seq h)
          (deliver_to_user_by_recv_mode e (username (the_sess r1 c)) (conn_id (the_sess r1 c)) dst p (seq h) r1))"
proof -
  have "mp_unpack (mp_pack (data_calls dst p)) = Some (data_body_obj dst p)"
    unfolding data_calls_eq [OF assms(4)] by (rule mp.unpack_pack) (use assms(4,5) in \<open>simp add: data_body_obj_def\<close>)
  with assms(1-3,6) show ?thesis
    by (simp add: handle_client_frame_def data_body_obj_def handle_data_def msg_type_defs Let_def)
qed

lemma touched_session:
  "the_sess (upd_sess c (touch_heartbeat n) r) d = (if d = c \<and> heap r c \<noteq> None then touch_heartbeat n (the_sess r d) else the_sess r d)"
  by (auto simp: the_sess_def)

lemma touched_fields [simp]:
  "username (touch_heartbeat n s) = username s" "conn_id (touch_heartbeat n s) = conn_id s" "strand (touch_heartbeat n s) = strand s"
  "stopped (touch_heartbeat n s) = stopped s" "sock_open (touch_heartbeat n s) = sock_open s"
  by (simp_all add: touch_heartbeat_def)

lemma recipients_cong:
  assumes "user_deque r' = user_deque r" "user_recv_mode r' = user_recv_mode r" "rr_next_index r' = rr_next_index r"
    "r_cfg r' = r_cfg r" "is_open r' = is_open r"
  shows "recipients r' uid = recipients r uid" and "list_user_connections uid r' = list_user_connections uid r"
proof -
  show c: "list_user_connections uid r' = list_user_connections uid r"
    using assms by (simp add: list_user_connections_def cong: option.case_cong)
  show "recipients r' uid = recipients r uid"
    unfolding recipients_def c mode_of_def rr_cursor_def assms ..
qed

lemma data_frame_posts:
  fixes n :: int and r :: "'db relay"
  assumes "name_to_uid r dst = Some uid" and "distinct (list_user_connections uid r)" and "length (list_user_connections uid r) < 2 ^ 64"
    and "heap r c \<noteq> None"
  defines "r1 \<equiv> upd_sess c (touch_heartbeat n) r"
  shows "heap (send_reply e c buf sq (deliver_to_user_by_recv_mode e su sc dst p sq r1)) =
    post_all (\<lambda>d. (if d \<in> set (recipients r uid) then [PostSend (deliver_frame e su sc dst p sq r1 d)] else []) @
      (if d = c then [PostSend (pack_wire kMsgServerReply sq (e_pack e buf))] else [])) (heap r1)"
proof -
  have o: "is_open r1 = is_open r" by (auto simp: is_open_def fun_eq_iff r1_def touched_session)
  have rc: "recipients r1 uid = recipients r uid" "list_user_connections uid r1 = list_user_connections uid r"
    using recipients_cong [of r1 r, OF _ _ _ _ o] by (simp_all add: r1_def)
  have "ensure_uid_for_username e dst r1 = (r1, Some uid)" using assms(1) by (simp add: ensure_uid_for_username_def r1_def)
  from deliver_posts [OF this] assms(2,3) rc
  have "heap (deliver_to_user_by_recv_mode e su sc dst p sq r1) =
      post_all (\<lambda>d. if d \<in> set (recipients r uid) then [PostSend (deliver_frame e su sc dst p sq r1 d)] else []) (heap r1)" by simp
  then show ?thesis
    by (simp add: send_reply_def send_frame_def heap_post post_all_twice fun_upd_def del: heap_upd_sess)
qed

subsection \<open>A message from client to client\<close>

lemma recipient_session:
  assumes "relay_inv cfg0 r" and "d \<in> set (recipients r uid)"
  shows "\<exists>s. heap r d = Some s \<and> conn_id s = d"
proof -
  from assms(2) have "d \<in> set (list_user_connections uid r)" using recipients_subset by blast
  then obtain q where "user_deque r uid = Some q" "d \<in> set q"
    by (cases "user_deque r uid") (auto simp: list_user_connections_def)
  with relay_invD(2,3) [OF assms(1)] show ?thesis by (fastforce simp: deque_ok_def)
qed

text \<open>The frames a DATA frame makes the server post.\<close>

definition relayed :: "u32 \<Rightarrow> string \<Rightarrow> u64 \<Rightarrow> string \<Rightarrow> string \<Rightarrow> u64 \<Rightarrow> string" where
  "relayed q payload c su dst d = pack_wire kMsgDeliver q (mp_pack (pack_deliver_envelope payload c d su dst))"

definition data_ack :: "u32 \<Rightarrow> string" where
  "data_ack q = pack_wire kMsgServerReply q (mp_pack (ok_reply ''DATA''))"

lemma server_relays_heap:
  assumes inv: "relay_inv cfg0 r" and "1 \<le> max_connections_per_user (session cfg0)" and "max_connections_per_user (session cfg0) < 2 ^ 64"
    and "e_pack e = mp_pack" and "e_unpack e = mp_unpack"
    and "heap r c = Some s" and "logged_in s" and "reader_ready e r c"
    and "name_to_uid r dst = Some uid" and "dst \<noteq> []" and "length payload < 2 ^ 32" and "length dst < 2 ^ 32"
    and "length (mp_pack (data_calls dst payload)) \<le> unat (max_body_len (limits cfg0))"
  shows "heap (read_loop e c (stream_input (bytes_of_chars (data_frame q dst payload)) t) r) =
    post_all (\<lambda>d. (if d \<in> set (recipients r uid) then [PostSend (relayed q payload c (username s) dst d)] else []) @
      (if d = c then [PostSend (data_ack q)] else [])) ((heap r)(c \<mapsto> touch_heartbeat (e_now e) s))"
proof -
  let ?n = "length (mp_pack (data_calls dst payload))"
  let ?h = "default_header\<lparr>msg_type := kClientData, seq := q, body_len := word_of_nat ?n\<rparr>"
  let ?r = "count_frame c t ?n r"
  let ?r1 = "upd_sess c (touch_heartbeat (e_now e)) ?r"
  let ?fin = "send_reply e c (ok_reply ''DATA'') q (deliver_to_user_by_recv_mode e (username s) c dst payload q ?r1)"
  have s: "the_sess ?r c = s" "conn_id s = c" "\<not> stopped s"
    using assms(6,8) relay_invD(2) [OF inv assms(6)] by (auto simp: the_sess_def reader_ready_def)
  have "handle_client_frame e c ?h (mp_pack (data_calls dst payload)) ?r = ?fin"
    using handle_data_frame [OF assms(5), of ?r c ?h payload dst] s assms(6,7,10-12) by (simp add: touched_session Let_def)
  then have step: "read_loop_step e c (stream_input (bytes_of_chars (data_frame q dst payload)) t) r = (?fin, \<not> stopped (the_sess ?fin c))"
    using read_client_frame [OF assms(8), of "default_header\<lparr>msg_type := kClientData, seq := q\<rparr>" "mp_pack (data_calls dst payload)" "[]" t]
      assms(13) relay_invD(1) [OF inv]
    by (simp add: data_frame_def default_header_def Let_def)
  let ?ts = "\<lambda>d. (if d \<in> set (recipients r uid) then [PostSend (relayed q payload c (username s) dst d)] else []) @
      (if d = c then [PostSend (data_ack q)] else [])"
  have rc: "recipients ?r uid = recipients r uid" "list_user_connections uid ?r = list_user_connections uid r"
    using recipients_cong [of ?r r] is_open_cong [of ?r r] by simp_all
  have fr: "deliver_frame e (username s) c dst payload q ?r1 d = relayed q payload c (username s) dst d"
    if "d \<in> set (recipients r uid)" for d
    using recipient_session [OF inv that] s(1,2) assms(4,6) by (auto simp: deliver_frame_def relayed_def touched_session)
  have posts: "heap ?fin = post_all ?ts (heap ?r1)"
    using data_frame_posts [of ?r dst uid c e "ok_reply ''DATA''" q "username s" c payload "e_now e"] rc connections_bounded [OF inv assms(2,3)]
      assms(4,6,9) fr by (simp add: data_ack_def cong: if_cong)
  have dom: "x \<in> dom (heap ?r1)" if "heap r x \<noteq> None" for x using that by auto
  have "\<not> stopped (the_sess ?fin c)"
    using the_sess_post_all [OF posts dom [of c]] assms(6) s(1,3) by (simp add: touched_session)
  with step have "read_loop e c (stream_input (bytes_of_chars (data_frame q dst payload)) t) r = ?fin" by (simp add: read_loop_def)
  moreover have "heap ?r1 = (heap r)(c \<mapsto> touch_heartbeat (e_now e) s)" using assms(6) by simp
  ultimately show ?thesis using posts by simp
qed

lemma server_relays_data:
  assumes "relay_inv cfg0 r" and "1 \<le> max_connections_per_user (session cfg0)" and "max_connections_per_user (session cfg0) < 2 ^ 64"
    and "e_pack e = mp_pack" and "e_unpack e = mp_unpack"
    and "heap r c = Some s" and "logged_in s" and "reader_ready e r c"
    and "name_to_uid r dst = Some uid" and "dst \<noteq> []" and "length payload < 2 ^ 32" and "length dst < 2 ^ 32"
    and "length (mp_pack (data_calls dst payload)) \<le> unat (max_body_len (limits cfg0))"
    and "heap r d = Some s'"
  shows "strand (the_sess (read_loop e c (stream_input (bytes_of_chars (data_frame q dst payload)) t) r) d) = strand s' @
      (if d \<in> set (recipients r uid) then [PostSend (relayed q payload c (username s) dst d)] else []) @
      (if d = c then [PostSend (data_ack q)] else [])"
  using server_relays_heap [OF assms(1-13), of q t] assms(6,14) by (auto simp: the_sess_def post_all_def)

text \<open>
  C1. A message goes from client to client.  Wherever the other threads of the server stand: when a logged-in client sends a payload
  to a user, the bytes its library writes make the server post to every recipient of that user one
  frame, in which the recipient's library finds exactly the payload, the sender's name and
  connection, the recipient's own connection and the sender's sequence number, and to the sender
  one acknowledgement with that number; nothing else is posted to anyone.  TCP may cut the bytes
  anywhere.
\<close>

theorem message_reaches_recipients:
  assumes "reachable_threads e cfg0 (r, P)" and "1 \<le> max_connections_per_user (session cfg0)" and "max_connections_per_user (session cfg0) < 2 ^ 64"
    and "e_pack e = mp_pack" and "e_unpack e = mp_unpack"
    and "rc_open rc" and "rc_send_data wire_env dst payload rc = (rc', Inr q)"
    and "snd (rc_sock rc') = snd (rc_sock rc) @ sent_bytes"
    and "heap r c = Some s" and "logged_in s" and "reader_ready e r c"
    and "name_to_uid r dst = Some uid" and "dst \<noteq> []"
    and "length payload + length (username s) + length dst < 2 ^ 31"
    and "length (mp_pack (data_calls dst payload)) \<le> unat (max_body_len (limits cfg0))"
  shows "\<exists>fr ack rr. (\<forall>d. arrives (fr d) (DeliverEv (delivered q payload c d (username s) dst))) \<and>
    arrives ack (ReplyEv rr) \<and> sr_ok rr \<and> sr_op rr = ''DATA'' \<and> sr_seq rr = q \<and>
    (\<forall>d s'. heap r d = Some s' \<longrightarrow>
       strand (the_sess (read_loop e c (stream_input (bytes_of_chars sent_bytes) t) r) d) = strand s' @
         (if d \<in> set (recipients r uid) then [PostSend (fr d)] else []) @ (if d = c then [PostSend ack] else []))"
proof -
  have "sent_bytes = data_frame q dst payload" using rc_send_data_wire [OF assms(6), of dst payload] assms(7,8) by auto
  moreover have "length payload < 2 ^ 32" "length dst < 2 ^ 32" using assms(14) by simp_all
  note posts = server_relays_data [OF threads_relay_inv [OF assms(1,2)] assms(2-5,9-13) this assms(15)]
  moreover have "arrives (relayed q payload c (username s) dst d) (DeliverEv (delivered q payload c d (username s) dst))" for d
    unfolding relayed_def by (rule deliver_frame_arrives) (use assms(14) in simp)
  moreover obtain rr where "arrives (data_ack q) (ReplyEv rr)" "sr_ok rr" "sr_op rr = ''DATA''" "sr_seq rr = q"
    using ok_reply_arrives [of "''DATA''" q] by (auto simp: data_ack_def)
  ultimately show ?thesis
    by (intro exI [of _ "relayed q payload c (username s) dst"] exI [of _ "data_ack q"] exI [of _ rr]) simp
qed

definition bob_client :: "wire relay_client" where
  "bob_client = \<lparr>rc_sock = (([], []), []), rc_open = True, rc_seq = 1\<rparr>"

theorem message_reaches_recipients_witness:
  "\<exists>fr s. heap second_run 1 = Some s \<and> arrives fr (DeliverEv (delivered 2 ''hi'' 1 1 ''bob'' ''bob'')) \<and>
     PostSend fr \<in> set (strand (the_sess (read_loop demo_env 1
       (stream_input (bytes_of_chars (data_frame 2 ''bob'' ''hi'')) 9) second_run) 1))"
proof -
  obtain s where s: "heap second_run 1 = Some s" "logged_in s" "\<not> stopped s" "sock_open s" "username s = ''bob''"
    using second_run_facts by blast
  have cf: "r_cfg second_run = shipped_config"
    using relay_invD(1) [OF reachable_inv [OF second_run_reachable]] by simp
  have ready: "reader_ready demo_env second_run 1"
    using s second_run_facts cf by (simp add: reader_ready_def the_sess_def demo_env_def shipped_config_def default_config_def)
  have "1 \<in> set (recipients second_run 2)"
    using second_run_facts s cf
    by (simp add: recipients_def list_user_connections_def is_open_def mode_of_def shipped_config_def default_config_def
        default_session_policy_def)
  moreover have len: "length (mp_pack (data_calls ''bob'' ''hi'')) \<le> unat (max_body_len (limits shipped_config))"
    by (simp add: data_calls_def mp_pack_def enc_len_def shipped_config_def default_config_def)
  have send: "rc_send_data wire_env ''bob'' ''hi'' bob_client = (bob_client\<lparr>rc_seq := 2, rc_sock := (([], []), data_frame 2 ''bob'' ''hi'')\<rparr>, Inr 2)"
    using rc_send_data_wire [of bob_client "''bob''" "''hi''"] by (simp add: bob_client_def next_seq_def)
  note msg = message_reaches_recipients [OF reachable_scheduled [OF second_run_reachable] _ _ _ _ _ send _ s(1,2) ready, of "data_frame 2 ''bob'' ''hi''" 2 9]
  ultimately show ?thesis
    using msg second_run_facts s(1,5) len by (fastforce simp: bob_client_def demo_env_def)
qed

end
