(* ===== verification/Login_Flow.thy ===== *)
theory Login_Flow
  imports End_To_End
begin

text \<open>
  Logging in, from the client's \<^verbatim>\<open>sign_on\<close> to the server's reply and back.

  Without interference the client's call returns (\<open>login_end_to_end\<close>).  The server registers a connection in one
  critical section and posts the reply later, outside of it; the last part shows a schedule of the server's
  threads in which a delivery gets in between, and what the client makes of it.
\<close>

subsection \<open>The request and the reply\<close>

definition login_bytes :: "u32 \<Rightarrow> string \<Rightarrow> string \<Rightarrow> string \<Rightarrow> string \<Rightarrow> string" where
  "login_bytes q un pw pr rm =
     pack_frame (default_header\<lparr>msg_type := kClientLogin, seq := q\<rparr>) (mp_pack (login_calls un pw pr rm))"

lemma rc_login_wire:
  assumes "rc_open rc"
  shows "rc_login wire_env un pw pr rm rc =
    (rc\<lparr>rc_seq := next_seq (rc_seq rc), rc_sock := (fst (rc_sock rc), snd (rc_sock rc) @ login_bytes (next_seq (rc_seq rc)) un pw pr rm)\<rparr>,
     Inr (next_seq (rc_seq rc)))"
proof -
  have "mp_pack (login_calls un pw pr rm) \<noteq> []" unfolding login_calls_def by (rule mp_pack_nonempty)
  moreover have "s_write wire_env = (\<lambda>d s. (None, (\<lambda>s d. (fst s, snd s @ d)) s d))" by simp
  ultimately show ?thesis
    using rc_request_writes [of wire_env "\<lambda>s d. (fst s, snd s @ d)" rc kClientLogin "mp_pack (login_calls un pw pr rm)"] assms
    by (simp add: rc_login_def login_bytes_def pack_frame_def default_header_def Let_def)
qed

lemma sign_on_wire:
  assumes "idle_client c"
  shows "sign_on wire_env un pw rm pr c =
    sign_on_wait wire_env (c\<lparr>cl_username := un, cl_rc := (cl_rc c)\<lparr>rc_seq := next_seq (rc_seq (cl_rc c)),
      rc_sock := (fst (rc_sock (cl_rc c)), written c @ login_bytes (next_seq (rc_seq (cl_rc c))) un pw pr (recv_mode_str rm))\<rparr>\<rparr>)"
  using assms rc_login_wire [of "cl_rc c" un pw pr "recv_mode_str rm"]
  by (simp add: sign_on_def after_request_def idle_client_def Let_def)

text \<open>A frame at the front of the socket is the next event of an idle client.\<close>

lemma rc_recv_written: "rc_recv wire_env rc = (rc', ev) \<Longrightarrow> snd (rc_sock rc') = snd (rc_sock rc)"
  by (auto simp: rc_recv_def wire_env_def rc_close_def rc_caught_def Let_def split: if_splits prod.splits option.splits)

lemma arrives_next_event:
  assumes "arrives fr ev" and "idle_client c" and "unread c = bytes_of_chars fr @ rest"
  shows "\<exists>rc'. next_event wire_env c = (c\<lparr>cl_rc := rc'\<rparr>, Some ev) \<and> rc_open rc' \<and> fst (fst (rc_sock rc')) = rest \<and>
    snd (rc_sock rc') = written c"
proof -
  from assms obtain rc' where "rc_recv wire_env (cl_rc c) = (rc', Some ev)" "rc_open rc'" "fst (fst (rc_sock rc')) = rest"
    by (auto simp: arrives_def idle_client_def)
  with rc_recv_written assms(2) show ?thesis by (intro exI [of _ rc']) (simp add: next_event_def idle_client_def)
qed

definition login_frame_of :: "u32 \<Rightarrow> u64 \<Rightarrow> u64 \<Rightarrow> string \<Rightarrow> bool \<Rightarrow> LoginOk \<Rightarrow> string" where
  "login_frame_of q cid uid un adm ok = pack_wire kMsgServerReply q (mp_pack (login_reply cid uid un adm ok))"

definition known_notice :: "LoginOk \<Rightarrow> bool" where
  "known_notice ok \<longleftrightarrow> recv_mode_notice ok = None \<or> recv_mode_notice ok = Some txt_recv_mode_fixed"

lemma register_known_notice: "register_login e c uid adm un mode r = (r1, victims, ok) \<Longrightarrow> known_notice ok"
  by (auto simp: register_login_def choose_mode_def known_notice_def Let_def split: prod.splits if_splits)

lemma length_recv_mode_fixed: "length txt_recv_mode_fixed < 200"
  by (simp add: txt_recv_mode_fixed_def utf8_def)

lemma length_login_body:
  assumes "known_notice ok"
  shows "length (mp_pack (login_reply cid uid un adm ok)) \<le> length un + 500"
proof -
  note b = length_enc_str [of "''ok''"] length_enc_str [of "''op''"] length_enc_str [of "''LOGIN''"]
    length_enc_str [of "''conn_id''"] length_enc_str [of "''user_id''"] length_enc_str [of "''username''"]
    length_enc_str [of un] length_enc_str [of "''peer_role''"] length_enc_str [of "''admin''"] length_enc_str [of "''user''"]
    length_enc_str [of "''recv_mode''"] length_enc_str [of "''broadcast''"] length_enc_str [of "''round_robin''"]
    length_enc_str [of "''recv_mode_notice''"] length_enc_str [of txt_recv_mode_fixed]
    length_enc_int [of "uint cid"] length_enc_int [of "uint uid"] length_recv_mode_fixed
  have m: "length (enc (PackMap 8)) \<le> 5" "length (enc (PackMap 7)) \<le> 5" by (simp_all add: enc_len_def)
  have t: "length (enc (PackBool True)) = 1" by simp
  show ?thesis
    using assms b m t
    by (auto simp: known_notice_def login_reply_def recv_mode_cstr_def mp_pack_Cons mp_pack_append simp del: enc.simps)
qed

lemma login_reply_arrives:
  assumes "length un < 2 ^ 31" and "known_notice ok"
  shows "\<exists>rr. arrives (login_frame_of q cid uid un adm ok) (ReplyEv rr) \<and> sr_ok rr \<and> sr_op rr = ''LOGIN'' \<and> sr_seq rr = q"
proof -
  obtain kvs where kvs: "login_obj cid uid un adm ok = MMap kvs" "wf_obj (MMap kvs)"
    "reply_fields kvs x = x\<lparr>sr_ok := True, sr_op := ''LOGIN''\<rparr>" for x
    using assms length_recv_mode_fixed
    by (auto simp: login_obj_def known_notice_def recv_mode_cstr_def)
  have p: "parse_reply wire_env h (mp_pack (login_reply cid uid un adm ok)) = Some (ReplyEv (empty_reply\<lparr>sr_seq := seq h,
      sr_body_raw := mp_pack (login_reply cid uid un adm ok), sr_raw := [], sr_ok := True, sr_op := ''LOGIN''\<rparr>))" for h
    unfolding login_reply_calls kvs(1) using parse_reply_map [OF kvs(2), of h] kvs(3) by simp
  have "length (mp_pack (login_reply cid uid un adm ok)) < 2 ^ 32" using length_login_body [OF assms(2), of cid uid un adm] assms(1) by simp
  then have "arrives (login_frame_of q cid uid un adm ok) (ReplyEv (empty_reply\<lparr>sr_seq := q,
      sr_body_raw := mp_pack (login_reply cid uid un adm ok), sr_raw := [], sr_ok := True, sr_op := ''LOGIN''\<rparr>))"
    unfolding login_frame_of_def by (intro arrives_wire) (simp_all add: frame_event_def p msg_type_defs)
  then show ?thesis by (auto simp: empty_reply_def)
qed

subsection \<open>The server's part\<close>

lemma notify_each_other: "c \<notin> set vs \<Longrightarrow> heap (notify_each e x y vs r) c = heap r c"
  by (induction vs arbitrary: r) (auto simp: notify_and_close_def Let_def)

text \<open>An account, its password and role, and an address from which it may log in.\<close>

definition may_log_in :: "sql_db relay \<Rightarrow> u64 \<Rightarrow> string \<Rightarrow> string \<Rightarrow> string \<Rightarrow> u64 \<Rightarrow> bool" where
  "may_log_in r c un pw pr uid \<longleftrightarrow>
     (\<exists>db. conn (r_db r) = Some db \<and> take 255 (client_ip (the_sess r c)) \<in> sql_allowed db \<and>
        sql_accounts db (take 511 un) = Some (uid, pw, pr = ''admin'')) \<and>
     client_ip (the_sess r c) \<noteq> [] \<and> un \<noteq> [] \<and> length un < 2 ^ 31 \<and> length pw \<le> 4096 \<and> (pr = ''admin'' \<or> pr = ''user'')"

lemma may_log_in_queries:
  assumes "may_log_in r c un pw pr uid"
  shows "ip_whitelisted sql_api (client_ip (the_sess r c)) (r_db r) = (r_db r, True)"
    and "authenticate_or_register sql_api un pw (pr = ''admin'') (r_db r) = (r_db r, Inr \<lparr>ui_id = uid, ui_admin = (pr = ''admin'')\<rparr>)"
proof -
  from assms obtain db where db: "conn (r_db r) = Some db" "take 255 (client_ip (the_sess r c)) \<in> sql_allowed db"
    "sql_accounts db (take 511 un) = Some (uid, pw, pr = ''admin'')" "length pw \<le> 4096"
    by (auto simp: may_log_in_def)
  show "ip_whitelisted sql_api (client_ip (the_sess r c)) (r_db r) = (r_db r, True)"
    by (simp add: sql.ip_lookup [OF db(1)] db(2))
  show "authenticate_or_register sql_api un pw (pr = ''admin'') (r_db r) = (r_db r, Inr \<lparr>ui_id = uid, ui_admin = (pr = ''admin'')\<rparr>)"
    using sql.login_known [OF db(1,3), of pw "pr = ''admin''"] db(4) by (simp add: login_result_def)
qed

definition server_mode :: "recv_mode \<Rightarrow> RecvMode" where
  "server_mode m = (case m of Broadcast \<Rightarrow> kBroadcast | RoundRobin \<Rightarrow> kRoundRobin)"

lemma parse_mode_of_client: "parse_recv_mode_str (recv_mode_str m) = Some (server_mode m)"
  by (cases m) (simp_all add: parse_recv_mode_str_def recv_mode_str_def server_mode_def)

lemma login_body_unpack:
  assumes "length un < 2 ^ 31" "length pw \<le> 4096" "pr = ''admin'' \<or> pr = ''user''"
  shows "mp_unpack (mp_pack (login_calls un pw pr (recv_mode_str m))) = Some (login_body_obj un pw pr (recv_mode_str m))"
  unfolding login_calls_eq
  by (rule mp.unpack_pack) (use assms in \<open>auto simp: login_body_obj_def recv_mode_str_def\<close>)

lemma handle_login_frame:
  assumes "e_api e = sql_api" and "e_pack e = mp_pack" and "e_unpack e = mp_unpack" and "msg_type h = kClientLogin"
    and "may_log_in r c un pw pr uid" and "heap r c = Some s" and "conn_id s = c"
    and "register_login e c uid (pr = ''admin'') un (server_mode m) r = (r1, victims, ok)"
  shows "\<exists>r2 msg. handle_login e c h (mp_pack (login_calls un pw pr (recv_mode_str m))) r =
      push_event e kInfo msg (upd_sess c (post (PostSend (login_frame_of (seq h) c uid un (pr = ''admin'') ok))) r2) \<and>
    heap r2 c = Some (mark_login (e_now e) uid (pr = ''admin'') un s) \<and>
    r2 = notify_each e txt_conn_limit ''max_connections_per_user'' (filter (\<lambda>v. v \<noteq> c) victims) r1"
proof -
  define r2 where "r2 = notify_each e txt_conn_limit ''max_connections_per_user'' (filter (\<lambda>v. v \<noteq> c) victims) r1"
  have m: "un \<noteq> []" "length un < 2 ^ 31" "length pw \<le> 4096" "pr = ''admin'' \<or> pr = ''user''" "client_ip (the_sess r c) \<noteq> []"
    using assms(5) by (auto simp: may_log_in_def)
  have "login_queries e c un pw (pr = ''admin'') (server_mode m) r = (r2, Inr ok)"
    using may_log_in_queries [OF assms(5)] m(5) assms(1,8) by (simp add: login_queries_def r2_def)
  then have t: "try_authenticate e c [(MStr ''username'', MStr un), (MStr ''password'', MStr pw),
      (MStr ''peer_role'', MStr pr), (MStr ''recv_mode'', MStr (recv_mode_str m))] r = (r2, Inr ok)"
    using m(1,4) by (auto simp: try_authenticate_queries parse_mode_of_client)
  have h2: "heap r2 c = Some (mark_login (e_now e) uid (pr = ''admin'') un s)"
    unfolding r2_def using heap_register_login [OF assms(8)] assms(6) by (simp add: notify_each_other)
  then have "conn_id (the_sess r2 c) = c" "user_id (the_sess r2 c) = uid" "username (the_sess r2 c) = un"
    "is_admin (the_sess r2 c) = (pr = ''admin'')"
    using assms(7) by (simp_all add: the_sess_def mark_login_def touch_heartbeat_def)
  with t login_body_unpack [OF m(2-4), of m] assms(2-4) have
    "handle_login e c h (mp_pack (login_calls un pw pr (recv_mode_str m))) r = push_event e kInfo (''login ok user='' @ un)
      (upd_sess c (post (PostSend (login_frame_of (seq h) c uid un (pr = ''admin'') ok))) r2)"
    by (simp add: handle_login_def login_body_obj_def send_reply_def send_frame_def login_frame_of_def Let_def)
  with h2 r2_def show ?thesis by blast
qed

lemma sign_on_returns:
  assumes "arrives fr (ReplyEv rr)" and "sr_ok rr" and "sr_op rr = ''LOGIN''" and "idle_client c" and "unread c = bytes_of_chars fr @ rest"
  shows "\<exists>c'. sign_on wire_env un pw m pr c = Some (c', Inr ()) \<and> unread c' = rest \<and>
    written c' = written c @ login_bytes (next_seq (rc_seq (cl_rc c))) un pw pr (recv_mode_str m) \<and> (auto_hb_enabled c \<longrightarrow> hb_running c')"
proof -
  let ?c = "c\<lparr>cl_username := un, cl_rc := (cl_rc c)\<lparr>rc_seq := next_seq (rc_seq (cl_rc c)),
    rc_sock := (fst (rc_sock (cl_rc c)), written c @ login_bytes (next_seq (rc_seq (cl_rc c))) un pw pr (recv_mode_str m))\<rparr>\<rparr>"
  have "idle_client ?c" "unread ?c = bytes_of_chars fr @ rest" using assms(4,5) by (simp_all add: idle_client_def)
  from arrives_next_event [OF assms(1) this] obtain rc' where
    n: "next_event wire_env ?c = (?c\<lparr>cl_rc := rc'\<rparr>, Some (ReplyEv rr))" "fst (fst (rc_sock rc')) = rest"
    "snd (rc_sock rc') = written c @ login_bytes (next_seq (rc_seq (cl_rc c))) un pw pr (recv_mode_str m)" by auto
  have "sign_on wire_env un pw m pr c = Some (start_auto_heartbeat_worker (?c\<lparr>cl_rc := rc'\<rparr>), Inr ())"
    using assms(2,3) n(1) by (simp add: sign_on_wire [OF assms(4)] sign_on_wait.simps [of _ ?c] heartbeat_ok_def)
  with n(2,3) show ?thesis by (simp add: start_auto_heartbeat_worker_def)
qed

lemma sign_on_refuses_delivery:
  assumes "arrives fr (DeliverEv d)" and "idle_client c" and "unread c = bytes_of_chars fr @ rest"
  shows "\<exists>c'. sign_on wire_env un pw m pr c = Some (c', Inl txt_sign_on_deliver)"
proof -
  let ?c = "c\<lparr>cl_username := un, cl_rc := (cl_rc c)\<lparr>rc_seq := next_seq (rc_seq (cl_rc c)),
    rc_sock := (fst (rc_sock (cl_rc c)), written c @ login_bytes (next_seq (rc_seq (cl_rc c))) un pw pr (recv_mode_str m))\<rparr>\<rparr>"
  have "idle_client ?c" "unread ?c = bytes_of_chars fr @ rest" using assms(2,3) by (simp_all add: idle_client_def)
  from arrives_next_event [OF assms(1) this] show ?thesis
    by (auto simp: sign_on_wire [OF assms(2)] sign_on_wait.simps [of _ ?c])
qed

text \<open>Reading a LOGIN frame: the registration, the notifications, one reply.\<close>

lemma login_read_loop:
  assumes inv: "relay_inv cf r" and "e_api e = sql_api" and "e_pack e = mp_pack" and "e_unpack e = mp_unpack"
    and "heap r c = Some s" and "\<not> logged_in s" and "reader_ready e r c" and "may_log_in r c un pw pr uid"
    and "length (mp_pack (login_calls un pw pr (recv_mode_str m))) \<le> unat (max_body_len (limits cf))"
    and reg: "register_login e c uid (pr = ''admin'') un (server_mode m)
      (count_frame c t (length (mp_pack (login_calls un pw pr (recv_mode_str m)))) r) = (r1, victims, ok)"
  shows "\<exists>msg r2. read_loop e c (stream_input (bytes_of_chars (login_bytes q un pw pr (recv_mode_str m))) t) r =
      push_event e kInfo msg (upd_sess c (post (PostSend (login_frame_of q c uid un (pr = ''admin'') ok))) r2) \<and>
    r2 = notify_each e txt_conn_limit ''max_connections_per_user'' (filter (\<lambda>v. v \<noteq> c) victims) r1 \<and>
    heap r2 c = Some (mark_login (e_now e) uid (pr = ''admin'') un s)"
proof -
  let ?body = "mp_pack (login_calls un pw pr (recv_mode_str m))"
  let ?h = "default_header\<lparr>msg_type := kClientLogin, seq := q\<rparr>"
  let ?r = "count_frame c t (length ?body) r"
  have cid: "conn_id s = c" using relay_invD(2) [OF inv assms(5)] by simp
  have may: "may_log_in ?r c un pw pr uid" using assms(8) by (simp add: may_log_in_def the_sess_def count_frame_def)
  obtain r2 msg where h: "handle_login e c (?h\<lparr>body_len := word_of_nat (length ?body)\<rparr>) ?body ?r =
      push_event e kInfo msg (upd_sess c (post (PostSend (login_frame_of q c uid un (pr = ''admin'') ok))) r2)"
    "heap r2 c = Some (mark_login (e_now e) uid (pr = ''admin'') un s)"
    "r2 = notify_each e txt_conn_limit ''max_connections_per_user'' (filter (\<lambda>v. v \<noteq> c) victims) r1"
    using handle_login_frame [OF assms(2-4) _ may _ cid reg, of "?h\<lparr>body_len := word_of_nat (length ?body)\<rparr>"] assms(5) by auto
  have "read_loop_step e c (stream_input (bytes_of_chars (login_bytes q un pw pr (recv_mode_str m))) t) r =
      (let r' = handle_login e c (?h\<lparr>body_len := word_of_nat (length ?body)\<rparr>) ?body ?r in (r', \<not> stopped (the_sess r' c)))"
    using read_client_frame [OF assms(7), of ?h ?body "[]" t] assms(5,6,9) relay_invD(1) [OF inv]
    by (simp add: login_bytes_def default_header_def handle_client_frame_def)
  moreover have "\<not> stopped s" using assms(5,7) by (simp add: reader_ready_def)
  ultimately have "read_loop e c (stream_input (bytes_of_chars (login_bytes q un pw pr (recv_mode_str m))) t) r =
      push_event e kInfo msg (upd_sess c (post (PostSend (login_frame_of q c uid un (pr = ''admin'') ok))) r2)"
    using h(2) by (simp add: read_loop_def h(1) mark_login_def touch_heartbeat_def post_def Let_def)
  with h(2,3) show ?thesis by blast
qed

text \<open>
  C3. Logging in end to end.  Wherever the other threads of the server stand: the bytes the client's \<^verbatim>\<open>sign_on\<close> writes, read by the server
  on a connection from an allowlisted address, with the password and role of an existing account, make the server
  register the connection as that account and post exactly one frame to it; on that frame the client's
  \<^verbatim>\<open>sign_on\<close> returns, its heartbeat worker running if it is enabled.
\<close>

theorem login_end_to_end:
  assumes "reachable_threads e cfg0 (r, P)" and "1 \<le> max_connections_per_user (session cfg0)"
    and "e_api e = sql_api" and "e_pack e = mp_pack" and "e_unpack e = mp_unpack"
    and "heap r c = Some s" and "\<not> logged_in s" and "reader_ready e r c" and "may_log_in r c un pw pr uid"
    and "length (mp_pack (login_calls un pw pr (recv_mode_str m))) \<le> unat (max_body_len (limits cfg0))"
    and "r' = read_loop e c (stream_input (bytes_of_chars (login_bytes (next_seq (rc_seq (cl_rc cl))) un pw pr (recv_mode_str m))) t) r"
    and "idle_client cl"
  shows "\<exists>rep s'. heap r' c = Some s' \<and> logged_in s' \<and> user_id s' = uid \<and> username s' = un \<and> is_admin s' = (pr = ''admin'') \<and>
    strand s' = strand s @ [PostSend rep] \<and> (\<exists>q. user_deque r' uid = Some q \<and> last q = c) \<and>
    (unread cl = bytes_of_chars rep @ rest \<longrightarrow>
       (\<exists>cl'. sign_on wire_env un pw m pr cl = Some (cl', Inr ()) \<and> unread cl' = rest \<and>
          written cl' = written cl @ login_bytes (next_seq (rc_seq (cl_rc cl))) un pw pr (recv_mode_str m) \<and>
          (auto_hb_enabled cl \<longrightarrow> hb_running cl')))"
proof -
  let ?q = "next_seq (rc_seq (cl_rc cl))"
  let ?adm = "pr = ''admin''"
  let ?r = "count_frame c t (length (mp_pack (login_calls un pw pr (recv_mode_str m)))) r"
  note inv = threads_relay_inv [OF assms(1,2)]
  obtain r1 victims ok where reg: "register_login e c uid ?adm un (server_mode m) ?r = (r1, victims, ok)" by (metis prod_cases3)
  obtain msg r2 where r': "r' = push_event e kInfo msg (upd_sess c (post (PostSend (login_frame_of ?q c uid un ?adm ok))) r2)"
    and h: "r2 = notify_each e txt_conn_limit ''max_connections_per_user'' (filter (\<lambda>v. v \<noteq> c) victims) r1"
      "heap r2 c = Some (mark_login (e_now e) uid ?adm un s)"
    using login_read_loop [OF inv assms(3-10) reg, of ?q] assms(11) by blast
  define s' where "s' = post (PostSend (login_frame_of ?q c uid un ?adm ok)) (mark_login (e_now e) uid ?adm un s)"
  have "calm r1 r2" unfolding h(1) by (rule calm_notify_each [OF calm_refl])
  then have "user_deque r' = user_deque r1" by (simp add: r' calm_def)
  moreover have "c = last (drop (length (old @ [c]) - nat (max_connections_per_user (session cfg0))) (old @ [c]))" for old
    using assms(2) by (subst last_drop) auto
  ultimately have dq: "\<exists>q. user_deque r' uid = Some q \<and> last q = c"
    using register_login_result(1) [OF reg] relay_invD(1) [OF inv] by auto
  have s': "heap r' c = Some s'" "logged_in s'" "user_id s' = uid" "username s' = un" "is_admin s' = ?adm"
    "strand s' = strand s @ [PostSend (login_frame_of ?q c uid un ?adm ok)]"
    using h(2) by (simp_all add: r' s'_def mark_login_def touch_heartbeat_def post_def)
  obtain rr where rr: "arrives (login_frame_of ?q c uid un ?adm ok) (ReplyEv rr)" "sr_ok rr" "sr_op rr = ''LOGIN''"
    using login_reply_arrives [OF _ register_known_notice [OF reg], of un ?q c uid ?adm] assms(9) by (auto simp: may_log_in_def)
  have "\<exists>cl'. sign_on wire_env un pw m pr cl = Some (cl', Inr ()) \<and> unread cl' = rest \<and>
      written cl' = written cl @ login_bytes ?q un pw pr (recv_mode_str m) \<and> (auto_hb_enabled cl \<longrightarrow> hb_running cl')"
    if "unread cl = bytes_of_chars (login_frame_of ?q c uid un ?adm ok) @ rest"
    by (rule sign_on_returns [OF rr assms(12) that])
  with s' dq show ?thesis by blast
qed

subsection \<open>Interleavings\<close>

definition leads :: "'db env \<Rightarrow> 'db system \<Rightarrow> 'db system \<Rightarrow> bool" where
  "leads e sys sys' \<longleftrightarrow> (\<exists>evs. runs (thread_step e) sys evs sys')"

lemma leads_trans [trans]: "\<lbrakk>leads e a b; leads e b c\<rbrakk> \<Longrightarrow> leads e a c"
  unfolding leads_def using runs_append [where step = "thread_step e"] by blast

lemma leads_step: "thread_step e a ev b \<Longrightarrow> leads e a b"
  unfolding leads_def by (rule exI, rule runs_cons [where step = "thread_step e"], assumption, rule runs_nil)

fun acted :: "('e, 's, 'i) prog \<Rightarrow> 'e \<Rightarrow> 's \<Rightarrow> ('s \<times> ('e, 's, 'i) prog) option" where
  "acted (Act f k) e s = Some (f e s, k e s)"
| "acted _ e s = None"

lemma leads_act:
  assumes "P t = Some p" and "acted p (e\<lparr>e_now := now, e_wall := wall\<rparr>) r = Some (r', p')"
  shows "leads e (r, P) (r', P(t \<mapsto> p'))"
  using assms by (cases p) (auto intro!: leads_step thread_act)

lemma acted_simps [simp]:
  "acted (act f) e s = Some (f e s, Fin)" "acted (look k) e s = Some (s, k e s)"
  "acted (call g j) e s = Some (fst (g e s), j (snd (g e s)))"
  "acted p e s = Some (s', p') \<Longrightarrow> acted (seqp p q) e s = Some (s', seqp p' q)"
  by (simp_all add: act_def look_def call_def) (cases p; simp)

lemma acted_db_call [simp]: "acted (db_call f k) e r = Some (r\<lparr>r_db := fst (f e (r_db r))\<rparr>, k (snd (f e (r_db r))))"
  by (simp add: db_call_def)

lemma leads_input: "P t = Some (Await k) \<Longrightarrow> leads e (r, P) (r, P(t \<mapsto> k i))"
  by (rule leads_step, rule thread_input)

lemma leads_begin: "\<lbrakk>P t = None; may_begin r t\<rbrakk> \<Longrightarrow> leads e (r, P) (r, P(t \<mapsto> thread_code e t))"
  by (rule leads_step, rule thread_begin)

lemma leads_exec: "P t = Some p \<Longrightarrow> leads e (r, P) (snd (exec p (e\<lparr>e_now := now, e_wall := wall\<rparr>) (ins, r)), P(t := None))"
  unfolding leads_def by (rule runs_exec)

lemma leads_reader: "\<lbrakk>P (Reader c) = None; c \<in> dom (readers r)\<rbrakk> \<Longrightarrow>
    leads e (r, P) (read_loop (e\<lparr>e_now := now, e_wall := wall\<rparr>) c inp r, P)"
  unfolding leads_def by (rule runs_reader)

lemma leads_reachable: "\<lbrakk>reachable_threads e cf a; leads e a b\<rbrakk> \<Longrightarrow> reachable_threads e cf b"
  unfolding leads_def reachable_threads_def using runs_append [where step = "thread_step e"] by blast

definition next_round :: "u64 \<Rightarrow> 'db thread" where
  "next_round c = look (\<lambda>_ r. if stopped (the_sess r c) then exit_t c else Fin)"

text \<open>A reader that has read a frame stands before the handler.\<close>

lemma leads_to_handler:
  fixes e :: "'db env"
  assumes "P (Reader c) = None" and "c \<in> dom (readers r)" and "reader_ready (e\<lparr>e_now := now, e_wall := wall\<rparr>) r c"
    and "magic h = kMagic" "version h = kVersion" "header_len h = kHeaderLen"
    and "body \<noteq> []" and "length body \<le> unat (max_body_len (limits (r_cfg r)))"
  shows "leads e (r, P) (count_frame c t (length body) r,
    P(Reader c \<mapsto> seqp (handle_client_frame_t e c (h\<lparr>body_len := word_of_nat (length body)\<rparr>) body) (next_round c)))"
proof -
  let ?e = "e\<lparr>e_now := now, e_wall := wall\<rparr>"
  define h' where "h' = h\<lparr>body_len := word_of_nat (length body)\<rparr>"
  have "unat (max_body_len (limits (r_cfg r))) < 2 ^ 32" by (rule order_less_le_trans [OF unsigned_less]) simp
  with assms(8) have lb: "length body < 2 ^ 32" by simp
  have u: "unat (body_len h') = length body" using lb by (simp add: h'_def)
  then have h': "\<not> body_len h' > max_body_len (limits (r_cfg r))" "body_len h' > 0"
    using assms(7,8) by (auto simp: word_less_nat_alt)
  have v: "magic h' = kMagic" "version h' = kVersion" "header_len h' = kHeaderLen" using assms(4-6) by (simp_all add: h'_def)
  have "leads e (r, P) (r, P(Reader c \<mapsto> read_loop_t e c))"
    using leads_begin [of P "Reader c" r e] assms(1,2) by simp
  also have "leads e \<dots> (r, P(Reader c \<mapsto> Await (header_read_t e (r_cfg r) c)))"
    using leads_act [of "P(Reader c \<mapsto> read_loop_t e c)" "Reader c" "read_loop_t e c" wall now e r] assms(3)
    by (auto simp: read_loop_t_def reader_ready_def Let_def)
  also have "leads e \<dots> (r, P(Reader c \<mapsto> header_read_t e (r_cfg r) c (Some (pack_le h'), t)))"
    using leads_input [of "P(Reader c \<mapsto> Await (header_read_t e (r_cfg r) c))" "Reader c"] by simp
  also have "header_read_t e (r_cfg r) c (Some (pack_le h'), t) = Await (\<lambda>bi. case fst bi of
      None \<Rightarrow> exit_t c
    | Some bb \<Rightarrow> if length bb \<noteq> unat (body_len h') then exit_t c else frame_read_t e c h' (chars_of_bytes bb) (snd bi))"
    using h' v by (simp add: header_read_t_def kHeaderLen_def Let_def)
  also have "leads e (r, P(Reader c \<mapsto> \<dots>)) (r, P(Reader c \<mapsto> frame_read_t e c h' body t))"
    using leads_input [of "P(Reader c \<mapsto> Await (\<lambda>bi. case fst bi of
      None \<Rightarrow> exit_t c
    | Some bb \<Rightarrow> if length bb \<noteq> unat (body_len h') then exit_t c else frame_read_t e c h' (chars_of_bytes bb) (snd bi)))"
      "Reader c" _ e r "(Some (bytes_of_chars body), t)"] u by simp
  also have "leads e \<dots> (count_frame c t (length body) r, P(Reader c \<mapsto> seqp (handle_client_frame_t e c h' body) (next_round c)))"
    using leads_act [of "P(Reader c \<mapsto> frame_read_t e c h' body t)" "Reader c" "frame_read_t e c h' body t" wall now e r]
    by (simp add: frame_read_t_def count_frame_def next_round_def Let_def)
  finally show ?thesis unfolding h'_def .
qed

definition login_answer :: "u64 \<Rightarrow> Header \<Rightarrow> int \<times> string + LoginOk \<Rightarrow> 'db thread" where
  "login_answer c h res = (case res of Inl (code, message) \<Rightarrow> err_reply_t c (seq h) code message | Inr lok \<Rightarrow> login_ok_t c h lok)"

text \<open>A reader of a LOGIN frame stands before the queries.\<close>

lemma leads_to_queries:
  fixes e :: "'db env"
  assumes body_def: "body = mp_pack (login_calls un pw pr (recv_mode_str m))" and h_def: "h = default_header\<lparr>msg_type := kClientLogin, seq := q\<rparr>"
    and "P (Reader c) = None" and "c \<in> dom (readers r)" and "reader_ready (e\<lparr>e_now := now, e_wall := wall\<rparr>) r c"
    and "length body \<le> unat (max_body_len (limits (r_cfg r)))" and "\<not> logged_in (the_sess r c)" and "e_unpack e = mp_unpack"
    and "un \<noteq> []" "length un < 2 ^ 31" "length pw \<le> 4096" "pr = ''admin'' \<or> pr = ''user''"
  shows "leads e (r, P) (count_frame c t (length body) r, P(Reader c \<mapsto>
    seqp (login_queries_t c un pw (pr = ''admin'') (server_mode m) (login_answer c (h\<lparr>body_len := word_of_nat (length body)\<rparr>))) (next_round c)))"
proof -
  let ?r = "count_frame c t (length body) r" and ?h = "h\<lparr>body_len := word_of_nat (length body)\<rparr>"
  have "body \<noteq> []" unfolding body_def login_calls_def by (rule mp_pack_nonempty)
  then have "leads e (r, P) (?r, P(Reader c \<mapsto> seqp (handle_client_frame_t e c ?h body) (next_round c)))"
    using leads_to_handler [where P = P and c = c and body = body and h = h and t = t, OF assms(3-5)] assms(6) by (simp add: h_def default_header_def)
  also have "leads e \<dots> (?r, P(Reader c \<mapsto> seqp (handle_login_t e c ?h body) (next_round c)))"
    using leads_act [of "P(Reader c \<mapsto> seqp (handle_client_frame_t e c ?h body) (next_round c))" "Reader c"
        "seqp (handle_client_frame_t e c ?h body) (next_round c)" wall now e ?r] assms(7)
    by (simp add: handle_client_frame_t_def the_sess_def)
  also have "handle_login_t e c ?h body = login_queries_t c un pw (pr = ''admin'') (server_mode m) (login_answer c ?h)"
    using login_body_unpack [OF assms(10-12), of m] assms(8,9,12)
    by (auto simp: handle_login_t_def try_authenticate_t_def login_body_obj_def parse_mode_of_client h_def body_def
        login_answer_def [abs_def] default_header_def)
  finally show ?thesis .
qed

text \<open>The critical section that registers a login, and what comes after it.\<close>

definition registration :: "u64 \<Rightarrow> u64 \<Rightarrow> bool \<Rightarrow> string \<Rightarrow> RecvMode \<Rightarrow> (int \<times> string + LoginOk \<Rightarrow> 'db thread) \<Rightarrow> 'db thread" where
  "registration c uid adm un mode k = call (\<lambda>e. register_login e c uid adm un mode) (\<lambda>(victims, ok). seqp
     (notify_each_t txt_conn_limit ''max_connections_per_user'' (filter (\<lambda>v. v \<noteq> c) victims)) (k (Inr ok)))"

text \<open>A login whose queries are answered stands before its registration.\<close>

lemma leads_to_authenticated:
  fixes e :: "sql_db env"
  assumes "P (Reader c) = Some (seqp (login_queries_t c un pw (pr = ''admin'') mode k) q)" and "may_log_in r c un pw pr uid"
    and "e_api e = sql_api"
  shows "leads e (r, P) (r, P(Reader c \<mapsto> seqp (registration c uid (pr = ''admin'') un mode k) q))"
proof -
  let ?a = "pr = ''admin''" and ?cip = "client_ip (the_sess r c)"
  let ?auth = "db_call (\<lambda>e. authenticate_or_register (e_api e) un pw ?a) (\<lambda>res. case res of
      Inl err \<Rightarrow> k (Inl (kAuthFailed, err)) | Inr uinfo \<Rightarrow> registration c (ui_id uinfo) (ui_admin uinfo) un mode k)"
  let ?ip = "db_call (\<lambda>e. ip_whitelisted (e_api e) ?cip) (\<lambda>ok. if \<not> ok then k (Inl (kIpNotAllowed, txt_ip_not_allowed)) else ?auth)"
  note Q = may_log_in_queries [OF assms(2)]
  have cip: "?cip \<noteq> []" using assms(2) by (simp add: may_log_in_def)
  have "leads e (r, P) (r, P(Reader c \<mapsto> seqp ?ip q))"
    using leads_act [of P "Reader c" "seqp (login_queries_t c un pw ?a mode k) q" 0 0 e r] assms(1) cip
    unfolding registration_def by (simp add: login_queries_t_def Let_def)
  also have "leads e \<dots> (r, P(Reader c \<mapsto> seqp ?auth q))"
    using leads_act [of "P(Reader c \<mapsto> seqp ?ip q)" "Reader c" "seqp ?ip q" 0 0 e r] Q(1) assms(3) by simp
  also have "leads e \<dots> (r, P(Reader c \<mapsto> seqp (registration c uid ?a un mode k) q))"
    using leads_act [of "P(Reader c \<mapsto> seqp ?auth q)" "Reader c" "seqp ?auth q" 0 0 e r] Q(2) assms(3) by simp
  finally show ?thesis .
qed

lemma leads_to_registered:
  assumes "P (Reader c) = Some (seqp (registration c uid adm un mode k) q)"
    and "register_login (e\<lparr>e_now := now, e_wall := wall\<rparr>) c uid adm un mode r = (r1, victims, ok)"
  shows "leads e (r, P) (r1, P(Reader c \<mapsto>
    seqp (seqp (notify_each_t txt_conn_limit ''max_connections_per_user'' (filter (\<lambda>v. v \<noteq> c) victims)) (k (Inr ok))) q))"
  using leads_act [where P = P and t = "Reader c", OF assms(1), of wall now e r] assms(2) by (simp add: registration_def)

subsection \<open>A delivery that overtakes the reply\<close>

text \<open>After \<open>second_run\<close>, in which bob logged in on connection 1, a second connection is accepted.\<close>

definition third_run :: "sql_db relay" where
  "third_run = accept_clients (demo_env\<lparr>e_now := 8, e_wall := 9\<rparr>) (Inr (Some (''10.0.0.1'', 5001))) second_run"

lemma third_run_reachable: "reachable demo_env shipped_config third_run"
proof -
  from second_run_reachable obtain ol wall r0 evs where
    s: "start demo_env ol (new_relay shipped_config wall) = (r0, Inr ())" "runs (server_step demo_env) r0 evs second_run"
    unfolding reachable_def by blast
  have "server_step demo_env second_run (8, 9, SAccept (Inr (Some (''10.0.0.1'', 5001)))) third_run"
    unfolding third_run_def by (rule server_accept) (simp add: second_run_facts)
  with s(2) have "runs (server_step demo_env) r0 (evs @ [(8, 9, SAccept (Inr (Some (''10.0.0.1'', 5001))))]) third_run"
    by (rule runs_snoc)
  with s(1) show ?thesis unfolding reachable_def by blast
qed

lemma third_run_facts:
  "heap third_run 2 = Some (new_session 2 (Some (''10.0.0.1'', 5001)))" "heap third_run 1 = heap second_run 1"
  "readers third_run = [1 \<mapsto> 7, 2 \<mapsto> 8]" "user_deque third_run = [2 \<mapsto> [1]]" "user_recv_mode third_run 2 = Some kBroadcast"
  "conn (r_db third_run) = Some two_users" "r_cfg third_run = shipped_config"
  using second_run_facts relay_invD(1) [OF reachable_inv [OF second_run_reachable]]
  by (simp_all add: third_run_def accept_clients_def Let_def)

lemma third_run_may_log_in: "may_log_in (count_frame 2 9 n third_run) 2 ''bob'' ''b'' ''user'' 2"
  by (simp add: may_log_in_def count_frame_def the_sess_def third_run_facts new_session_def client_ip_def remote_endpoint_def)
    (simp add: sql_allowed_def sql_accounts_def two_users_def)

lemma third_run_register:
  assumes "register_login e 2 2 False ''bob'' kBroadcast (count_frame 2 9 n third_run) = (r1, victims, ok)"
  shows "victims = []" "user_deque r1 = [2 \<mapsto> [1, 2]]" "user_recv_mode r1 2 = Some kBroadcast" "name_to_uid r1 ''bob'' = Some 2"
    "heap r1 = (heap third_run)(2 \<mapsto> mark_login (e_now e) 2 False ''bob'' (new_session 2 (Some (''10.0.0.1'', 5001))))"
    "readers r1 = [1 \<mapsto> 7, 2 \<mapsto> 9]" "r_cfg r1 = shipped_config"
  using assms
  by (auto simp: register_login_def choose_mode_def third_run_facts trim_deque_eq Let_def) (auto simp: count_frame_def third_run_facts)

definition race_env :: "sql_db env" where
  "race_env = demo_env\<lparr>e_now := 9, e_wall := 10\<rparr>"

lemma race_env_simps [simp]:
  "e_api race_env = sql_api" "e_pack race_env = mp_pack" "e_unpack race_env = mp_unpack" "e_now race_env = 9"
  by (simp_all add: race_env_def demo_env_def)

abbreviation second_login :: string where
  "second_login \<equiv> mp_pack (login_calls ''bob'' ''b'' ''user'' (recv_mode_str Broadcast))"

abbreviation second_header :: Header where
  "second_header \<equiv> default_header\<lparr>msg_type := kClientLogin, seq := 1\<rparr>"

text \<open>The second connection is registered; its reader has not posted the reply yet.\<close>

lemma leads_to_gap:
  obtains r1 ok where
    "register_login race_env 2 2 False ''bob'' kBroadcast (count_frame 2 9 (length second_login) third_run) = (r1, [], ok)"
    "leads demo_env (third_run, Map.empty) (r1, [Reader 2 \<mapsto>
       seqp (login_ok_t 2 (second_header\<lparr>body_len := word_of_nat (length second_login)\<rparr>) ok) (next_round 2)])"
proof -
  let ?n = "length second_login" and ?h = "second_header\<lparr>body_len := word_of_nat (length second_login)\<rparr>"
  let ?P = "\<lambda>p. [Reader 2 \<mapsto> seqp p (next_round 2)]" and ?K = "login_answer 2 ?h"
  let ?r = "count_frame 2 9 ?n third_run"
  obtain r1 victims ok where reg: "register_login race_env 2 2 False ''bob'' kBroadcast ?r = (r1, victims, ok)"
    by (metis prod_cases3)
  note v = third_run_register(1) [OF reg]
  have body: "idle_ms (timeouts shipped_config) = 600000" "?n \<le> unat (max_body_len (limits shipped_config))"
    by (simp_all add: login_calls_def recv_mode_str_def mp_pack_def enc_len_def shipped_config_def default_config_def)
  have "leads demo_env (third_run, Map.empty) (?r, ?P (login_queries_t 2 ''bob'' ''b'' (''user'' = ''admin'') (server_mode Broadcast) ?K))"
    by (rule leads_to_queries [where now = 9 and wall = 10 and q = 1])
      (use body in \<open>simp_all add: third_run_facts the_sess_def reader_ready_def demo_env_def, simp_all add: new_session_def\<close>)
  also have "leads demo_env \<dots> (?r, ?P (registration 2 2 (''user'' = ''admin'') ''bob'' (server_mode Broadcast) ?K))"
    by (rule leads_to_authenticated [where e = demo_env and r = ?r and c = 2 and pw = "''b''" and
          P = "?P (login_queries_t 2 ''bob'' ''b'' (''user'' = ''admin'') (server_mode Broadcast) ?K)", simplified fun_upd_upd])
      (simp_all add: demo_env_def third_run_may_log_in)
  also have "leads demo_env \<dots> (r1, ?P (login_ok_t 2 ?h ok))"
    using leads_to_registered [where P = "?P (registration 2 2 (''user'' = ''admin'') ''bob'' (server_mode Broadcast) ?K)" and c = 2
        and uid = 2 and adm = False and un = "''bob''" and mode = kBroadcast and k = ?K and q = "next_round 2"
        and e = demo_env and now = 9 and wall = 10 and r = ?r] reg v
    by (simp add: race_env_def server_mode_def login_answer_def)
  finally show ?thesis using that reg v by blast
qed

lemma third_run_bob:
  obtains s where "heap third_run 1 = Some s" "sock_open s" "logged_in s" "\<not> stopped s" "username s = ''bob''"
  using second_run_facts third_run_facts(2) by auto

text \<open>In that gap a message to bob, sent on his first connection, is posted to the second one.\<close>

lemma gap_delivers:
  assumes inv: "relay_inv shipped_config r1"
    and reg: "register_login race_env 2 2 False ''bob'' kBroadcast (count_frame 2 9 n third_run) = (r1, [], ok)"
  shows "heap (read_loop race_env 1 (stream_input (bytes_of_chars (data_frame 2 ''bob'' ''hi'')) 9) r1) 2 =
    Some ((mark_login 9 2 False ''bob'' (new_session 2 (Some (''10.0.0.1'', 5001))))\<lparr>strand := [PostSend (relayed 2 ''hi'' 1 ''bob'' ''bob'' 2)]\<rparr>)"
proof -
  note R = third_run_register(2-) [OF reg]
  obtain s1 where s1: "heap third_run 1 = Some s1" "sock_open s1" "logged_in s1" "\<not> stopped s1" "username s1 = ''bob''"
    by (rule third_run_bob)
  let ?s2 = "mark_login 9 2 False ''bob'' (new_session 2 (Some (''10.0.0.1'', 5001)))"
  have h1: "heap r1 1 = Some s1" "heap r1 2 = Some ?s2" using R(4) s1(1) by simp_all
  have ready: "reader_ready race_env r1 1"
    using s1(1,4) by (simp add: reader_ready_def the_sess_def h1 R shipped_config_def default_config_def)
  have open2: "sock_open ?s2" by (simp add: mark_login_def touch_heartbeat_def new_session_def)
  then have "recipients r1 2 = [1, 2]"
    using s1(2) h1 R
    by (simp add: recipients_def list_user_connections_def is_open_def mode_of_def shipped_config_def default_config_def
        default_session_policy_def)
  have len: "length (mp_pack (data_calls ''bob'' ''hi'')) \<le> unat (max_body_len (limits shipped_config))"
    by (simp add: data_calls_def mp_pack_def enc_len_def shipped_config_def default_config_def)
  show ?thesis
    using server_relays_heap [OF inv _ _ _ _ h1(1) s1(3) ready R(3) _ _ _ len, of 2 9] \<open>recipients r1 2 = [1, 2]\<close> h1 s1(5)
    by (simp add: post_all_def) (simp add: mark_login_def touch_heartbeat_def new_session_def)
qed

text \<open>
  C28. A delivery can overtake the reply to a login.  There is a schedule of the server's threads in which
  bob logs in on a second connection while a message to bob is sent on his first one: the message is
  posted to the new connection after its registration and before the reply.  The client on that connection,
  which the server has logged in, then throws out of \<^verbatim>\<open>sign_on\<close>.
\<close>

theorem delivery_overtakes_login_reply:
  "\<exists>r P s fr d rep rr c'. reachable_threads demo_env shipped_config (r, P) \<and>
     heap r 2 = Some s \<and> logged_in s \<and> username s = ''bob'' \<and> strand s = [PostSend fr, PostSend rep] \<and>
     arrives fr (DeliverEv d) \<and> d_payload d = ''hi'' \<and> arrives rep (ReplyEv rr) \<and> sr_ok rr \<and> sr_op rr = ''LOGIN'' \<and>
     sign_on wire_env ''bob'' ''b'' Broadcast ''user''
       (new_client \<lparr>rc_sock = ((bytes_of_chars (fr @ rep), []), []), rc_open = True, rc_seq = 0\<rparr>) =
     Some (c', Inl txt_sign_on_deliver)"
proof -
  let ?h = "second_header\<lparr>body_len := word_of_nat (length second_login)\<rparr>"
  obtain r1 ok where reg: "register_login race_env 2 2 False ''bob'' kBroadcast (count_frame 2 9 (length second_login) third_run) = (r1, [], ok)"
    and l1: "leads demo_env (third_run, Map.empty) (r1, [Reader 2 \<mapsto> seqp (login_ok_t 2 ?h ok) (next_round 2)])"
    by (rule leads_to_gap)
  note R = third_run_register(2-) [OF reg]
  have reach1: "reachable_threads demo_env shipped_config (r1, [Reader 2 \<mapsto> seqp (login_ok_t 2 ?h ok) (next_round 2)])"
    using leads_reachable [OF reachable_scheduled [OF third_run_reachable] l1] .
  then have inv: "relay_inv shipped_config r1" using reachable_threads_inv [of demo_env shipped_config] by (fastforce simp: system_inv_def)
  let ?s2 = "mark_login 9 2 False ''bob'' (new_session 2 (Some (''10.0.0.1'', 5001)))"
  define r2 where "r2 = read_loop race_env 1 (stream_input (bytes_of_chars (data_frame 2 ''bob'' ''hi'')) 9) r1"
  let ?fr = "relayed 2 ''hi'' 1 ''bob'' ''bob'' 2"
  have "heap r2 2 = Some (?s2\<lparr>strand := [PostSend ?fr]\<rparr>)" unfolding r2_def by (rule gap_delivers [OF inv reg])
  then have s2: "the_sess r2 2 = ?s2\<lparr>strand := [PostSend ?fr]\<rparr>" "heap r2 2 = Some (?s2\<lparr>strand := [PostSend ?fr]\<rparr>)"
    by (simp_all add: the_sess_def)
  have l2: "leads demo_env (r1, [Reader 2 \<mapsto> seqp (login_ok_t 2 ?h ok) (next_round 2)]) (r2, [Reader 2 \<mapsto> seqp (login_ok_t 2 ?h ok) (next_round 2)])"
    unfolding r2_def race_env_def by (rule leads_reader) (simp_all add: R)
  let ?rep = "login_frame_of 1 2 2 ''bob'' False ok"
  let ?c = "new_client \<lparr>rc_sock = ((bytes_of_chars (?fr @ ?rep), []), []), rc_open = True, rc_seq = 0\<rparr>"
  define r3 where "r3 = push_event race_env kInfo (''login ok user='' @ ''bob'') (upd_sess 2 (post (PostSend ?rep)) r2)"
  have "snd (exec (seqp (login_ok_t 2 ?h ok) (next_round 2)) race_env ([], r2)) = r3"
    using s2
    by (simp add: exec_login_ok_t next_round_def r3_def login_frame_of_def send_reply_def send_frame_def the_sess_def Let_def)
      (simp add: mark_login_def touch_heartbeat_def new_session_def post_def)
  then have l3: "leads demo_env (r2, [Reader 2 \<mapsto> seqp (login_ok_t 2 ?h ok) (next_round 2)]) (r3, Map.empty)"
    using leads_exec [of "[Reader 2 \<mapsto> seqp (login_ok_t 2 ?h ok) (next_round 2)]" "Reader 2" _ demo_env r2 10 9 "[]"]
    by (simp add: race_env_def)
  have "reachable_threads demo_env shipped_config (r3, Map.empty)"
    by (rule leads_reachable [OF reach1 leads_trans [OF l2 l3]])
  moreover obtain s where "heap r3 2 = Some s" "logged_in s" "username s = ''bob''" "strand s = [PostSend ?fr, PostSend ?rep]"
    using s2(2) by (simp add: r3_def post_def) (simp add: mark_login_def touch_heartbeat_def)
  moreover have fr: "arrives ?fr (DeliverEv (delivered 2 ''hi'' 1 2 ''bob'' ''bob''))"
    unfolding relayed_def by (rule deliver_frame_arrives) simp
  moreover obtain rr where "arrives ?rep (ReplyEv rr)" "sr_ok rr" "sr_op rr = ''LOGIN''"
    using login_reply_arrives [OF _ register_known_notice [OF reg], of "''bob''" 1 2 2 False] by auto
  moreover have "idle_client ?c" "unread ?c = bytes_of_chars ?fr @ bytes_of_chars ?rep"
    by (simp_all add: idle_client_def new_client_def)
  then obtain c' where "sign_on wire_env ''bob'' ''b'' Broadcast ''user'' ?c = Some (c', Inl txt_sign_on_deliver)"
    using sign_on_refuses_delivery [OF fr, of ?c "bytes_of_chars ?rep" "''bob''" "''b''" Broadcast "''user''"] by blast
  moreover have "d_payload (delivered 2 ''hi'' 1 2 ''bob'' ''bob'') = ''hi''" by (simp add: delivered_def)
  ultimately show ?thesis by blast
qed

theorem login_end_to_end_witness:
  "\<exists>rep s'. heap (read_loop demo_env 2 (stream_input (bytes_of_chars (login_bytes 2 ''bob'' ''b'' ''user'' (recv_mode_str Broadcast))) 9) third_run) 2 = Some s' \<and>
     logged_in s' \<and> user_id s' = 2 \<and> strand s' = [PostSend rep]"
proof -
  have ready: "reader_ready demo_env third_run 2"
    by (simp add: reader_ready_def the_sess_def third_run_facts new_session_def shipped_config_def default_config_def demo_env_def)
  have may: "may_log_in third_run 2 ''bob'' ''b'' ''user'' 2"
    using third_run_may_log_in [of 0] by (simp add: may_log_in_def count_frame_def the_sess_def)
  have len: "length second_login \<le> unat (max_body_len (limits shipped_config))"
    by (simp add: login_calls_def recv_mode_str_def mp_pack_def enc_len_def shipped_config_def default_config_def)
  have "idle_client (new_client bob_client)" "next_seq (rc_seq (cl_rc (new_client bob_client))) = 2"
    by (simp_all add: idle_client_def new_client_def bob_client_def next_seq_def)
  with login_end_to_end [OF reachable_scheduled [OF third_run_reachable] _ _ _ _ third_run_facts(1) _ ready may len refl, of "new_client bob_client"]
  show ?thesis by (fastforce simp: demo_env_def new_session_def)
qed

end
