(* ===== verification/Account_Race.thy ===== *)
theory Account_Race
  imports Login_Flow
begin

text \<open>
  A login that races with the deletion of its account.  \<^verbatim>\<open>try_authenticate\<close> checks the password with the database and registers the connection later, under \<^verbatim>\<open>mu_\<close>;
  \<^verbatim>\<open>user_table_delete\<close> closes the registered connections and then deletes the row.  A login whose registration comes after the deletion
  is not noticed by either.
\<close>

subsection \<open>A login and the deletion of its account\<close>

text \<open>The frame with which an administrator deletes the account \<open>uid\<close>, and what the server does with it.\<close>

definition delete_calls :: "u64 \<Rightarrow> pk_call list" where
  "delete_calls uid = [PackMap 2, PackStr ''action'', PackStr ''user_table_delete'', PackStr ''id'', PackInt (uint uid)]"

definition delete_bytes :: "u32 \<Rightarrow> u64 \<Rightarrow> string" where
  "delete_bytes q uid = pack_frame (default_header\<lparr>msg_type := kClientControl, seq := q\<rparr>) (mp_pack (delete_calls uid))"

lemma delete_unpack:
  "mp_unpack (mp_pack (delete_calls uid)) = Some (MMap [(MStr ''action'', MStr ''user_table_delete''), (MStr ''id'', MPosInt uid)])"
proof -
  have "delete_calls uid = calls (MMap [(MStr ''action'', MStr ''user_table_delete''), (MStr ''id'', MPosInt uid)])"
    by (simp add: delete_calls_def)
  then show ?thesis by (simp only:) (rule mp.unpack_pack, simp)
qed

lemma length_delete: "length (mp_pack (delete_calls uid)) \<le> 100"
  using length_enc_int [of "uint uid"] by (simp add: delete_calls_def mp_pack_Cons)

lemma bob_deleted:
  assumes "conn st = Some two_users"
  shows "admin_get_username_by_id sql_api 2 st = (st, Inr ''bob'')"
    and "\<exists>st'. admin_delete_user sql_api 2 st = (st', None) \<and>
      conn st' = Some (two_users\<lparr>t_users := [\<lparr>su_id = 1, su_name = ''al'', su_pw = ''a'', su_admin = True\<rparr>]\<rparr>)"
proof -
  have st: "st\<lparr>conn := Some two_users\<rparr> = st" using assms by simp
  have tu: "t_users two_users = [\<lparr>su_id = 2, su_name = ''bob'', su_pw = ''b'', su_admin = False\<rparr>,
      \<lparr>su_id = 1, su_name = ''al'', su_pw = ''a'', su_admin = True\<rparr>]" by (simp add: two_users_def)
  show "admin_get_username_by_id sql_api 2 st = (st, Inr ''bob'')"
    using st sql_user_name [of two_users 2]
    by (simp add: admin_get_username_by_id_def assms run_stmt_def sql_api_def select_one_def column_def tu)
  show "\<exists>st'. admin_delete_user sql_api 2 st = (st', None) \<and>
      conn st' = Some (two_users\<lparr>t_users := [\<lparr>su_id = 1, su_name = ''al'', su_pw = ''a'', su_admin = True\<rparr>]\<rparr>)"
    by (simp add: admin_delete_user_def exec_op_def assms run_stmt_def sql_api_def sql_execute_def exec_status_def
        changed_def delete_rows_def column_def q_defs tu)
qed

lemma delete_read_loop:
  assumes "e_api e = sql_api" and "e_unpack e = mp_unpack" and "heap r a = Some s" and "logged_in s" and "is_admin s"
    and "reader_ready e r a" and "conn (r_db r) = Some two_users" and "100 \<le> unat (max_body_len (limits (r_cfg r)))"
    and "user_deque r 2 = Some vs" and "a \<notin> set vs"
    and "r' = read_loop e a (stream_input (bytes_of_chars (delete_bytes k 2)) t) r"
  shows "conn (r_db r') = Some (two_users\<lparr>t_users := [\<lparr>su_id = 1, su_name = ''al'', su_pw = ''a'', su_admin = True\<rparr>]\<rparr>)"
    and "user_deque r' = user_deque r" and "r_cfg r' = r_cfg r" and "\<lbrakk>c \<noteq> a; c \<notin> set vs\<rbrakk> \<Longrightarrow> heap r' c = heap r c"
    and "readers r' = (readers r)(a \<mapsto> t)" and "user_recv_mode r' = user_recv_mode r"
proof -
  let ?body = "mp_pack (delete_calls 2)"
  let ?h = "default_header\<lparr>msg_type := kClientControl, seq := k\<rparr>"
  let ?c = "count_frame a t (length ?body) r"
  define r1 where "r1 = upd_sess a (touch_heartbeat (e_now e)) ?c"
  have db: "conn (r_db r1) = Some two_users" using assms(7) by (simp add: r1_def count_frame_def)
  obtain st' where del: "admin_delete_user sql_api 2 (r_db r1) = (st', None)"
    "conn st' = Some (two_users\<lparr>t_users := [\<lparr>su_id = 1, su_name = ''al'', su_pw = ''a'', su_admin = True\<rparr>]\<rparr>)"
    using bob_deleted(2) [OF db] by blast
  define r2 where "r2 = notify_each e txt_account_deleted ''user_table_delete'' vs r1"
  have vs: "user_deque r1 2 = Some vs" using assms(9) by (simp add: r1_def)
  define r4 where "r4 = r2\<lparr>name_to_uid := (name_to_uid r2)(''bob'' := None), uid_to_username := (uid_to_username r2)(2 := None)\<rparr>"
  define r3 where "r3 = r4\<lparr>r_db := st'\<rparr>"
  define m where "m = ''admin user_table_delete id='' @ dec_digits (unat (2 :: u64)) @ '' by '' @ username (the_sess r4 a)"
  have "map_get_u64 [(MStr ''action'', MStr ''user_table_delete''), (MStr ''id'', MPosInt 2)] ''id'' = Some 2" by simp
  moreover have "admin_get_username_by_id (e_api e) 2 (r_db r1) = (r_db r1, Inr ''bob'')" using bob_deleted(1) [OF db] assms(1) by simp
  moreover have "admin_kick_uid_sessions e 2 txt_account_deleted ''user_table_delete'' (r1\<lparr>r_db := r_db r1\<rparr>) = r2"
    using vs by (simp add: admin_kick_uid_sessions_def r2_def)
  moreover have "admin_delete_user (e_api e) 2 (r_db r4) = (st', None)"
    using del(1) assms(1) by (simp add: r4_def r2_def notify_each_tables)
  ultimately have "control_user_table_delete e a (?h\<lparr>body_len := word_of_nat (length ?body)\<rparr>)
      [(MStr ''action'', MStr ''user_table_delete''), (MStr ''id'', MPosInt 2)] r1 = push_event e kInfo m (send_reply e a (ok_reply ''CONTROL'') k r3)"
    unfolding control_user_table_delete_def r3_def m_def
    by (simp only: option.case prod.case sum.case Let_def flip: r4_def) simp
  moreover have "is_admin (the_sess r1 a)" using assms(3,5) by (simp add: r1_def the_sess_def touch_heartbeat_def)
  ultimately have ctl: "handle_client_frame e a (?h\<lparr>body_len := word_of_nat (length ?body)\<rparr>) ?body ?c = push_event e kInfo m (send_reply e a (ok_reply ''CONTROL'') k r3)"
    using assms(3,4) delete_unpack [of 2]
    by (simp add: handle_client_frame_def assms(2) handle_control_def msg_type_defs Let_def flip: r1_def)
  have h3: "heap r3 a = Some (touch_heartbeat (e_now e) s)" "\<lbrakk>c \<noteq> a; c \<notin> set vs\<rbrakk> \<Longrightarrow> heap r3 c = heap r c" for c
    using assms(3,10) by (simp_all add: r3_def r4_def r2_def notify_each_other r1_def)
  have "\<not> stopped s" using assms(3,6) by (simp add: reader_ready_def the_sess_def)
  then have r': "r' = push_event e kInfo m (send_reply e a (ok_reply ''CONTROL'') k r3)"
    using read_client_frame [OF assms(6), of ?h ?body "[]" t] ctl h3(1) length_delete [of 2] assms(8)
    by (simp add: assms(11) read_loop_def delete_bytes_def default_header_def send_reply_def send_frame_def post_def touch_heartbeat_def Let_def)
  show "conn (r_db r') = Some (two_users\<lparr>t_users := [\<lparr>su_id = 1, su_name = ''al'', su_pw = ''a'', su_admin = True\<rparr>]\<rparr>)"
    using del(2) by (simp add: r' send_reply_def r3_def)
  show "user_deque r' = user_deque r" "r_cfg r' = r_cfg r" "readers r' = (readers r)(a \<mapsto> t)" "user_recv_mode r' = user_recv_mode r"
    by (simp_all add: r' send_reply_def r3_def r4_def r2_def r1_def notify_each_tables count_frame_def)
  show "heap r' c = heap r c" if "c \<noteq> a" "c \<notin> set vs" using h3(2) [OF that] that by (simp add: r' send_reply_def)
qed

text \<open>In \<open>third_run\<close> the administrator logs in on the second connection; then a third connection is accepted.\<close>

definition admin_run :: "sql_db relay" where
  "admin_run = read_loop race_env 2 (stream_input (bytes_of_chars (login_bytes 1 ''al'' ''a'' ''admin'' (recv_mode_str Broadcast))) 9) third_run"

definition fourth_run :: "sql_db relay" where
  "fourth_run = accept_clients (demo_env\<lparr>e_now := 10, e_wall := 11\<rparr>) (Inr (Some (''10.0.0.1'', 5002))) admin_run"

lemma third_run_ready: "reader_ready race_env third_run 2" "next_conn_id third_run = 2"
  using second_run_facts
  by (simp_all add: reader_ready_def the_sess_def third_run_facts new_session_def shipped_config_def default_config_def)
    (simp add: third_run_def accept_clients_def Let_def)

lemma admin_run_facts:
  "\<exists>sa. heap admin_run 2 = Some sa \<and> logged_in sa \<and> is_admin sa \<and> \<not> stopped sa" "heap admin_run 1 = heap second_run 1"
  "user_deque admin_run = [2 \<mapsto> [1], 1 \<mapsto> [2]]" "readers admin_run = [1 \<mapsto> 7, 2 \<mapsto> 9]"
  "conn (r_db admin_run) = Some two_users" "r_cfg admin_run = shipped_config" "next_conn_id admin_run = 2" "user_recv_mode admin_run 2 = Some kBroadcast"
proof -
  let ?b = "mp_pack (login_calls ''al'' ''a'' ''admin'' (recv_mode_str Broadcast))"
  let ?r = "count_frame 2 9 (length ?b) third_run"
  obtain r1 victims ok where reg: "register_login race_env 2 1 (''admin'' = ''admin'') ''al'' (server_mode Broadcast) ?r = (r1, victims, ok)"
    by (metis prod_cases3)
  have v: "victims = []" "user_recv_mode r1 2 = Some kBroadcast" "r_db r1 = r_db third_run"
    using reg by (auto simp: register_login_def choose_mode_def third_run_facts trim_deque_eq Let_def) (auto simp: count_frame_def third_run_facts)
  have may: "may_log_in third_run 2 ''al'' ''a'' ''admin'' 1"
    by (simp add: may_log_in_def the_sess_def third_run_facts new_session_def client_ip_def remote_endpoint_def)
      (simp add: sql_allowed_def sql_accounts_def two_users_def)
  have len: "length ?b \<le> unat (max_body_len (limits shipped_config))"
    by (simp add: login_calls_def recv_mode_str_def mp_pack_def enc_len_def shipped_config_def default_config_def)
  have "\<exists>msg r2. admin_run = push_event race_env kInfo msg (upd_sess 2 (post (PostSend (login_frame_of 1 2 1 ''al'' True ok))) r2) \<and> r2 = r1 \<and>
      heap r2 2 = Some (mark_login 9 1 True ''al'' (new_session 2 (Some (''10.0.0.1'', 5001))))"
    using login_read_loop [OF reachable_inv [OF third_run_reachable] _ _ _ third_run_facts(1) _ third_run_ready(1) may len reg, of 1] v(1)
    by (simp add: admin_run_def) (simp add: new_session_def)
  then obtain msg where r: "admin_run = push_event race_env kInfo msg (upd_sess 2 (post (PostSend (login_frame_of 1 2 1 ''al'' True ok))) r1)"
    "heap r1 2 = Some (mark_login 9 1 True ''al'' (new_session 2 (Some (''10.0.0.1'', 5001))))" by blast
  note R = register_login_result [OF reg]
  show "\<exists>sa. heap admin_run 2 = Some sa \<and> logged_in sa \<and> is_admin sa \<and> \<not> stopped sa"
    using r(2) by (simp add: r(1)) (simp add: mark_login_def touch_heartbeat_def post_def new_session_def)
  show "heap admin_run 1 = heap second_run 1" using heap_register_login [OF reg] by (simp add: r(1) third_run_facts)
  show "user_deque admin_run = [2 \<mapsto> [1], 1 \<mapsto> [2]]" "readers admin_run = [1 \<mapsto> 7, 2 \<mapsto> 9]" "r_cfg admin_run = shipped_config"
    "conn (r_db admin_run) = Some two_users" "next_conn_id admin_run = 2" "user_recv_mode admin_run 2 = Some kBroadcast"
    using R v third_run_ready(2) by (simp_all add: r(1) third_run_facts) (simp_all add: count_frame_def third_run_facts)
qed

lemma fourth_run_facts:
  "\<exists>sa. heap fourth_run 2 = Some sa \<and> logged_in sa \<and> is_admin sa \<and> \<not> stopped sa"
  "heap fourth_run 3 = Some (new_session 3 (Some (''10.0.0.1'', 5002)))"
  "user_deque fourth_run = [2 \<mapsto> [1], 1 \<mapsto> [2]]" "readers fourth_run = [1 \<mapsto> 7, 2 \<mapsto> 9, 3 \<mapsto> 10]"
  "conn (r_db fourth_run) = Some two_users" "r_cfg fourth_run = shipped_config" "user_recv_mode fourth_run 2 = Some kBroadcast"
  using admin_run_facts by (simp_all add: fourth_run_def accept_clients_def Let_def)

lemma fourth_run_reachable: "reachable_threads demo_env shipped_config (fourth_run, Map.empty)"
proof -
  have "leads demo_env (third_run, Map.empty) (admin_run, Map.empty)"
    unfolding admin_run_def race_env_def by (rule leads_reader) (simp_all add: third_run_facts)
  also have "leads demo_env \<dots> (fourth_run, Map.empty)"
    using server_accept [of admin_run demo_env 10 11 "Inr (Some (''10.0.0.1'', 5002))"] admin_run_facts(7)
    unfolding fourth_run_def by (intro leads_step [where ev = "(10, 11, TEnv (SAccept (Inr (Some (''10.0.0.1'', 5002)))))"] thread_env) simp_all
  finally show ?thesis by (rule leads_reachable [OF reachable_scheduled [OF third_run_reachable]])
qed

text \<open>The third connection's login is authenticated; then the administrator's deletion is carried out.\<close>

abbreviation third_header :: Header where
  "third_header \<equiv> second_header\<lparr>body_len := word_of_nat (length second_login)\<rparr>"

abbreviation pending :: "sql_db thread \<Rightarrow> tid \<rightharpoonup> sql_db thread" where
  "pending p \<equiv> [Reader 3 \<mapsto> seqp p (next_round 3)]"

abbreviation bob_registration :: "sql_db thread" where
  "bob_registration \<equiv> registration 3 2 (''user'' = ''admin'') ''bob'' (server_mode Broadcast) (login_answer 3 third_header)"

definition authenticated_run :: "sql_db relay" where
  "authenticated_run = count_frame 3 11 (length second_login) fourth_run"

definition deleted_run :: "sql_db relay" where
  "deleted_run = read_loop (demo_env\<lparr>e_now := 12, e_wall := 13\<rparr>) 2 (stream_input (bytes_of_chars (delete_bytes 5 2)) 12) authenticated_run"

lemma shipped_limits:
  "idle_ms (timeouts shipped_config) = 600000" "length second_login \<le> unat (max_body_len (limits shipped_config))"
  "100 \<le> unat (max_body_len (limits shipped_config))"
  by (simp_all add: login_calls_def recv_mode_str_def mp_pack_def enc_len_def shipped_config_def default_config_def)

lemma deleted_run_reachable: "reachable_threads demo_env shipped_config (deleted_run, pending bob_registration)"
proof -
  let ?q = "login_queries_t 3 ''bob'' ''b'' (''user'' = ''admin'') (server_mode Broadcast) (login_answer 3 third_header)"
  have "leads demo_env (fourth_run, Map.empty) (authenticated_run, pending ?q)"
    unfolding authenticated_run_def
    by (rule leads_to_queries [where now = 11 and wall = 12 and q = 1])
      (use shipped_limits in \<open>simp_all add: fourth_run_facts the_sess_def reader_ready_def demo_env_def, simp_all add: new_session_def\<close>)
  also have "leads demo_env \<dots> (authenticated_run, pending bob_registration)"
  proof (rule leads_to_authenticated [where e = demo_env and r = authenticated_run and c = 3 and pw = "''b''" and P = "pending ?q", simplified fun_upd_upd])
    show "may_log_in authenticated_run 3 ''bob'' ''b'' ''user'' 2"
      by (simp add: may_log_in_def authenticated_run_def count_frame_def the_sess_def fourth_run_facts new_session_def client_ip_def remote_endpoint_def)
        (simp add: sql_allowed_def sql_accounts_def two_users_def)
  qed (simp_all add: demo_env_def)
  also have "leads demo_env \<dots> (deleted_run, pending bob_registration)"
    unfolding deleted_run_def by (rule leads_reader) (simp_all add: authenticated_run_def count_frame_def fourth_run_facts)
  finally show ?thesis by (rule leads_reachable [OF fourth_run_reachable])
qed

lemma deleted_run_facts:
  "conn (r_db deleted_run) = Some (two_users\<lparr>t_users := [\<lparr>su_id = 1, su_name = ''al'', su_pw = ''a'', su_admin = True\<rparr>]\<rparr>)"
  "user_deque deleted_run 2 = Some [1]" "r_cfg deleted_run = shipped_config" "heap deleted_run 3 = heap fourth_run 3"
proof -
  let ?e = "demo_env\<lparr>e_now := 12, e_wall := 13\<rparr>" and ?r = authenticated_run
  obtain sa where sa: "heap ?r 2 = Some sa" "logged_in sa" "is_admin sa" "\<not> stopped sa"
    using fourth_run_facts(1) by (auto simp: authenticated_run_def)
  have ready: "reader_ready ?e ?r 2"
    using sa(1,4) shipped_limits(1) by (simp add: reader_ready_def the_sess_def) (simp add: authenticated_run_def count_frame_def fourth_run_facts)
  have r: "conn (r_db ?r) = Some two_users" "r_cfg ?r = shipped_config" "user_deque ?r 2 = Some [1]" "heap ?r = heap fourth_run"
    by (simp_all add: authenticated_run_def fourth_run_facts) (simp add: count_frame_def fourth_run_facts)
  have "e_api ?e = sql_api" "e_unpack ?e = mp_unpack" by (simp_all add: demo_env_def)
  note D = delete_read_loop [OF this sa(1-3) ready r(1) _ r(3) _ deleted_run_def]
  from D r shipped_limits(3) show
    "conn (r_db deleted_run) = Some (two_users\<lparr>t_users := [\<lparr>su_id = 1, su_name = ''al'', su_pw = ''a'', su_admin = True\<rparr>]\<rparr>)"
    "user_deque deleted_run 2 = Some [1]" "r_cfg deleted_run = shipped_config" "heap deleted_run 3 = heap fourth_run 3"
    by simp_all
qed

subsection \<open>Property\<close>

text \<open>
  C29. A login can outlive the deletion of its account.  There is a schedule of the server's threads in which bob logs in on a third connection
  while the administrator deletes his account: the password is checked before the deletion, the deletion closes the
  connections that are registered, and the registration comes after both.  The connection is then logged in as an account that does
  not exist, and the name leads to it again, so that messages to bob are delivered to it.
\<close>

theorem deleted_account_logs_in:
  "\<exists>r P s q db. reachable_threads demo_env shipped_config (r, P) \<and>
     heap r 3 = Some s \<and> logged_in s \<and> username s = ''bob'' \<and> user_id s = 2 \<and>
     user_deque r 2 = Some q \<and> 3 \<in> set q \<and> name_to_uid r ''bob'' = Some 2 \<and>
     conn (r_db r) = Some db \<and> sql_accounts db ''bob'' = None \<and> filter (\<lambda>row. su_id row = 2) (t_users db) = []"
proof -
  let ?s = "mark_login 14 2 False ''bob'' (new_session 3 (Some (''10.0.0.1'', 5002)))"
  define db where "db = two_users\<lparr>t_users := [\<lparr>su_id = 1, su_name = ''al'', su_pw = ''a'', su_admin = True\<rparr>]\<rparr>"
  obtain r1 victims ok where reg: "register_login (demo_env\<lparr>e_now := 14, e_wall := 15\<rparr>) 3 2 (''user'' = ''admin'') ''bob'' (server_mode Broadcast) deleted_run = (r1, victims, ok)"
    by (metis prod_cases3)
  have "leads demo_env (deleted_run, pending bob_registration) (r1, pending (seqp
      (notify_each_t txt_conn_limit ''max_connections_per_user'' (filter (\<lambda>v. v \<noteq> 3) victims)) (login_answer 3 third_header (Inr ok))))"
    using leads_to_registered [where P = "pending bob_registration" and c = 3, OF _ reg] by simp
  from leads_reachable [OF deleted_run_reachable this] have "\<exists>P. reachable_threads demo_env shipped_config (r1, P)" by blast
  moreover have "heap r1 3 = Some ?s"
    using heap_register_login [OF reg] by (simp add: deleted_run_facts fourth_run_facts)
  moreover have "user_deque r1 2 = Some [1, 3]" using register_login_result(1) [OF reg] by (simp add: deleted_run_facts)
  moreover have "name_to_uid r1 ''bob'' = Some 2" and "r_db r1 = r_db deleted_run"
    using reg by (auto simp: register_login_def choose_mode_def Let_def split: prod.splits if_splits)
  moreover have "conn (r_db deleted_run) = Some db" "sql_accounts db ''bob'' = None" "filter (\<lambda>row. su_id row = 2) (t_users db) = []"
    by (simp_all add: deleted_run_facts db_def sql_accounts_def)
  moreover have "logged_in ?s" "username ?s = ''bob''" "user_id ?s = 2" "3 \<in> set [1, 3 :: u64]"
    by (simp_all add: mark_login_def touch_heartbeat_def)
  ultimately show ?thesis by metis
qed

end
