(* ===== verification/Idle_Race.thy ===== *)
theory Idle_Race
  imports Login_Flow
begin

text \<open>
  The idle timeout of \<^verbatim>\<open>read_loop\<close>.  The reader posts the kick, which is to send a notification and then close, and goes on to
  remove the session and to close the socket itself, without waiting for the kick's handler.  Posting,
  removing and closing are three actions of its program (\<open>read_loop_t\<close>, \<open>exit_t\<close>), between which the
  session's strand may or may not get to run.
\<close>

subsection \<open>Schedules of an idle timeout\<close>

abbreviation idle_notice :: "'db env \<Rightarrow> string" where
  "idle_notice e \<equiv> pack_wire kMsgKick 0 (e_pack e (kick_notice txt_idle_timeout))"

abbreviation idle_kick :: "'db env \<Rightarrow> strand_task" where
  "idle_kick e \<equiv> PostKick (idle_notice e) ''idle timeout''"

definition idle_expired :: "int \<Rightarrow> 'db relay \<Rightarrow> u64 \<Rightarrow> bool" where
  "idle_expired now r c \<longleftrightarrow>
     0 < idle_ms (timeouts (r_cfg r)) \<and> now - the (readers r c) > idle_ms (timeouts (r_cfg r)) \<and> \<not> stopped (the_sess r c)"

lemma idle_posted:
  assumes "P (Reader c) = None" and "c \<in> dom (readers r)" and "heap r c = Some s" and "logged_in s" and "idle_expired now r c"
  shows "leads e (r, P) (upd_sess c (post (idle_kick e)) r, P(Reader c \<mapsto> exit_t c))"
proof -
  let ?e = "e\<lparr>e_now := now, e_wall := 0\<rparr>"
  let ?p = "seqp (act (\<lambda>e. notify_and_close e c txt_idle_timeout ''idle timeout'')) (exit_t c)"
  have "leads e (r, P) (r, P(Reader c \<mapsto> read_loop_t e c))"
    using leads_begin [of P "Reader c" r e] assms(1,2) by simp
  also have "leads e \<dots> (r, P(Reader c \<mapsto> ?p))"
    using leads_act [of "P(Reader c \<mapsto> read_loop_t e c)" "Reader c" "read_loop_t e c" 0 now e r] assms(5)
    by (simp add: read_loop_t_def idle_expired_def Let_def)
  also have "leads e \<dots> (upd_sess c (post (idle_kick e)) r, P(Reader c \<mapsto> exit_t c))"
    using leads_act [of "P(Reader c \<mapsto> ?p)" "Reader c" ?p 0 now e r] assms(3,4)
    by (simp add: notify_and_close_def kick_notify_and_close_def)
  finally show ?thesis .
qed

text \<open>What the reader does without a break: the socket is closed and the kick's handler has not run.\<close>

lemma idle_closed_first:
  assumes "P (Reader c) = None" and "heap r c = Some s"
  shows "\<exists>r1. leads e (upd_sess c (post k) r, P(Reader c \<mapsto> exit_t c)) (r1, P) \<and>
    heap r1 c = Some (s\<lparr>strand := strand s @ [k], sock_open := False\<rparr>)"
proof -
  let ?r = "upd_sess c (post k) r"
  have p: "P(Reader c := None) = P" using assms(1) by (simp add: fun_upd_idem)
  have "leads e (?r, P(Reader c \<mapsto> exit_t c)) (read_loop_exit c ?r, P)"
    using leads_exec [of "P(Reader c \<mapsto> exit_t c)" "Reader c" "exit_t c" e ?r 0 0 "[]"] p by (simp add: exec_exit_t)
  moreover have "heap (remove_session c ?r) = heap ?r" by (simp add: remove_session_def Let_def split: option.split)
  ultimately show ?thesis using assms(2) by (intro exI [of _ "read_loop_exit c ?r"]) (simp add: read_loop_exit_def post_def Let_def)
qed

text \<open>The session's strand gets to run before the reader goes on: the notification is written.\<close>

lemma idle_notified_first:
  assumes "P (Reader c) = None" and "heap r c = Some s" and "\<not> stopped s" and "\<not> kick_pending s" and "\<not> writing s" and "strand s = []"
  shows "\<exists>r2 t. leads e (upd_sess c (post (PostKick n w)) r, P(Reader c \<mapsto> exit_t c)) (r2, P) \<and>
    heap r2 c = Some t \<and> sent t = sent s @ [n] \<and> stopped t \<and> \<not> sock_open t"
proof -
  let ?Q = "P(Reader c \<mapsto> exit_t c)"
  let ?r = "upd_sess c (post (PostKick n w)) r"
  let ?k = "run_kick n w s"
  define r1 where "r1 = put_sess c (r_metrics ?r, ?k) ?r"
  have s: "heap ?r c = Some (s\<lparr>strand := [PostKick n w]\<rparr>)" using assms(2,6) by (simp add: post_def)
  have eq: "s\<lparr>strand := [PostKick n w], strand := []\<rparr> = s" using assms(6) by simp
  have "server_step e ?r (0, 0, SRun c) r1"
    using server_run [OF s, of "PostKick n w" "[]" e 0 0] eq by (simp add: r1_def)
  then have l1: "leads e (?r, ?Q) (r1, ?Q)" by (intro leads_step [where ev = "(0, 0, TEnv (SRun c))"] thread_env) simp_all
  have k: "heap r1 c = Some ?k" "in_flight ?k = Some n"
    using assms(3-5) by (simp_all add: r1_def put_sess_def run_kick_def do_write_eq Let_def)
  define r2 where "r2 = put_sess c (on_write n (WriteOk (length n)) (r_metrics r1, ?k)) r1"
  have "server_step e r1 (0, 0, SWrite c (WriteOk (length n))) r2" unfolding r2_def by (rule server_write [OF k])
  then have l2: "leads e (r1, ?Q) (r2, ?Q)"
    by (intro leads_step [where ev = "(0, 0, TEnv (SWrite c (WriteOk (length n))))"] thread_env) simp_all
  obtain t where t: "heap r2 c = Some t" "sent t = sent s @ [n]" "stopped t"
    using assms(3-5) by (simp add: r2_def put_sess_def run_kick_idle)
  have l3: "leads e (r2, ?Q) (read_loop_exit c r2, P)"
    using leads_exec [of ?Q "Reader c" "exit_t c" e r2 0 0 "[]"] assms(1) by (simp add: exec_exit_t fun_upd_idem)
  have "leads e (?r, ?Q) (read_loop_exit c r2, P)" by (rule leads_trans [OF leads_trans [OF l1 l2] l3])
  moreover have "heap (read_loop_exit c r2) c = Some (t\<lparr>sock_open := False\<rparr>)"
    using t(1) by (simp add: read_loop_exit_def remove_session_def Let_def split: option.split)
  ultimately show ?thesis using t by (intro exI [of _ "read_loop_exit c r2"] exI [of _ "t\<lparr>sock_open := False\<rparr>"]) simp
qed

subsection \<open>Property\<close>

text \<open>
  C34. The idle timeout closes the socket under its own notification.  When the read loop of a logged-in connection with nothing to
  write finds it idle for too long, two schedules of the threads lead to the end of that read loop: in one the
  socket is closed while the kick with the notification is still waiting on the strand, with nothing of it handed to the socket; in
  the other the strand runs first and the notification is the last frame sent.  Nothing in the code excludes the former.
\<close>

theorem idle_notice_races_with_close:
  assumes "P (Reader c) = None" and "c \<in> dom (readers r)" and "heap r c = Some s" and "logged_in s"
    and "\<not> kick_pending s" and "\<not> writing s" and "strand s = []" and "idle_expired now r c"
  shows "(\<exists>r1. leads e (r, P) (r1, P) \<and>
      heap r1 c = Some (s\<lparr>strand := [PostKick (pack_wire kMsgKick 0 (e_pack e (kick_notice txt_idle_timeout))) ''idle timeout''],
        sock_open := False\<rparr>)) \<and>
    (\<exists>r2 t. leads e (r, P) (r2, P) \<and> heap r2 c = Some t \<and> stopped t \<and> \<not> sock_open t \<and>
      sent t = sent s @ [pack_wire kMsgKick 0 (e_pack e (kick_notice txt_idle_timeout))])"
proof
  note posted = idle_posted [where P = P, OF assms(1-4,8)]
  have "\<not> stopped s" using assms(3,8) by (simp add: idle_expired_def the_sess_def)
  then obtain r2 t where "leads e (upd_sess c (post (idle_kick e)) r, P(Reader c \<mapsto> exit_t c)) (r2, P)"
      "heap r2 c = Some t" "sent t = sent s @ [idle_notice e]" "stopped t" "\<not> sock_open t"
    using idle_notified_first [where P = P, OF assms(1,3) _ assms(5-7)] by blast
  with leads_trans [OF posted] show "\<exists>r2 t. leads e (r, P) (r2, P) \<and> heap r2 c = Some t \<and> stopped t \<and> \<not> sock_open t \<and>
      sent t = sent s @ [idle_notice e]" by blast
  obtain r1 where "leads e (upd_sess c (post (idle_kick e)) r, P(Reader c \<mapsto> exit_t c)) (r1, P)"
      "heap r1 c = Some (s\<lparr>strand := [idle_kick e], sock_open := False\<rparr>)"
    using idle_closed_first [where P = P, OF assms(1,3)] assms(7) by fastforce
  with leads_trans [OF posted] show "\<exists>r1. leads e (r, P) (r1, P) \<and>
      heap r1 c = Some (s\<lparr>strand := [idle_kick e], sock_open := False\<rparr>)" by blast
qed

text \<open>Bob's connection after the reply to his login has been written.\<close>

lemma answered_run:
  "\<exists>r s. reachable_threads demo_env shipped_config (r, Map.empty) \<and> readers r = [1 \<mapsto> 7] \<and> r_cfg r = shipped_config \<and>
     heap r 1 = Some s \<and> logged_in s \<and> \<not> stopped s \<and> \<not> kick_pending s \<and> \<not> writing s \<and> strand s = []"
proof -
  define w where "w = pack_wire kMsgServerReply 1 (mp_pack (login_reply 1 2 ''bob'' False \<lparr>effective_mode = kBroadcast, recv_mode_notice = None\<rparr>))"
  obtain s where s: "heap second_run 1 = Some s" "logged_in s" "\<not> stopped s" "queue s = []" "\<not> kick_pending s" "strand s = [PostSend w]"
    using second_run_session unfolding w_def by blast
  note D = relay_invD [OF reachable_inv [OF second_run_reachable]]
  have cf: "r_cfg second_run = shipped_config" "session_inv (flow shipped_config) s"
    using D(1) D(2) [OF _ s(1)] by (simp_all add: shipped_config_def default_config_def default_session_policy_def)
  then have i: "pending_bytes s = 0" "\<not> writing s" "in_flight s = None"
    using s(3-5) by (auto simp: session_inv_def queued_bytes_def)
  have w: "length w \<le> 500"
    by (simp add: w_def pack_wire_def login_reply_def recv_mode_cstr_def mp_pack_def Let_def)
  then have fl: "length w \<le> unat (high_water_bytes (flow shipped_config))" "length w \<le> unat (hard_limit_bytes (flow shipped_config))"
    by (simp_all add: shipped_config_def default_config_def)
  let ?m = "r_metrics second_run"
  define s1 where "s1 = s\<lparr>strand := [], queue := [w], pending_bytes := length w, writing := True, in_flight := Some w\<rparr>"
  define r1 where "r1 = put_sess 1 (?m, s1) second_run"
  have "run_task (flow shipped_config) (PostSend w) (?m, s\<lparr>strand := []\<rparr>) = (?m, s1)"
    using s(3-5) i fl by (simp add: run_send_def do_write_eq s1_def Let_def)
  then have "server_step demo_env second_run (8, 8, SRun 1) r1"
    using server_run [OF s(1,6), of demo_env 8 8] cf(1) by (simp add: r1_def)
  then have l1: "leads demo_env (second_run, Map.empty) (r1, Map.empty)"
    by (intro leads_step [where ev = "(8, 8, TEnv (SRun 1))"] thread_env) simp_all
  define s2 where "s2 = s1\<lparr>sent := sent s @ [w], queue := [], pending_bytes := 0, writing := False, in_flight := None\<rparr>"
  obtain m2 where m2: "on_write w (WriteOk (length w)) (?m, s1) = (m2, s2)"
    using s(5) by (simp add: s1_def s2_def Let_def)
  define r2 where "r2 = put_sess 1 (m2, s2) r1"
  have h1: "heap r1 1 = Some s1" "in_flight s1 = Some w" "r_metrics r1 = ?m" by (simp_all add: r1_def put_sess_def s1_def)
  have "server_step demo_env r1 (8, 8, SWrite 1 (WriteOk (length w))) r2"
    using server_write [OF h1(1,2), of demo_env 8 8 "WriteOk (length w)"] m2 h1(3) by (simp add: r2_def)
  then have "leads demo_env (r1, Map.empty) (r2, Map.empty)"
    by (intro leads_step [where ev = "(8, 8, TEnv (SWrite 1 (WriteOk (length w))))"] thread_env) simp_all
  from leads_reachable [OF reachable_scheduled [OF second_run_reachable] leads_trans [OF l1 this]]
  have "reachable_threads demo_env shipped_config (r2, Map.empty)" .
  moreover have "readers r2 = [1 \<mapsto> 7]" "r_cfg r2 = shipped_config" "heap r2 1 = Some s2"
    using second_run_facts cf(1) by (simp_all add: r2_def r1_def put_sess_def)
  moreover have "logged_in s2" "\<not> stopped s2" "\<not> kick_pending s2" "\<not> writing s2" "strand s2 = []"
    using s by (simp_all add: s2_def s1_def)
  ultimately show ?thesis by blast
qed

theorem idle_notice_races_with_close_witness:
  "\<exists>r r1 r2 t2 t1. reachable_threads demo_env shipped_config (r, Map.empty) \<and>
     leads demo_env (r, Map.empty) (r1, Map.empty) \<and> heap r1 1 = Some t1 \<and> \<not> sock_open t1 \<and>
       strand t1 = [PostKick (pack_wire kMsgKick 0 (mp_pack (kick_notice txt_idle_timeout))) ''idle timeout''] \<and>
     leads demo_env (r, Map.empty) (r2, Map.empty) \<and> heap r2 1 = Some t2 \<and>
       last (sent t2) = pack_wire kMsgKick 0 (mp_pack (kick_notice txt_idle_timeout))"
proof -
  obtain r s where r: "reachable_threads demo_env shipped_config (r, Map.empty)" "readers r = [1 \<mapsto> 7]" "r_cfg r = shipped_config"
    "heap r 1 = Some s" "logged_in s" "\<not> stopped s" "\<not> kick_pending s" "\<not> writing s" "strand s = []"
    using answered_run by blast
  have idle: "idle_expired 700000 r 1" using r(2-4,6) by (simp add: idle_expired_def the_sess_def shipped_config_def)
  have "e_pack demo_env = mp_pack" by (simp add: demo_env_def)
  with idle_notice_races_with_close [where P = Map.empty and e = demo_env, OF _ _ r(4,5,7-9) idle] r(2) obtain r1 r2 t where
    "leads demo_env (r, Map.empty) (r1, Map.empty)"
    "heap r1 1 = Some (s\<lparr>strand := [PostKick (pack_wire kMsgKick 0 (mp_pack (kick_notice txt_idle_timeout))) ''idle timeout''], sock_open := False\<rparr>)"
    "leads demo_env (r, Map.empty) (r2, Map.empty)" "heap r2 1 = Some t"
    "sent t = sent s @ [pack_wire kMsgKick 0 (mp_pack (kick_notice txt_idle_timeout))]"
    by auto
  then show ?thesis
    by (intro exI [of _ r] exI [of _ r1] exI [of _ r2] exI [of _ t]
        exI [of _ "s\<lparr>strand := [PostKick (pack_wire kMsgKick 0 (mp_pack (kick_notice txt_idle_timeout))) ''idle timeout''], sock_open := False\<rparr>"]
        conjI r(1)) simp_all
qed

end
