(* ===== verification/Handler_Effects.thy ===== *)
theory Handler_Effects
  imports Relay_Threads
begin

text \<open>
  What the handlers do to the sessions.  Every handler reaches a session in four ways only: it posts a frame or a handler on its strand, marks it
  logged in, notes a heartbeat or closes its socket; and every frame it posts has one of three types.  \<open>posting_invariant\<close> is the contract of a
  predicate that survives these four; every action of every thread then keeps it (\<open>keeps_thread_code\<close>), wherever the thread is interrupted.
  It is interpreted twice: for the type of what the sessions hold (\<open>Frame_Types\<close>) and for what stays on a session's way to its peer
  (\<open>Wire_Delivery\<close>).
\<close>

subsection \<open>Types of frames\<close>

definition deliver_body :: "mmap \<Rightarrow> bool" where
  "deliver_body m \<longleftrightarrow>
     (\<exists>p. map_of m (MStr ''payload'') = Some (MBin p)) \<and>
     (\<exists>c. map_of m (MStr ''src_conn_id'') = Some (MPosInt c)) \<and> (\<exists>c. map_of m (MStr ''dst_conn_id'') = Some (MPosInt c)) \<and>
     (\<exists>n. map_of m (MStr ''src_username'') = Some (MStr n)) \<and> (\<exists>n. map_of m (MStr ''dst_username'') = Some (MStr n))"

definition kick_body :: "mmap \<Rightarrow> bool" where
  "kick_body m \<longleftrightarrow> map_of m (MStr ''op'') = Some (MStr ''KICK'') \<and> (\<exists>n. map_of m (MStr ''reason'') = Some (MStr n))"

definition reply_body :: "mmap \<Rightarrow> bool" where
  "reply_body m \<longleftrightarrow>
     map_of m (MStr ''ok'') = Some (MBool True) \<and>
       (\<exists>op \<in> {''LOGIN'', ''HEARTBEAT'', ''DATA'', ''CONTROL''}. map_of m (MStr ''op'') = Some (MStr op)) \<or>
     map_of m (MStr ''ok'') = Some (MBool False) \<and>
       (\<exists>code \<in> {1001, 1002, 1003, 1005}. map_of m (MStr ''code'') = Some (MPosInt code)) \<and>
       (\<exists>n. map_of m (MStr ''message'') = Some (MStr n))"

definition typed_map :: "u32 \<Rightarrow> mmap \<Rightarrow> bool" where
  "typed_map mt m \<longleftrightarrow> distinct (map fst m) \<and>
     (mt = kMsgDeliver \<and> deliver_body m \<or> mt = kMsgKick \<and> kick_body m \<or> mt = kMsgServerReply \<and> reply_body m)"

definition typed_frame :: "(pk_call list \<Rightarrow> string) \<Rightarrow> string \<Rightarrow> bool" where
  "typed_frame pk f \<longleftrightarrow> (\<exists>mt sq m. f = pack_wire mt sq (pk (calls (MMap m))) \<and> typed_map mt m)"

fun typed_task :: "(pk_call list \<Rightarrow> string) \<Rightarrow> strand_task \<Rightarrow> bool" where
  "typed_task pk (PostSend f) \<longleftrightarrow> typed_frame pk f"
| "typed_task pk (PostKick f w) \<longleftrightarrow> typed_frame pk f"
| "typed_task pk (PostStop w) \<longleftrightarrow> True"

subsection \<open>Bodies\<close>

lemma typed_frameI: "\<lbrakk>cs = calls (MMap m); typed_map mt m\<rbrakk> \<Longrightarrow> typed_frame pk (pack_wire mt sq (pk cs))"
  by (auto simp: typed_frame_def)

definition error_codes :: "int set" where
  "error_codes = {kIpNotAllowed, kAuthFailed, kInvalidLoginBody, kProtocol}"

lemma typed_ok_reply:
  "op \<in> {''LOGIN'', ''HEARTBEAT'', ''DATA'', ''CONTROL''} \<Longrightarrow> typed_frame pk (pack_wire kMsgServerReply sq (pk (ok_reply op)))"
  by (rule typed_frameI [OF ok_reply_calls [unfolded ok_obj_def]]) (auto simp: typed_map_def reply_body_def)

lemma typed_err_reply:
  assumes "code \<in> error_codes"
  shows "typed_frame pk (pack_wire kMsgServerReply sq (pk (err_reply code m)))"
proof -
  obtain w :: u64 where "w \<in> {1001, 1002, 1003, 1005}" "code = uint w"
  proof -
    have "code \<in> uint ` ({1001, 1002, 1003, 1005} :: u64 set)"
      using assms by (simp add: error_codes_def kIpNotAllowed_def kAuthFailed_def kInvalidLoginBody_def kProtocol_def)
    then show thesis using that by blast
  qed
  then show ?thesis
    using typed_frameI [OF err_reply_calls [of w m, unfolded err_obj_def], of kMsgServerReply]
    by (auto simp: typed_map_def reply_body_def)
qed

lemma typed_login_reply: "typed_frame pk (pack_wire kMsgServerReply sq (pk (login_reply cid uid un adm ok)))"
  by (rule typed_frameI [OF login_reply_calls [unfolded login_obj_def]])
    (auto simp: typed_map_def reply_body_def split: option.split)

lemma typed_control_reply:
  "\<lbrakk>cs = calls v; key \<notin> {''ok'', ''op''}\<rbrakk> \<Longrightarrow> typed_frame pk (pack_wire kMsgServerReply sq (pk (control_reply key cs)))"
  by (simp, rule typed_frameI [OF control_reply_calls [unfolded control_obj_def]]) (auto simp: typed_map_def reply_body_def)

lemma typed_kick: "typed_frame pk (pack_wire kMsgKick sq (pk (kick_notice reason)))"
  by (rule typed_frameI [OF kick_notice_calls [unfolded kick_obj_def]]) (simp add: typed_map_def kick_body_def)

text \<open>The length of the payload is cast to 32 bits, and so many of its bytes are packed.\<close>

lemma typed_deliver: "typed_frame pk (pack_wire kMsgDeliver sq (pk (pack_deliver_envelope p src dst su du)))"
proof -
  let ?w = "word_of_nat (length p) :: u32"
  let ?p = "take (unat ?w) p"
  have "length ?p = unat ?w" by (simp add: unat_of_nat)
  then have "word_of_nat (length ?p) = ?w" "unat (word_of_nat (length ?p) :: u32) = length ?p" by simp_all
  then have "pack_deliver_envelope p src dst su du = pack_deliver_envelope ?p src dst su du"
    by (simp add: pack_deliver_envelope_def)
  moreover have "length ?p < 2 ^ 32" using unsigned_less [of ?w] \<open>length ?p = unat ?w\<close> by simp
  ultimately show ?thesis
    by (simp add: deliver_envelope_calls deliver_obj_def del: calls.simps)
      (rule typed_frameI [OF refl], simp add: typed_map_def deliver_body_def)
qed

lemma error_codes [simp]: "kProtocol \<in> error_codes"
  by (simp add: error_codes_def)

text \<open>The iteration over \<^verbatim>\<open>user_deque_\<close> visits every entry once.\<close>

definition visits_all :: "'db env \<Rightarrow> bool" where
  "visits_all e \<longleftrightarrow> (\<forall>m. distinct (e_order e m) \<and> set (e_order e m) = dom m)"

lemma kicked_count_calls: "[PackInt (uint (n :: u32))] = calls (MPosInt (ucast n))"
  by (simp add: uint_up_ucast is_up)

lemmas typed_control_bodies = typed_control_reply [OF ip_rows_calls] typed_control_reply [OF user_rows_calls]
  typed_control_reply [OF kicked_count_calls] typed_control_reply [OF users_calls]

subsection \<open>Programs\<close>

text \<open>A program keeps a predicate of the state if each of its actions does, wherever it is interrupted.\<close>

primrec keeps :: "('e \<Rightarrow> 's \<Rightarrow> bool) \<Rightarrow> ('e, 's, 'i) prog \<Rightarrow> bool" where
  "keeps I Fin \<longleftrightarrow> True"
| "keeps I (Act f k) \<longleftrightarrow> (\<forall>e s. I e s \<longrightarrow> I e (f e s)) \<and> (\<forall>e s. keeps I (k e s))"
| "keeps I (Await k) \<longleftrightarrow> (\<forall>i. keeps I (k i))"

lemma keeps_seqp: "\<lbrakk>keeps I p; keeps I q\<rbrakk> \<Longrightarrow> keeps I (seqp p q)"
proof (induction p)
  case (Act f k)
  from Act.IH [OF rangeI rangeI] Act.prems show ?case by simp
next
  case (Await k)
  from Await.IH [OF rangeI] Await.prems show ?case by simp
qed simp

lemma keeps_combinators:
  "(\<And>e s. I e s \<Longrightarrow> I e (f e s)) \<Longrightarrow> keeps I (act f)" "(\<And>e s. keeps I (k e s)) \<Longrightarrow> keeps I (look k)"
  "\<lbrakk>\<And>e s. I e s \<Longrightarrow> I e (fst (g e s)); \<And>x. keeps I (j x)\<rbrakk> \<Longrightarrow> keeps I (call g j)"
  by (simp_all add: act_def look_def call_def)

lemma keeps_cases:
  "\<lbrakk>keeps I p; keeps I q\<rbrakk> \<Longrightarrow> keeps I (if b then p else q)"
  "\<lbrakk>keeps I p; \<And>y. keeps I (g y)\<rbrakk> \<Longrightarrow> keeps I (case x of None \<Rightarrow> p | Some y \<Rightarrow> g y)"
  "\<lbrakk>\<And>u. keeps I (i u); \<And>v. keeps I (j v)\<rbrakk> \<Longrightarrow> keeps I (case z of Inl u \<Rightarrow> i u | Inr v \<Rightarrow> j v)"
  by (simp_all split: option.split sum.split)

lemma heap_remove_session: "heap (remove_session c r) = heap r"
  by (simp add: remove_session_def Let_def split: option.split)

subsection \<open>Predicates that survive the handlers\<close>

locale posting_invariant =
  fixes I :: "'db env \<Rightarrow> 'db relay \<Rightarrow> bool"
  assumes order: "I e r \<Longrightarrow> visits_all e"
    and clocks: "I e r \<Longrightarrow> I (e\<lparr>e_now := now, e_wall := wall\<rparr>) r"
    and heap_only: "\<lbrakk>I e r; heap r' = heap r\<rbrakk> \<Longrightarrow> I e r'"
    and posts: "\<lbrakk>I e r; typed_task (e_pack e) t\<rbrakk> \<Longrightarrow> I e (upd_sess c (post t) r)"
    and marks: "I e r \<Longrightarrow> I e (upd_sess c (mark_login now uid adm un) r)"
    and touches: "I e r \<Longrightarrow> I e (upd_sess c (touch_heartbeat now) r)"
    and closes: "I e r \<Longrightarrow> I e (upd_sess c (\<lambda>s. s\<lparr>sock_open := False\<rparr>) r)"
begin

lemma kept_reply:
  "\<lbrakk>I e r; typed_frame (e_pack e) (pack_wire kMsgServerReply sq (e_pack e buf))\<rbrakk> \<Longrightarrow> I e (send_reply e c buf sq r)"
  by (simp add: send_reply_def send_frame_def posts)

lemma kept_err: "\<lbrakk>I e r; code \<in> error_codes\<rbrakk> \<Longrightarrow> I e (send_err_reply e c sq code m r)"
  by (simp add: send_err_reply_def kept_reply typed_err_reply)

lemma kept_stop: "I e r \<Longrightarrow> I e (upd_sess c (stop w) r)"
  by (simp add: stop_def posts)

lemma kept_push_event: "I e r \<Longrightarrow> I e (push_event e lv m r)"
  by (erule heap_only) simp

lemma kept_notify: "I e r \<Longrightarrow> I e (notify_and_close e c x y r)"
  by (simp add: notify_and_close_def kick_notify_and_close_def stop_def posts typed_kick Let_def)

lemma kept_send_deliver: "I e r \<Longrightarrow> I e (send_deliver e su sc du p sq c r)"
  by (simp add: send_deliver_def send_frame_def posts typed_deliver Let_def)

lemma kept_broadcast: "I e r \<Longrightarrow> I e (broadcast_loop e su sc du p sq n cs r)"
  by (induction cs arbitrary: n r) (simp_all add: kept_send_deliver kept_push_event)

lemma kept_deliver_locked: "I e r \<Longrightarrow> I e (deliver_locked e su sc du p sq uid r)"
  using heap_only [of e r "r\<lparr>rr_next_index := k\<rparr>" for k]
  by (simp add: deliver_locked_def Let_def kept_broadcast kept_send_deliver split: option.split)

lemma kept_list_users: "I e r \<Longrightarrow> I e (control_list_users e c h r)"
  using order [of e r] by (simp add: control_list_users_def kept_reply typed_control_bodies visits_all_def)

lemma kept_register_login: "I e r \<Longrightarrow> I e (fst (register_login e c uid adm un mode r))"
  using heap_only [OF marks [of e r c "e_now e" uid adm un]] heap_register_login [of e c uid adm un mode r]
  by (cases "register_login e c uid adm un mode r") (simp add: upd_sess_def)

lemma keeps_db_call: "(\<And>x. keeps I (k x)) \<Longrightarrow> keeps I (db_call f k)"
  unfolding db_call_def by (intro keeps_combinators) (erule heap_only, simp_all)

lemmas keeps_intros = keeps_combinators(1,2) keeps_db_call keeps_seqp keeps_cases

lemma keeps_replies:
  "(\<And>pk sq. typed_frame pk (pack_wire kMsgServerReply sq (pk buf))) \<Longrightarrow> keeps I (reply_t c buf sq)"
  "code \<in> error_codes \<Longrightarrow> keeps I (err_reply_t c sq code m)"
  "keeps I (stop_t c w)" "keeps I (event_t lv m)"
  by (simp_all add: reply_t_def err_reply_t_def stop_t_def event_t_def act_def kept_reply kept_err kept_stop kept_push_event)

lemma keeps_ok_reply:
  "keeps I (reply_t c (ok_reply ''HEARTBEAT'') sq)" "keeps I (reply_t c (ok_reply ''DATA'') sq)" "keeps I (reply_t c (ok_reply ''CONTROL'') sq)"
  "keeps I (err_reply_t c sq kProtocol m)"
  by (simp_all add: keeps_replies typed_ok_reply)

lemma keeps_notify_each_t: "keeps I (notify_each_t x y vs)"
  by (induction vs) (simp_all add: kept_notify)

lemmas keeps_simple = keeps_ok_reply keeps_replies(3,4) keeps_notify_each_t keeps.simps(1) [THEN iffD2, OF TrueI]

lemma keeps_data_t: "keeps I (handle_data_t c h mp)"
proof -
  have "keeps I (ensure_uid_t un k)" if "\<And>u. keeps I (k u)" for un k
    using that unfolding ensure_uid_t_def by (intro keeps_intros) (auto intro: heap_only)
  then show ?thesis
    unfolding handle_data_t_def deliver_t_def Let_def
    by (intro keeps_intros keeps_simple) (simp add: kept_deliver_locked keeps_simple split: option.split)
qed

lemma keeps_change_t: "keeps I p \<Longrightarrow> keeps I (change_t c h f p)"
  unfolding change_t_def by (intro keeps_intros keeps_simple)

lemma kept_rename: "I e r \<Longrightarrow> I e (rename_cached uid old nu r)"
  by (erule heap_only) (simp add: rename_cached_def split: option.split)

lemma kept_names: "I e r \<Longrightarrow> I e (r\<lparr>name_to_uid := a, uid_to_username := b\<rparr>)"
  by (erule heap_only) simp

lemma keeps_control_t:
  "keeps I (list_users_t c h)" "keeps I (kick_user_t c h mp)" "keeps I (allowlist_list_t c h)" "keeps I (allowlist_add_t c h mp)"
  "keeps I (allowlist_update_t c h mp)" "keeps I (allowlist_delete_t c h mp)" "keeps I (user_table_list_t c h)"
  "keeps I (user_table_add_t c h mp)" "keeps I (user_table_update_t c h mp)" "keeps I (user_table_delete_t c h mp)"
  unfolding list_users_t_def kick_user_t_def allowlist_list_t_def allowlist_add_t_def allowlist_update_t_def
    allowlist_delete_t_def user_table_list_t_def user_table_add_t_def user_table_update_t_def user_table_delete_t_def
    Let_def prod.case
  by ((intro keeps_intros keeps_change_t keeps_simple keeps_replies(1) typed_control_bodies;
      simp add: kept_list_users kept_rename kept_names)+)

lemma keeps_handle_control_t: "keeps I (handle_control_t c h mp)"
  unfolding handle_control_t_def Let_def by (intro keeps_intros keeps_simple keeps_control_t)

lemma keeps_login_queries_t:
  assumes "\<And>code m. code \<in> error_codes \<Longrightarrow> keeps I (k (Inl (code, m)))" and "\<And>ok. keeps I (k (Inr ok))"
  shows "keeps I (login_queries_t c un pw adm mode k)"
proof -
  have "keeps I (call (\<lambda>e. register_login e c uid ad un mode)
      (\<lambda>(victims, ok). seqp (notify_each_t x y (filter (\<lambda>v. v \<noteq> c) victims)) (k (Inr ok))))" for uid ad x y
    by (intro keeps_combinators) (auto intro!: kept_register_login keeps_seqp keeps_notify_each_t assms(2))
  then show ?thesis
    unfolding login_queries_t_def Let_def by (intro keeps_intros assms(1)) (simp_all add: error_codes_def)
qed

lemma keeps_handle_login_t: "keeps I (handle_login_t e0 c h body)"
proof -
  have "keeps I (login_ok_t c h lok)" for lok
    unfolding login_ok_t_def Let_def by (intro keeps_intros keeps_replies typed_login_reply)
  then have k: "keeps I (case Inr lok of Inl (code, message) \<Rightarrow> err_reply_t c (seq h) code message | Inr lok \<Rightarrow> login_ok_t c h lok)"
    "code \<in> error_codes \<Longrightarrow> keeps I (case Inl (code, m) of Inl (code, message) \<Rightarrow> err_reply_t c (seq h) code message | Inr lok \<Rightarrow> login_ok_t c h lok)"
    for code m lok by (simp_all add: keeps_replies)
  have "keeps I (try_authenticate_t c mp k)"
    if "\<And>code m. code \<in> error_codes \<Longrightarrow> keeps I (k (Inl (code, m)))" "\<And>ok. keeps I (k (Inr ok))"
    for mp k
    unfolding try_authenticate_t_def Let_def using that
    by (intro keeps_cases keeps_login_queries_t that(1)) (simp_all add: error_codes_def)
  from this [OF k(2,1)] show ?thesis
    by (auto simp: handle_login_t_def keeps_simple split: option.split mobj.split)
qed

lemma keeps_handle_client_frame_t: "keeps I (handle_client_frame_t e0 c h body)"
  unfolding handle_client_frame_t_def Let_def
  by (auto intro!: keeps_intros keeps_simple keeps_handle_login_t keeps_data_t keeps_handle_control_t touches kept_notify split: option.split mobj.split)

lemma keeps_exit_t: "keeps I (exit_t c)"
  unfolding exit_t_def by (intro keeps_intros closes) (erule heap_only, simp add: heap_remove_session Let_def)

lemma keeps_frame_read_t: "keeps I (frame_read_t e0 c h body tm)"
  unfolding frame_read_t_def
  by (intro keeps_intros keeps_handle_client_frame_t keeps_exit_t keeps_simple) (erule heap_only, simp add: Let_def)

lemma keeps_header_read_t: "keeps I (header_read_t e0 cf c inp)"
  by (auto simp: header_read_t_def Let_def intro!: keeps_seqp keeps_exit_t keeps_frame_read_t keeps_simple split: option.split)

lemma keeps_check_each_t: "keeps I (check_each_t now cs)"
  by (induction cs) (auto intro!: keeps_intros keeps_simple kept_notify)

lemma keeps_thread_code: "keeps I (thread_code e0 t)"
proof (cases t)
  case (Reader c)
  then show ?thesis
    by (auto simp: read_loop_t_def Let_def intro!: keeps_intros keeps_exit_t keeps_header_read_t kept_notify)
next
  case HbTimer
  then show ?thesis by (auto simp: check_heartbeats_t_def intro!: keeps_intros keeps_check_each_t)
qed

lemma keeps_threads_step:
  assumes "thread_step e (r, P) ev (r', P')" and "\<And>t p. P t = Some p \<Longrightarrow> keeps I p"
  shows "P' t = Some p \<Longrightarrow> keeps I p"
  using assms(1)
proof (cases rule: thread_step.cases)
  case (thread_begin u now wall)
  moreover assume "P' t = Some p"
  ultimately show ?thesis using assms(2) keeps_thread_code [of e u] by (auto split: if_splits)
next
  case (thread_act u f k e' now wall)
  moreover assume "P' t = Some p"
  moreover have "keeps I (Act f k)" using assms(2) thread_act by blast
  ultimately show ?thesis using assms(2) by (auto split: if_splits)
next
  case (thread_input u k now wall i)
  moreover assume "P' t = Some p"
  moreover have "keeps I (Await k)" using assms(2) thread_input by blast
  then have "keeps I (k i)" by (simp only: keeps.simps)
  ultimately show ?thesis using assms(2) by (auto split: if_splits)
qed (use assms(2) in \<open>auto split: if_splits\<close>)

lemma kept_step:
  assumes "thread_step e (r, P) ev (r', P')" and "\<And>t p. P t = Some p \<Longrightarrow> keeps I p" and "I e r"
    and "\<And>now wall sev. \<lbrakk>ev = (now, wall, TEnv sev); elementary sev; server_step e r (now, wall, sev) r'\<rbrakk> \<Longrightarrow> I e r'"
  shows "I e r'"
  using assms(1)
proof (cases rule: thread_step.cases)
  case (thread_env sev now wall)
  then show ?thesis using assms(4) by blast
next
  case (thread_act u f k e' now wall)
  have "keeps I (Act f k)" using assms(2) thread_act by blast
  then have "I e' r'" using clocks [OF assms(3)] thread_act by simp
  from clocks [OF this, of "e_wall e" "e_now e"] show ?thesis using thread_act by simp
qed (use assms(3) in simp_all)

lemma threads_keep:
  assumes "reachable_threads e cf (r, P)" and "P t = Some p"
  shows "keeps I p"
proof -
  from assms(1) obtain r0 evs where "runs (thread_step e) (r0, Map.empty) evs (r, P)"
    unfolding reachable_threads_def by blast
  moreover have "keeps I p" if "runs (thread_step e) (r0, Map.empty) evs sys" "snd sys t = Some p" for evs sys t p
    using that
  proof (induction "(r0, Map.empty :: tid \<rightharpoonup> 'db thread)" evs sys arbitrary: t p rule: runs.induct)
    case (runs_snoc es sys ev sys')
    then show ?case using keeps_threads_step [of e "fst sys" "snd sys" ev "fst sys'" "snd sys'" t p] by simp
  qed simp
  ultimately show ?thesis using assms(2) by simp
qed

end

subsection \<open>Predicates of sessions\<close>

text \<open>
  A predicate of sessions that holds of a new one and survives the four ways of the handlers, the handlers of the strand and the completion of a write
  holds of every session of every state the threads reach.
\<close>

locale session_invariant =
  fixes J :: "(pk_call list \<Rightarrow> string) \<Rightarrow> tcp_session \<Rightarrow> bool"
  assumes new: "J pk (new_session c ep)"
    and posted: "\<lbrakk>J pk s; typed_task pk t\<rbrakk> \<Longrightarrow> J pk (post t s)"
    and marked: "J pk s \<Longrightarrow> J pk (mark_login now uid adm un s)" "J pk s \<Longrightarrow> J pk (touch_heartbeat now s)"
      "J pk s \<Longrightarrow> J pk (s\<lparr>sock_open := False\<rparr>)"
    and ran_task: "\<lbrakk>J pk s; strand s = t # ts\<rbrakk> \<Longrightarrow> J pk (snd (run_task fl t (m, s\<lparr>strand := ts\<rparr>)))"
    and written: "\<lbrakk>J pk s; in_flight s = Some b\<rbrakk> \<Longrightarrow> J pk (snd (on_write b res (m, s)))"
begin

lemma all_upd:
  "\<lbrakk>\<forall>s \<in> ran (heap r). J pk s; \<And>s. J pk s \<Longrightarrow> J pk (f s)\<rbrakk> \<Longrightarrow> \<forall>s \<in> ran (heap (upd_sess c f r)). J pk s"
  by (auto simp: upd_sess_def ran_def map_option_case split: if_splits option.splits)

end

sublocale session_invariant \<subseteq> posting_invariant "\<lambda>e r. visits_all e \<and> (\<forall>s \<in> ran (heap r). J (e_pack e) s)"
proof
  fix e :: "'a env" and r :: "'a relay" and t c now uid adm un
  assume r: "visits_all e \<and> (\<forall>s \<in> ran (heap r). J (e_pack e) s)"
  show "visits_all e \<and> (\<forall>s \<in> ran (heap (upd_sess c (post t) r)). J (e_pack e) s)" if "typed_task (e_pack e) t"
    using all_upd [of r "e_pack e" "post t" c] r posted that by blast
  show "visits_all e \<and> (\<forall>s \<in> ran (heap (upd_sess c (mark_login now uid adm un) r)). J (e_pack e) s)"
    "visits_all e \<and> (\<forall>s \<in> ran (heap (upd_sess c (touch_heartbeat now) r)). J (e_pack e) s)"
    "visits_all e \<and> (\<forall>s \<in> ran (heap (upd_sess c (\<lambda>s. s\<lparr>sock_open := False\<rparr>) r)). J (e_pack e) s)"
    using all_upd [of r "e_pack e" _ c] r marked by blast+
qed (auto simp: visits_all_def)

context session_invariant
begin

lemma all_env:
  assumes "server_step e r (now, wall, ev) r'" and "elementary ev" and r: "\<forall>s \<in> ran (heap r). J pk s"
  shows "\<forall>s \<in> ran (heap r'). J pk s"
  using assms(1)
proof (cases rule: server_step.cases)
  case (server_accept res)
  then show ?thesis using r new by (auto simp: accept_clients_def ran_def Let_def split: sum.split if_splits)
next
  case (server_run c s t ts)
  then show ?thesis using r ran_task [of pk s] by (auto simp: put_sess_def ran_def split: if_splits)
next
  case (server_write c s b res)
  then show ?thesis using r written [of pk s] by (auto simp: put_sess_def ran_def split: if_splits)
next
  case server_metrics
  then show ?thesis using r by (simp add: snapshot_stats_def Let_def)
qed (use assms(2) in simp_all)

lemma holds_step:
  assumes "thread_step e (r, P) ev (r', P')" and "reachable_threads e cf (r, P)"
    and "visits_all e" and "\<forall>s \<in> ran (heap r). J (e_pack e) s"
  shows "\<forall>s \<in> ran (heap r'). J (e_pack e) s"
proof -
  have "visits_all e \<and> (\<forall>s \<in> ran (heap r'). J (e_pack e) s)"
    using assms(1)
  proof (rule kept_step)
    show "keeps (\<lambda>e r. visits_all e \<and> (\<forall>s \<in> ran (heap r). J (e_pack e) s)) p" if "P t = Some p" for t p
      using threads_keep [OF assms(2) that] .
    show "visits_all e \<and> (\<forall>s \<in> ran (heap r'). J (e_pack e) s)" if "server_step e r (now, wall, sev) r'" "elementary sev"
      for now wall sev using all_env [OF that assms(4)] assms(3) by blast
  qed (use assms(3,4) in blast)
  then show ?thesis by blast
qed

lemma holds_reachable:
  assumes "reachable_threads e cf (r, P)" and "visits_all e" and "heap r c = Some s"
  shows "J (e_pack e) s"
proof -
  from assms(1) obtain ol wall r0 evs where
    st: "start e ol (new_relay cf wall) = (r0, Inr ())" "runs (thread_step e) (r0, Map.empty) evs (r, P)"
    unfolding reachable_threads_def by blast
  then have r0: "heap r0 = Map.empty" using start_ok [OF st(1)] by (auto simp: new_relay_def)
  have "\<forall>s \<in> ran (heap (fst sys)). J (e_pack e) s" if "runs (thread_step e) (r0, Map.empty) evs sys" for evs and sys :: "'a system"
    using that
  proof (induction "(r0, Map.empty :: tid \<rightharpoonup> 'a thread)" evs sys rule: runs.induct)
    case runs_nil
    then show ?case using r0 by simp
  next
    case (runs_snoc es sys ev sys')
    have "reachable_threads e cf (fst sys, snd sys)"
      unfolding reachable_threads_def using st(1) runs_snoc(1) by auto
    from holds_step [OF _ this assms(2)] runs_snoc show ?case by (metis prod.collapse)
  qed
  from this [OF st(2)] assms(3) show ?thesis by (auto simp: ran_def)
qed

end

end
