(* ===== verification/Frame_Types.thy ===== *)
theory Frame_Types
  imports Handler_Effects
begin

text \<open>
  The type of the frames the server sends.  Whatever requests arrive and however the threads are interleaved, every frame that is posted, queued, being written or written is a header with the right
  length followed by one msgpack map, of one of three types with the entries \<^verbatim>\<open>docs/protocol.md\<close> and the client library expect: the counts given to
  \<^verbatim>\<open>pack_map\<close> and \<^verbatim>\<open>pack_array\<close>, which msgpack-c does not check, agree with what is packed after them.
\<close>

subsection \<open>Sessions\<close>

definition typed_session :: "(pk_call list \<Rightarrow> string) \<Rightarrow> tcp_session \<Rightarrow> bool" where
  "typed_session pk s \<longleftrightarrow>
     (\<forall>t \<in> set (strand s). typed_task pk t) \<and>
     (\<forall>f \<in> set (queue s) \<union> set_option (in_flight s) \<union> set (sent s). typed_frame pk f)"

lemma typed_post: "\<lbrakk>typed_session pk s; typed_task pk t\<rbrakk> \<Longrightarrow> typed_session pk (post t s)"
  by (auto simp: typed_session_def post_def)

lemma typed_new: "typed_session pk (new_session c ep)"
  by (simp add: typed_session_def new_session_def)

lemma typed_run_task:
  assumes "typed_session pk s" and "strand s = t # ts"
  shows "typed_session pk (snd (run_task fl t (m, s\<lparr>strand := ts\<rparr>)))"
  using assms
  by (cases t; cases "queue s") (auto simp: typed_session_def run_kick_def run_stop_def run_send_def do_write_eq stop_def post_def Let_def)

lemma typed_on_write:
  assumes "typed_session pk s" and "in_flight s = Some b"
  shows "typed_session pk (snd (on_write b res (m, s)))"
  using assms
  by (cases res; cases "queue s") (auto simp: typed_session_def do_write_eq stop_def post_def Let_def dest: hd_in_set)

lemma typed_marks [simp]:
  "typed_session pk (mark_login n uid adm un s) = typed_session pk s" "typed_session pk (touch_heartbeat n s) = typed_session pk s"
  "typed_session pk (s\<lparr>sock_open := b\<rparr>) = typed_session pk s"
  by (simp_all add: typed_session_def mark_login_def touch_heartbeat_def)

interpretation typed: session_invariant typed_session
  by unfold_locales (simp_all add: typed_new typed_post typed_run_task typed_on_write)

subsection \<open>Property\<close>

text \<open>
  C10. Every frame the server sends is well typed.  However the server's threads are interleaved, every frame that is posted to a
  session, queued, being written or written is a header and one msgpack map with different keys: a DELIVER with payload, connection
  numbers and user names, a KICK with its reason, or a SERVER_REPLY that either confirms one of the four operations or carries
  one of the documented error codes and a message.
\<close>

theorem server_frames_well_typed:
  assumes "reachable_threads e cfg0 (r, P)" and "visits_all e" and "heap r c = Some s"
  shows "(\<forall>f w. PostSend f \<in> set (strand s) \<or> PostKick f w \<in> set (strand s) \<longrightarrow> typed_frame (e_pack e) f) \<and>
    (\<forall>f \<in> set (queue s) \<union> set_option (in_flight s) \<union> set (sent s). typed_frame (e_pack e) f)"
  using typed.holds_reachable [OF assms] by (force simp: typed_session_def)

theorem server_frames_well_typed_witness:
  "\<exists>s. heap second_run 1 = Some s \<and> list_all (typed_task mp_pack) (strand s)"
proof -
  obtain s where "heap second_run 1 = Some s" using second_run_facts by blast
  moreover have "visits_all demo_env" by (simp add: visits_all_def demo_env_def)
  note f = server_frames_well_typed [OF reachable_scheduled [OF second_run_reachable] this \<open>heap second_run 1 = Some s\<close>, unfolded demo_env_def, simplified]
  have "typed_task mp_pack x" if "x \<in> set (strand s)" for x
  proof (cases x)
  qed (use that f in auto)
  ultimately show ?thesis by (auto simp: list_all_iff)
qed

end
