(* ===== verification/Session_Drain.thy ===== *)
theory Session_Drain
  imports Tcp_Session
begin

text \<open>
  Progress of a session's send queue: every frame posted to a session that only sends is transmitted.  \<^verbatim>\<open>do_write\<close> keeps one write
  outstanding and its completion handler starts the next, so the handlers and completions still to come can be counted.
\<close>

subsection \<open>Draining\<close>

text \<open>
  A session that is only sending: it is neither stopped nor being kicked, the posted handlers all send, and what is queued and
  posted stays below the high water mark.  \<open>tx\<close> is what it has transmitted and will transmit.
\<close>

definition draining :: "FlowControl \<Rightarrow> string list \<Rightarrow> tcp_session \<Rightarrow> bool" where
  "draining fl tx s \<longleftrightarrow> high_water_bytes fl \<le> hard_limit_bytes fl \<and> session_inv fl s \<and> session_live s \<and> \<not> stopped s \<and> \<not> kick_pending s \<and>
     (\<exists>fs. strand s = map PostSend fs \<and> tx = sent s @ queue s @ fs \<and>
       queued_bytes s + sum_list (map length fs) \<le> unat (high_water_bytes fl))"

text \<open>The handlers and completions that are still to come.\<close>

definition todo :: "tcp_session \<Rightarrow> nat" where
  "todo s = 2 * length (strand s) + length (queue s)"

definition progress_event :: "sess_event \<Rightarrow> bool" where
  "progress_event ev \<longleftrightarrow> (case ev of EvRun _ \<Rightarrow> True | EvWrite (WriteOk _) \<Rightarrow> True | _ \<Rightarrow> False)"

lemma draining_step:
  assumes "draining fl tx (snd ms)" and "sess_step fl ms ev ms'" and "progress_event ev"
  shows "draining fl tx (snd ms') \<and> todo (snd ms) = Suc (todo (snd ms'))"
proof -
  have inv: "session_inv fl (snd ms')" "session_live (snd ms')"
    using assms(1) session_inv_step [OF _ assms(2)] session_live_step [OF _ assms(2)] by (auto simp: draining_def)
  from assms(2) show ?thesis
  proof (cases rule: sess_step.cases)
    case (step_post m s t)
    with assms(3) show ?thesis by (simp add: progress_event_def)
  next
    case (step_run s t ts m)
    from assms(1) step_run obtain b fs where fs: "t = PostSend b" "ts = map PostSend fs" "tx = sent s @ queue s @ b # fs"
      "queued_bytes s + length b + sum_list (map length fs) \<le> unat (high_water_bytes fl)"
      and s: "\<not> stopped s" "\<not> kick_pending s" "pending_bytes s = queued_bytes s"
      "unat (high_water_bytes fl) \<le> unat (hard_limit_bytes fl)" "high_water_bytes fl \<le> hard_limit_bytes fl"
      by (auto simp: draining_def session_inv_def Cons_eq_map_conv word_le_nat_alt)
    then have "snd ms' = (let s' = s\<lparr>strand := ts, queue := queue s @ [b], pending_bytes := queued_bytes s + length b\<rparr>
        in if \<not> writing s then do_write s' else s')"
      using step_run by (simp add: run_send_def Let_def)
    with inv fs s step_run show ?thesis
      by (auto simp: draining_def todo_def do_write_eq queued_bytes_def Let_def)
  next
    case (step_write s b m r)
    obtain n where "r = WriteOk n" using step_write assms(3) by (auto simp: progress_event_def split: write_result.splits)
    from assms(1) step_write obtain q where q: "queue s = b # q" by (cases "queue s") (auto simp: draining_def session_inv_def)
    with inv assms(1) step_write \<open>r = WriteOk n\<close> show ?thesis
      by (auto simp: draining_def todo_def do_write_eq queued_bytes_def Let_def)
  qed
qed

lemma draining_runs:
  assumes "runs (sess_step fl) ms es ms'" and "draining fl tx (snd ms)" and "list_all progress_event es"
  shows "draining fl tx (snd ms') \<and> todo (snd ms) = length es + todo (snd ms')"
  using assms
proof (induction rule: runs.induct)
  case (runs_nil s)
  then show ?case by simp
next
  case (runs_snoc s es t e u)
  then show ?case using draining_step [of fl tx t e u] by auto
qed

text \<open>As long as anything is left to do, a handler is posted or a write is outstanding.\<close>

lemma draining_enabled: "\<lbrakk>draining fl tx s; todo s \<noteq> 0\<rbrakk> \<Longrightarrow> strand s \<noteq> [] \<or> in_flight s \<noteq> None"
  by (auto simp: draining_def todo_def session_inv_def session_live_def)

subsection \<open>Everything is sent\<close>

text \<open>
  A session that is only sending sends everything.  From every reachable state that is neither stopped nor being
  kicked, with sends posted that fit below the high water mark together with the queue: in whatever order
  handlers and successful writes follow, there are exactly as many as \<open>todo\<close> counts; as long as some are left one of them is
  ready; and after the last one the peer has been sent the whole queue and every posted frame, in order.
\<close>

lemma posted_frames_transmitted:
  assumes "high_water_bytes fl \<le> hard_limit_bytes fl"
    and "runs (sess_step fl) (m0, new_session c ep) es0 (m, s)" and "\<not> stopped s" and "\<not> kick_pending s"
    and "strand s = map PostSend fs" and "queued_bytes s + sum_list (map length fs) \<le> unat (high_water_bytes fl)"
    and "runs (sess_step fl) (m, s) es (m', t)" and "list_all progress_event es"
  shows "length es \<le> todo s \<and>
    (length es < todo s \<longrightarrow> strand t \<noteq> [] \<or> in_flight t \<noteq> None) \<and>
    (length es = todo s \<longrightarrow> sent t = sent s @ queue s @ fs \<and> queue t = [] \<and> \<not> writing t)"
proof -
  have "draining fl (sent s @ queue s @ fs) s"
    using assms(1,3-6) sess.inv_runs [OF assms(2)] live.inv_runs [OF assms(2)]
    by (auto simp: draining_def session_inv_new session_live_new)
  from draining_runs [OF assms(7) _ assms(8)] this
  have d: "draining fl (sent s @ queue s @ fs) t" "todo s = length es + todo t" by auto
  moreover have "sent t = sent s @ queue s @ fs \<and> queue t = [] \<and> \<not> writing t" if "todo t = 0"
    using that d(1) by (auto simp: draining_def todo_def session_inv_def)
  ultimately show ?thesis using draining_enabled [OF d(1)] by auto
qed

end
