(* ===== verification/Wire_Delivery.thy ===== *)
theory Wire_Delivery
  imports Handler_Effects Session_Drain End_To_End
begin

text \<open>
  From the client's bytes to the recipient's socket.  Between the handler that posts a frame and the write that transmits it, every thread of the
  server may act and the session's own handlers and write completions run; \<open>session_event\<close> says what any of these can do to the session, and
  \<open>on_its_way\<close> is what survives them.
\<close>

subsection \<open>What happens to one session\<close>

text \<open>What a handler of the server may do to a session: nothing on the way to the peer changes, and the strand grows at its end.\<close>

definition grows :: "tcp_session \<Rightarrow> tcp_session \<Rightarrow> bool" where
  "grows s s' \<longleftrightarrow> sent s' = sent s \<and> queue s' = queue s \<and> in_flight s' = in_flight s \<and> stopped s' = stopped s \<and>
     kick_pending s' = kick_pending s \<and> (\<exists>ts. strand s' = strand s @ ts)"

definition grown :: "u64 \<Rightarrow> tcp_session \<Rightarrow> 'db env \<Rightarrow> 'db relay \<Rightarrow> bool" where
  "grown d s e r \<longleftrightarrow> visits_all e \<and> (\<exists>s'. heap r d = Some s' \<and> grows s s')"

lemma grows_refl [simp]: "grows s s"
  by (simp add: grows_def)

lemma grown_upd: "\<lbrakk>grown d s e r; \<And>s'. grows s s' \<Longrightarrow> grows s (f s')\<rbrakk> \<Longrightarrow> grown d s e (upd_sess c f r)"
  by (auto simp: grown_def upd_sess_def split: option.split)

interpretation grown: posting_invariant "grown d s" for d s
proof
  fix e :: "'a env" and r :: "'a relay" and t c now uid adm un
  assume r: "grown d s e r"
  show "grown d s e (upd_sess c (post t) r)"
    by (rule grown_upd [OF r]) (auto simp: grows_def post_def)
  show "grown d s e (upd_sess c (mark_login now uid adm un) r)" "grown d s e (upd_sess c (touch_heartbeat now) r)"
    "grown d s e (upd_sess c (\<lambda>s. s\<lparr>sock_open := False\<rparr>) r)"
    by (rule grown_upd [OF r]; simp add: grows_def mark_login_def touch_heartbeat_def)+
qed (auto simp: grown_def visits_all_def)

interpretation live_threads: session_invariant "\<lambda>_. session_live"
proof
  fix s t ts fl m b res
  show "session_live (snd (run_task fl t (m, s\<lparr>strand := ts\<rparr>)))" if "session_live s" "strand s = t # ts"
    using session_live_step [of "(m, s)" fl "EvRun t"] that by simp
  show "session_live (snd (on_write b res (m, s)))" if "session_live s" "in_flight s = Some b"
    using session_live_step [of "(m, s)" fl "EvWrite res"] that by simp
qed (simp_all add: session_live_new, auto simp: session_live_def post_def mark_login_def touch_heartbeat_def)

text \<open>A write of the session's own that succeeds; every other event lets the session grow or is one of its handlers.\<close>

definition wrote :: "u64 \<Rightarrow> int \<times> u64 \<times> thread_event \<Rightarrow> bool" where
  "wrote d ev = (case snd (snd ev) of TEnv (SWrite c (WriteOk _)) \<Rightarrow> c = d | _ \<Rightarrow> False)"

definition other_step :: "FlowControl \<Rightarrow> tcp_session \<Rightarrow> tcp_session \<Rightarrow> bool" where
  "other_step fl s s' \<longleftrightarrow> grows s s' \<or>
     (\<exists>m ms' ev. sess_step fl (m, s) ev ms' \<and> s' = snd ms' \<and> (case ev of EvRun _ \<Rightarrow> True | EvWrite (WriteErr _) \<Rightarrow> True | _ \<Rightarrow> False))"

lemma other_stepI:
  "\<lbrakk>sess_step fl (m, s) ev ms'; case ev of EvRun _ \<Rightarrow> True | EvWrite (WriteErr _) \<Rightarrow> True | _ \<Rightarrow> False\<rbrakk> \<Longrightarrow> other_step fl s (snd ms')"
  unfolding other_step_def by blast

lemma other_refl [simp]: "other_step fl s s"
  by (simp add: other_step_def)

lemma env_event:
  assumes "server_step e r (now, wall, ev) r'" and "elementary ev" and "relay_inv cf r" and "heap r d = Some s"
  shows "\<exists>s'. heap r' d = Some s' \<and>
    (if wrote d (now, wall, TEnv ev) then \<exists>n m ms'. sess_step (flow cf) (m, s) (EvWrite (WriteOk n)) ms' \<and> s' = snd ms'
     else other_step (flow cf) s s')"
  using assms(1)
proof (cases rule: server_step.cases)
  case (server_accept res)
  have "next_conn_id r + 1 \<noteq> 0" using server_accept(3) by (simp add: add_eq_0_iff2)
  with unatSuc [of "next_conn_id r"] have "next_conn_id r < next_conn_id r + 1" by (simp add: word_less_nat_alt add.commute)
  with relay_invD(2) [OF assms(3,4)] have "d \<noteq> next_conn_id r + 1" by auto
  with server_accept assms(4) show ?thesis
    by (auto simp: accept_clients_def wrote_def Let_def split: sum.split)
next
  case (server_run c s0 t ts)
  with relay_invD(1) [OF assms(3)] assms(4) other_stepI [OF sess_step.step_run [of s t ts], of "flow cf" "r_metrics r"] show ?thesis
    by (cases "c = d") (simp_all add: put_sess_def wrote_def)
next
  case (server_write c s0 b res)
  show ?thesis
  proof (cases "c = d")
    case True
    with server_write assms(4) sess_step.step_write [of s b "flow cf" "r_metrics r" res]
      other_stepI [OF sess_step.step_write [of s b "flow cf" "r_metrics r" res]]
    show ?thesis by (cases res) (auto simp: put_sess_def wrote_def simp del: on_write.simps)
  qed (use server_write assms(4) in \<open>simp add: put_sess_def wrote_def split: write_result.split\<close>)
next
  case server_metrics
  then show ?thesis using assms(4) by (simp add: snapshot_stats_def wrote_def Let_def)
qed (use assms(2) in simp_all)

lemma session_event:
  assumes "thread_step e (r, P) ev (r', P')" and "reachable_threads e cf (r, P)" and "1 \<le> max_connections_per_user (session cf)"
    and "visits_all e" and "heap r d = Some s"
  shows "\<exists>s'. heap r' d = Some s' \<and>
    (if wrote d ev then \<exists>n m ms'. sess_step (flow cf) (m, s) (EvWrite (WriteOk n)) ms' \<and> s' = snd ms' else other_step (flow cf) s s')"
proof (cases "\<exists>now wall sev. ev = (now, wall, TEnv sev)")
  case True
  with assms(1) obtain now wall sev where "ev = (now, wall, TEnv sev)" "elementary sev" "server_step e r (now, wall, sev) r'"
    by (auto elim!: thread_stepE)
  with env_event [OF _ _ threads_relay_inv [OF assms(2,3)] assms(5)] show ?thesis by simp
next
  case False
  have "grown d s e r'"
    using assms(1) grown.threads_keep [OF assms(2)]
    by (rule grown.kept_step) (use False assms(4,5) in \<open>auto simp: grown_def\<close>)
  moreover have "\<not> wrote d ev" using False by (cases ev) (auto simp: wrote_def split: thread_event.splits)
  ultimately show ?thesis by (auto simp: grown_def other_step_def)
qed

subsection \<open>On the way to the peer\<close>

text \<open>
  The frames \<open>tx\<close> have been written, are queued, or are the next to be queued and will find room; or the session is being closed.
\<close>

definition on_its_way :: "FlowControl \<Rightarrow> string list \<Rightarrow> tcp_session \<Rightarrow> bool" where
  "on_its_way fl tx s \<longleftrightarrow> stopped s \<or> kick_pending s \<or>
     (\<exists>fs ts. strand s = map PostSend fs @ ts \<and> prefix tx (sent s @ queue s @ fs) \<and>
       (fs \<noteq> [] \<longrightarrow> queued_bytes s + sum_list (map length fs) \<le> unat (high_water_bytes fl)))"

lemma on_its_wayI:
  "\<lbrakk>strand s = map PostSend fs @ ts; prefix tx (sent s @ queue s @ fs);
    fs \<noteq> [] \<Longrightarrow> queued_bytes s + sum_list (map length fs) \<le> unat (high_water_bytes fl)\<rbrakk> \<Longrightarrow> on_its_way fl tx s"
  by (auto simp: on_its_way_def)

lemma way_grows: "\<lbrakk>on_its_way fl tx s; grows s s'\<rbrakk> \<Longrightarrow> on_its_way fl tx s'"
  unfolding on_its_way_def grows_def queued_bytes_def by fastforce

lemma way_run:
  assumes "on_its_way fl tx s" and "session_inv fl s" and "high_water_bytes fl \<le> hard_limit_bytes fl" and "strand s = t # ts"
  shows "on_its_way fl tx (snd (run_task fl t (m, s\<lparr>strand := ts\<rparr>)))"
proof (cases "stopped s \<or> kick_pending s")
  case True
  then show ?thesis by (cases t) (auto simp: on_its_way_def run_kick_def run_stop_def run_send_def Let_def)
next
  case False
  then obtain fs us where w: "strand s = map PostSend fs @ us" "prefix tx (sent s @ queue s @ fs)"
    "fs \<noteq> [] \<longrightarrow> queued_bytes s + sum_list (map length fs) \<le> unat (high_water_bytes fl)"
    using assms(1) by (auto simp: on_its_way_def)
  show ?thesis
  proof (cases fs)
    case Nil
    let ?s = "snd (run_task fl t (m, s\<lparr>strand := ts\<rparr>))"
    have "stopped ?s \<or> kick_pending ?s \<or> sent ?s = sent s \<and> prefix (queue s) (queue ?s)"
      using False by (cases t) (auto simp: run_kick_def run_stop_def run_send_def do_write_eq stop_def post_def Let_def)
    with Nil w(2) have "stopped ?s \<or> kick_pending ?s \<or> prefix tx (sent ?s @ queue ?s)" by (auto intro: prefix_order.trans)
    then show ?thesis using on_its_wayI [of ?s "[]" "strand ?s" tx fl] by (cases "stopped ?s \<or> kick_pending ?s") (auto simp: on_its_way_def)
  next
    case (Cons b gs)
    then have "t = PostSend b" "ts = map PostSend gs @ us" using w(1) assms(4) by simp_all
    moreover have "unat (high_water_bytes fl) \<le> unat (hard_limit_bytes fl)" using assms(3) by (simp add: word_le_nat_alt)
    moreover have "pending_bytes s = queued_bytes s" using assms(2) False by (simp add: session_inv_def)
    ultimately show ?thesis using False w(2,3) Cons
      by (intro on_its_wayI [of _ gs us]) (auto simp: run_send_def do_write_eq queued_bytes_def Let_def)
  qed
qed

lemma way_write:
  assumes "on_its_way fl tx s" and "session_inv fl s" and "in_flight s = Some b"
  shows "on_its_way fl tx (snd (on_write b res (m, s)))"
proof (cases "stopped s \<or> kick_pending s")
  case True
  then show ?thesis
    by (cases res) (auto simp: on_its_way_def stop_def post_def do_write_eq Let_def)
next
  case False
  then obtain fs us where w: "strand s = map PostSend fs @ us" "prefix tx (sent s @ queue s @ fs)"
    "fs \<noteq> [] \<longrightarrow> queued_bytes s + sum_list (map length fs) \<le> unat (high_water_bytes fl)"
    using assms(1) by (auto simp: on_its_way_def)
  obtain q where q: "queue s = b # q" using assms(2,3) False by (cases "queue s") (auto simp: session_inv_def)
  show ?thesis
  proof (cases res)
    case (WriteErr x)
    with w show ?thesis by (intro on_its_wayI [of _ fs "us @ [PostStop (''write error: '' @ x)]"]) (auto simp: stop_def post_def queued_bytes_def)
  next
    case (WriteOk n)
    with w q False show ?thesis
      by (intro on_its_wayI [of _ fs us]) (auto simp: do_write_eq queued_bytes_def Let_def)
  qed
qed

lemma way_other:
  assumes "other_step fl s s'" and "on_its_way fl tx s" and "session_inv fl s" and "high_water_bytes fl \<le> hard_limit_bytes fl"
  shows "on_its_way fl tx s' \<and> sent s' = sent s"
proof (cases "grows s s'")
  case True
  then show ?thesis using way_grows [OF assms(2)] by (simp add: grows_def)
next
  case False
  then obtain m ms' ev where ev: "sess_step fl (m, s) ev ms'" "s' = snd ms'"
    "case ev of EvRun _ \<Rightarrow> True | EvWrite (WriteErr _) \<Rightarrow> True | _ \<Rightarrow> False"
    using assms(1) unfolding other_step_def by blast
  from ev(1) show ?thesis
  proof (cases rule: sess_step.cases)
    case (step_run t ts)
    have "sent (snd (run_task fl t (m, s\<lparr>strand := ts\<rparr>))) = sent s"
      by (cases t) (auto simp: run_kick_def run_stop_def run_send_def do_write_eq stop_def post_def Let_def)
    with step_run ev(2) way_run [OF assms(2-4)] show ?thesis by simp
  next
    case (step_write b res)
    obtain x where "res = WriteErr x" using step_write ev(3) by (auto split: write_result.splits)
    with step_write ev(2) way_write [OF assms(2,3) step_write(3), of res] show ?thesis by (simp add: stop_def post_def)
  qed (use ev(3) in simp)
qed

lemma way_wrote:
  assumes "sess_step fl (m, s) (EvWrite (WriteOk n)) ms'" and "on_its_way fl tx s" and "session_inv fl s"
  shows "on_its_way fl tx (snd ms') \<and> length (sent (snd ms')) = Suc (length (sent s))"
proof -
  obtain b where b: "in_flight s = Some b" "ms' = on_write b (WriteOk n) (m, s)" using assms(1) by (auto simp del: on_write.simps)
  have "sent (snd (on_write b (WriteOk n) (m, s))) = sent s @ [b]" by (simp add: do_write_eq Let_def)
  with b way_write [OF assms(2,3) b(1)] show ?thesis by (simp del: on_write.simps)
qed

definition writes :: "u64 \<Rightarrow> (int \<times> u64 \<times> thread_event) list \<Rightarrow> nat" where
  "writes d evs = length (filter (wrote d) evs)"

lemma reachable_threads_runs:
  "\<lbrakk>reachable_threads e cf sys; runs (thread_step e) sys evs sys'\<rbrakk> \<Longrightarrow> reachable_threads e cf sys'"
  unfolding reachable_threads_def by (meson runs_append)

lemma way_step:
  assumes "thread_step e (r, P) ev (r', P')" and "reachable_threads e cf (r, P)" and "1 \<le> max_connections_per_user (session cf)"
    and "visits_all e" and "high_water_bytes (flow cf) \<le> hard_limit_bytes (flow cf)"
    and "heap r d = Some s" and "on_its_way (flow cf) tx s"
  shows "\<exists>s'. heap r' d = Some s' \<and> on_its_way (flow cf) tx s' \<and> length (sent s') = length (sent s) + writes d [ev]"
proof -
  have inv: "session_inv (flow cf) s" using relay_invD(2) [OF threads_relay_inv [OF assms(2,3)] assms(6)] by simp
  from session_event [OF assms(1-4,6)] obtain s' where s': "heap r' d = Some s'"
    "if wrote d ev then \<exists>n m ms'. sess_step (flow cf) (m, s) (EvWrite (WriteOk n)) ms' \<and> s' = snd ms' else other_step (flow cf) s s'"
    by blast
  have "on_its_way (flow cf) tx s' \<and> length (sent s') = length (sent s) + writes d [ev]"
  proof (cases "wrote d ev")
    case True
    with s'(2) obtain n m ms' where w: "sess_step (flow cf) (m, s) (EvWrite (WriteOk n)) ms'" "s' = snd ms'"
      by (simp only: if_True) blast
    from way_wrote [OF w(1) assms(7) inv] w(2) True show ?thesis by (simp add: writes_def)
  next
    case False
    with s'(2) have "other_step (flow cf) s s'" by simp
    from way_other [OF this assms(7) inv assms(5)] False show ?thesis by (simp add: writes_def)
  qed
  with s'(1) show ?thesis by blast
qed

lemma way_runs:
  assumes "runs (thread_step e) sys evs sys'" and "reachable_threads e cf sys" and "1 \<le> max_connections_per_user (session cf)"
    and "visits_all e" and "high_water_bytes (flow cf) \<le> hard_limit_bytes (flow cf)"
    and "heap (fst sys) d = Some s" and "on_its_way (flow cf) tx s"
  shows "\<exists>t. heap (fst sys') d = Some t \<and> on_its_way (flow cf) tx t \<and> length (sent t) = length (sent s) + writes d evs"
  using assms(1,2,6,7)
proof (induction rule: runs.induct)
  case (runs_nil sys)
  then show ?case by (simp add: writes_def)
next
  case (runs_snoc sys evs sys1 ev sys2)
  then obtain t where t: "heap (fst sys1) d = Some t" "on_its_way (flow cf) tx t" "length (sent t) = length (sent s) + writes d evs"
    by blast
  have "reachable_threads e cf sys1" using reachable_threads_runs runs_snoc by blast
  with way_step [of e "fst sys1" "snd sys1" ev "fst sys2" "snd sys2", OF _ _ assms(3-5) t(1,2)] runs_snoc(2) t(3)
  show ?case by (auto simp: writes_def)
qed

lemma written_or_enabled:
  assumes "session_inv fl t" and "session_live t" and "\<not> stopped t" and "\<not> kick_pending t" and "on_its_way fl tx t"
  shows "if length tx \<le> length (sent t) then prefix tx (sent t) else strand t \<noteq> [] \<or> in_flight t \<noteq> None"
proof -
  obtain fs ts where w: "strand t = map PostSend fs @ ts" "prefix tx (sent t @ queue t @ fs)"
    using assms(3-5) by (auto simp: on_its_way_def)
  show ?thesis
  proof (cases "length tx \<le> length (sent t)")
    case True
    with prefix_length_prefix [OF w(2) prefixI [OF refl]] show ?thesis by simp
  next
    case False
    then have "queue t \<noteq> [] \<or> fs \<noteq> []" using prefix_length_le [OF w(2)] by auto
    with assms(1-3) w(1) False show ?thesis by (auto simp: session_inv_def session_live_def)
  qed
qed

lemma reader_reachable:
  assumes "reachable_threads e cf (r, P)" and "P (Reader c) = None" and "c \<in> dom (readers r)"
  shows "reachable_threads e cf (read_loop (e\<lparr>e_now := now, e_wall := wall\<rparr>) c inp r, P)"
  using runs_reader [where P = P, OF assms(2,3)] reachable_threads_runs [OF assms(1)] by blast

subsection \<open>Property\<close>

text \<open>
  C2. A message goes all the way to the recipient's socket.  When a reader thread handles the DATA frame of a logged-in client, and the
  session of a recipient is not being closed and has room for the frame behind what is posted and queued already: whatever all threads,
  sessions and timers of the server do from then on, as long as this session is not stopped or kicked, after as
  many successful writes as there were frames before it and one more the frame has been written, behind exactly
  these frames, and the recipient's library finds the payload in it; until then a handler or a write of the session is outstanding.
\<close>

theorem message_on_the_wire:
  assumes "reachable_threads e cfg0 (r, P)" and "1 \<le> max_connections_per_user (session cfg0)" and "max_connections_per_user (session cfg0) < 2 ^ 64"
    and "high_water_bytes (flow cfg0) \<le> hard_limit_bytes (flow cfg0)"
    and "e_pack e = mp_pack" and "e_unpack e = mp_unpack" and "visits_all e"
    and "P (Reader c) = None" and "c \<in> dom (readers r)" and "heap r c = Some sc" and "logged_in sc"
    and "reader_ready (e\<lparr>e_now := now, e_wall := wall\<rparr>) r c" and "name_to_uid r dst = Some uid" and "dst \<noteq> []"
    and "length payload + length (username sc) + length dst < 2 ^ 31"
    and "length (mp_pack (data_calls dst payload)) \<le> unat (max_body_len (limits cfg0))"
    and "d \<in> set (recipients r uid)" and "heap r d = Some s" and "\<not> stopped s" and "\<not> kick_pending s" and "strand s = map PostSend fs"
    and "fr = pack_wire kMsgDeliver q (mp_pack (pack_deliver_envelope payload c d (username sc) dst))"
    and "queued_bytes s + sum_list (map length fs) + length fr \<le> unat (high_water_bytes (flow cfg0))"
    and "runs (thread_step e) (read_loop (e\<lparr>e_now := now, e_wall := wall\<rparr>) c (stream_input (bytes_of_chars (data_frame q dst payload)) tm) r, P) evs (r', P')"
    and "heap r' d = Some t" and "\<not> stopped t" and "\<not> kick_pending t"
  shows "arrives fr (DeliverEv (delivered q payload c d (username sc) dst)) \<and>
    (if length (queue s @ fs) < writes d evs then prefix (sent s @ queue s @ fs @ [fr]) (sent t)
     else strand t \<noteq> [] \<or> in_flight t \<noteq> None)"
proof -
  let ?e = "e\<lparr>e_now := now, e_wall := wall\<rparr>"
  let ?r = "read_loop ?e c (stream_input (bytes_of_chars (data_frame q dst payload)) tm) r"
  let ?tx = "sent s @ queue s @ fs @ [fr]"
  have reach: "reachable_threads e cfg0 (?r, P)"
    by (rule reader_reachable [OF assms(1,8,9)])
  have fr: "fr = relayed q payload c (username sc) dst d" using assms(22) by (simp add: relayed_def)
  have len: "length payload < 2 ^ 32" "length dst < 2 ^ 32" using assms(15) by simp_all
  define ts where "ts = (if d = c then [PostSend (data_ack q)] else [])"
  have "\<exists>s1. heap ?r d = Some s1 \<and> strand s1 = map PostSend (fs @ [fr]) @ ts \<and> sent s1 = sent s \<and> queue s1 = queue s"
    using server_relays_heap [OF threads_relay_inv [OF assms(1,2)] assms(2,3) _ _ assms(10-14) len assms(16), of q tm] assms(5,6,10,17,18,21) fr
    by (cases "d = c") (simp_all add: post_all_def touch_heartbeat_def ts_def)
  then obtain s1 where s1: "heap ?r d = Some s1" "strand s1 = map PostSend (fs @ [fr]) @ ts" "sent s1 = sent s" "queue s1 = queue s"
    by blast
  then have "on_its_way (flow cfg0) ?tx s1"
    using assms(23) by (intro on_its_wayI [of s1 "fs @ [fr]" ts]) (simp_all add: queued_bytes_def)
  then have t: "on_its_way (flow cfg0) ?tx t" "length (sent t) = length (sent s) + writes d evs"
    using way_runs [OF assms(24) reach assms(2,7,4), of d s1 ?tx] s1(1,3) assms(25) by auto
  have r': "reachable_threads e cfg0 (r', P')" by (rule reachable_threads_runs [OF reach assms(24)])
  have "session_inv (flow cfg0) t" using relay_invD(2) [OF threads_relay_inv [OF r' assms(2)] assms(25)] by simp
  from written_or_enabled [OF this live_threads.holds_reachable [OF r' assms(7,25)] assms(26,27) t(1)] t(2)
  have "if length (queue s @ fs) < writes d evs then prefix ?tx (sent t) else strand t \<noteq> [] \<or> in_flight t \<noteq> None"
    by (auto split: if_splits)
  moreover have "arrives fr (DeliverEv (delivered q payload c d (username sc) dst))"
    unfolding fr relayed_def by (rule deliver_frame_arrives) (use assms(15) in simp)
  ultimately show ?thesis by blast
qed

text \<open>The handlers and writes of one session are a schedule of the server.\<close>

lemma session_step_scheduled:
  assumes "sess_step (flow (r_cfg r)) (r_metrics r, s) ev ms'" and "heap r d = Some s" and "progress_event ev"
  shows "\<exists>tev. thread_step e (r, P) tev (put_sess d ms' r, P) \<and> writes d [tev] = (case ev of EvWrite _ \<Rightarrow> 1 | _ \<Rightarrow> 0)"
  using assms(1)
proof (cases rule: sess_step.cases)
  case (step_run t ts)
  have "thread_step e (r, P) (0, 0, TEnv (SRun d)) (put_sess d ms' r, P)"
    using server_run [OF assms(2) step_run(3), of e 0 0] step_run(2) by (intro thread_env) simp_all
  moreover have "writes d [(0, 0, TEnv (SRun d))] = (case ev of EvWrite _ \<Rightarrow> 1 | _ \<Rightarrow> 0)"
    using step_run(1) by (simp add: writes_def wrote_def)
  ultimately show ?thesis by blast
next
  case (step_write b res)
  then obtain n where n: "res = WriteOk n" using assms(3) by (auto simp: progress_event_def split: write_result.splits)
  have "thread_step e (r, P) (0, 0, TEnv (SWrite d res)) (put_sess d ms' r, P)"
    using server_write [OF assms(2) step_write(3), of e 0 0 res] step_write(2) by (intro thread_env) simp_all
  moreover have "writes d [(0, 0, TEnv (SWrite d res))] = (case ev of EvWrite _ \<Rightarrow> 1 | _ \<Rightarrow> 0)"
    using step_write(1) n by (simp add: writes_def wrote_def)
  ultimately show ?thesis by blast
qed (use assms(3) in \<open>simp add: progress_event_def\<close>)

lemma session_scheduled:
  assumes "runs (sess_step (flow (r_cfg r))) (r_metrics r, s) es ms" and "heap r d = Some s" and "list_all progress_event es"
  shows "\<exists>evs r'. runs (thread_step e) (r, P) evs (r', P) \<and> heap r' d = Some (snd ms) \<and> r_metrics r' = fst ms \<and> r_cfg r' = r_cfg r \<and>
    writes d evs = length (filter (\<lambda>ev. case ev of EvWrite _ \<Rightarrow> True | _ \<Rightarrow> False) es)"
  using assms(1,3)
proof (induction "(r_metrics r, s)" es ms rule: runs.induct)
  case runs_nil
  from runs.runs_nil [of "thread_step e" "(r, P)"] assms(2) show ?case by (auto simp: writes_def intro!: exI [of _ "[]"])
next
  case (runs_snoc es ms ev ms')
  then obtain evs r' where IH: "runs (thread_step e) (r, P) evs (r', P)" "heap r' d = Some (snd ms)" "r_metrics r' = fst ms" "r_cfg r' = r_cfg r"
    "writes d evs = length (filter (\<lambda>ev. case ev of EvWrite _ \<Rightarrow> True | _ \<Rightarrow> False) es)" by auto
  have "sess_step (flow (r_cfg r')) (r_metrics r', snd ms) ev ms'" "progress_event ev" using runs_snoc(3,4) IH(3,4) by simp_all
  from session_step_scheduled [OF this(1) IH(2) this(2)] obtain tev where
    tev: "thread_step e (r', P) tev (put_sess d ms' r', P)" "writes d [tev] = (case ev of EvWrite _ \<Rightarrow> 1 | _ \<Rightarrow> 0)" by blast
  have "runs (thread_step e) (r, P) (evs @ [tev]) (put_sess d ms' r', P)" by (rule runs.runs_snoc [OF IH(1) tev(1)])
  moreover have "writes d (evs @ [tev]) = length (filter (\<lambda>ev. case ev of EvWrite _ \<Rightarrow> True | _ \<Rightarrow> False) (es @ [ev]))"
    using IH(5) tev(2) by (simp add: writes_def split: sess_event.splits)
  ultimately show ?case using IH(4) by (intro exI [of _ "evs @ [tev]"] exI [of _ "put_sess d ms' r'"]) (simp add: put_sess_def)
qed

lemma two_frames_run:
  assumes "strand s = PostSend a # PostSend b # ts" and "queue s = []" and "sent s = []" and "pending_bytes s = 0" and "\<not> writing s"
    and "\<not> stopped s" and "\<not> kick_pending s" and "length a + length b \<le> unat (high_water_bytes fl)"
    and "high_water_bytes fl \<le> hard_limit_bytes fl"
  shows "\<exists>m' t. runs (sess_step fl) (m, s) [EvRun (PostSend a), EvWrite (WriteOk n), EvRun (PostSend b), EvWrite (WriteOk k)] (m', t) \<and>
    \<not> stopped t \<and> \<not> kick_pending t"
proof -
  have "unat (high_water_bytes fl) \<le> unat (hard_limit_bytes fl)" using assms(9) by (simp add: word_le_nat_alt)
  then have "\<exists>m' t. sess_exec fl [EvRun (PostSend a), EvWrite (WriteOk n), EvRun (PostSend b), EvWrite (WriteOk k)] (m, s) = Some (m', t) \<and>
      \<not> stopped t \<and> \<not> kick_pending t"
    using assms by (simp add: run_send_def do_write_eq Let_def)
  then show ?thesis using sess_exec_runs by blast
qed
lemma wire_lengths:
  "length (pack_wire kMsgServerReply 1 (mp_pack (login_reply 1 2 ''bob'' False \<lparr>effective_mode = kBroadcast, recv_mode_notice = None\<rparr>))) +
   length (pack_wire kMsgDeliver 2 (mp_pack (pack_deliver_envelope ''hi'' 1 1 ''bob'' ''bob''))) \<le> 1000"
proof -
  have "length (pack_wire kMsgServerReply 1 (mp_pack (login_reply 1 2 ''bob'' False \<lparr>effective_mode = kBroadcast, recv_mode_notice = None\<rparr>))) \<le> 500"
    by (simp add: pack_wire_def login_reply_def recv_mode_cstr_def mp_pack_def Let_def)
  moreover have "length (pack_wire kMsgDeliver 2 (mp_pack (pack_deliver_envelope ''hi'' 1 1 ''bob'' ''bob''))) \<le> 500"
    using length_deliver_body [of "''hi''" 1 1 "''bob''" "''bob''"] by (simp add: pack_wire_def Let_def)
  ultimately show ?thesis by simp
qed

lemma nothing_in_flight:
  assumes "relay_inv cf r" and "heap r c = Some s" and "queue s = []" and "\<not> kick_pending s" and "\<not> stopped s"
  shows "pending_bytes s = 0 \<and> \<not> writing s"
  using relay_invD(2) [OF assms(1,2)] assms(3-5) by (auto simp: session_inv_def)

theorem message_on_the_wire_witness:
  "\<exists>evs r P t a fr. heap r 1 = Some t \<and> prefix [a, fr] (sent t) \<and> arrives fr (DeliverEv (delivered 2 ''hi'' 1 1 ''bob'' ''bob'')) \<and>
     runs (thread_step demo_env) (read_loop (demo_env\<lparr>e_now := 9, e_wall := 9\<rparr>) 1
       (stream_input (bytes_of_chars (data_frame 2 ''bob'' ''hi'')) 9) second_run, Map.empty) evs (r, P)"
proof -
  let ?a = "pack_wire kMsgServerReply 1 (mp_pack (login_reply 1 2 ''bob'' False \<lparr>effective_mode = kBroadcast, recv_mode_notice = None\<rparr>))"
  let ?fr = "pack_wire kMsgDeliver 2 (mp_pack (pack_deliver_envelope ''hi'' 1 1 ''bob'' ''bob''))"
  let ?r = "read_loop (demo_env\<lparr>e_now := 9, e_wall := 9\<rparr>) 1 (stream_input (bytes_of_chars (data_frame 2 ''bob'' ''hi'')) 9) second_run"
  note inv = reachable_inv [OF second_run_reachable]
  obtain s where s: "heap second_run 1 = Some s" "logged_in s" "\<not> stopped s" "sock_open s" "username s = ''bob''" "queue s = []" "sent s = []"
    "\<not> kick_pending s" "strand s = [PostSend ?a]"
    using second_run_session by blast
  have cf: "r_cfg second_run = shipped_config"
    using relay_invD(1) [OF inv] by (simp add: shipped_config_def default_config_def default_session_policy_def)
  have ready: "reader_ready (demo_env\<lparr>e_now := 9, e_wall := 9\<rparr>) second_run 1"
    using s second_run_facts cf by (simp add: reader_ready_def the_sess_def demo_env_def shipped_config_def default_config_def)
  have rec: "1 \<in> set (recipients second_run 2)"
    using second_run_facts s cf
    by (simp add: recipients_def list_user_connections_def is_open_def mode_of_def shipped_config_def default_config_def
        default_session_policy_def)
  have len: "length (mp_pack (data_calls ''bob'' ''hi'')) \<le> unat (max_body_len (limits shipped_config))"
    by (simp add: data_calls_def mp_pack_def enc_len_def shipped_config_def default_config_def)
  have flow: "high_water_bytes (flow shipped_config) \<le> hard_limit_bytes (flow shipped_config)" "1000 \<le> unat (high_water_bytes (flow shipped_config))"
    by (simp_all add: shipped_config_def default_config_def)
  have reach: "reachable_threads demo_env shipped_config (?r, Map.empty)"
    by (rule reader_reachable [OF reachable_scheduled [OF second_run_reachable]]) (use second_run_facts in simp_all)
  have inv1: "relay_inv shipped_config ?r" by (rule threads_relay_inv [OF reach]) simp
  have "heap ?r 1 = Some ((touch_heartbeat 9 s)\<lparr>strand := [PostSend ?a, PostSend ?fr, PostSend (data_ack 2)]\<rparr>)"
    using server_relays_heap [OF inv _ _ _ _ s(1,2) ready, of "''bob''" 2 "''hi''" 2 9] rec second_run_facts len s(5,9)
    by (simp add: post_all_def relayed_def demo_env_def touch_heartbeat_def)
  then obtain s1 where s1: "heap ?r 1 = Some s1" "strand s1 = [PostSend ?a, PostSend ?fr, PostSend (data_ack 2)]" "queue s1 = []" "sent s1 = []"
    "\<not> stopped s1" "\<not> kick_pending s1"
    using s by (simp add: touch_heartbeat_def)
  from nothing_in_flight [OF inv1 s1(1,3,6,5)] wire_lengths flow
  obtain m t where t: "runs (sess_step (flow (r_cfg ?r))) (r_metrics ?r, s1) [EvRun (PostSend ?a), EvWrite (WriteOk 0), EvRun (PostSend ?fr), EvWrite (WriteOk 0)] (m, t)"
    "\<not> stopped t" "\<not> kick_pending t"
    using two_frames_run [OF s1(2-4) _ _ s1(5,6), of "flow shipped_config"] relay_invD(1) [OF inv1] by force
  from session_scheduled [OF t(1) s1(1), of demo_env Map.empty]
  obtain evs r' where e: "runs (thread_step demo_env) (?r, Map.empty) evs (r', Map.empty)" "heap r' 1 = Some t" "writes 1 evs = 2"
    by (auto simp: progress_event_def)
  have "visits_all demo_env" by (simp add: visits_all_def demo_env_def)
  from message_on_the_wire [OF reachable_scheduled [OF second_run_reachable] _ _ flow(1) _ _ this _ _ s(1,2) ready _ _ _ len rec s(1,3,8), of "[?a]" _ 2 9 evs r' Map.empty t]
  have "arrives ?fr (DeliverEv (delivered 2 ''hi'' 1 1 ''bob'' ''bob'')) \<and> prefix [?a, ?fr] (sent t)"
    using second_run_facts s(5-7,9) e t(2,3) wire_lengths flow(2) by (simp add: demo_env_def queued_bytes_def)
  with e(1,2) show ?thesis by blast
qed

end
