(* ===== verification/Typed_Payload.thy ===== *)
theory Typed_Payload
  imports End_To_End
begin

text \<open>
  Business values in payloads.  \<^verbatim>\<open>send_typed\<close> and \<^verbatim>\<open>send_poly\<close> pack a value of a type of the caller into an envelope with a type name; the
  receiving library decodes the envelope (\<open>decode_typed\<close>) and \<^verbatim>\<open>TypedPayload::as\<close> converts the object back.
\<close>

text \<open>
  What the library relies on in the caller's adaptor: the value is packed as one object, and this object is converted back to the
  value.
\<close>

definition adapts :: "'a adaptor \<Rightarrow> 'a \<Rightarrow> mobj \<Rightarrow> bool" where
  "adapts ad v ob \<longleftrightarrow> ad_pack ad v = calls ob \<and> wf_obj ob \<and> ad_convert ad ob = Some v"

lemma decode_typed_map:
  assumes "wf_obj (MMap m)" and "typed_fields m None None = (Some ty, Some ob)"
  shows "decode_typed wire_env (mp_pack (calls (MMap m))) = Some \<lparr>tp_type = ty, tp_holder = Some ob\<rparr>"
  using mp.unpack_pack [OF assms(1)] assms(2) by (simp add: decode_typed_def del: calls.simps)

text \<open>The object that is packed for a \<^verbatim>\<open>kind\<close>, an \<^verbatim>\<open>int\<close>.\<close>

definition int_obj :: "int \<Rightarrow> mobj" where
  "int_obj i = (if 0 \<le> i then MPosInt (word_of_int i) else MNegInt i)"

lemma int_obj_calls: "\<lbrakk>- (2 ^ 31) \<le> i; i < 2 ^ 31\<rbrakk> \<Longrightarrow> calls (int_obj i) = [PackInt i] \<and> wf_obj (int_obj i)"
  by (auto simp: int_obj_def uint_word_of_int_eq take_bit_int_eq_self)

lemma typed_envelopes:
  assumes "wf_obj ob" and "length ty < 2 ^ 32" and "- (2 ^ 31) \<le> kind" and "kind < 2 ^ 31"
  shows "decode_typed wire_env (pack_typed_payload wire_env ty ob) = Some \<lparr>tp_type = ty, tp_holder = Some ob\<rparr>"
    and "decode_typed wire_env (mp_pack (poly_calls kind ty (calls ob))) = Some \<lparr>tp_type = ty, tp_holder = Some ob\<rparr>"
proof -
  let ?m = "[(MStr ''type'', MStr ty), (MStr ''data'', ob)]" and ?k = "(MStr ''kind'', int_obj kind)"
  note k = int_obj_calls [OF assms(3,4)]
  have "typed_fields ?m None None = (Some ty, Some ob)" by (cases ob) simp_all
  moreover have "typed_fields (?k # ?m) None None = typed_fields ?m None None" by (simp add: int_obj_def)
  ultimately have "decode_typed wire_env (mp_pack (calls (MMap ?m))) = Some \<lparr>tp_type = ty, tp_holder = Some ob\<rparr>"
    "decode_typed wire_env (mp_pack (calls (MMap (?k # ?m)))) = Some \<lparr>tp_type = ty, tp_holder = Some ob\<rparr>"
    using assms(1,2) k by (simp_all add: decode_typed_map del: calls.simps typed_fields.simps)
  then show "decode_typed wire_env (pack_typed_payload wire_env ty ob) = Some \<lparr>tp_type = ty, tp_holder = Some ob\<rparr>"
    "decode_typed wire_env (mp_pack (poly_calls kind ty (calls ob))) = Some \<lparr>tp_type = ty, tp_holder = Some ob\<rparr>"
    using k by (simp_all add: pack_typed_payload_def poly_calls_def numeral_2_eq_2 numeral_3_eq_3)
qed

subsection \<open>Property\<close>

text \<open>
  C11. A business value survives the way to another client.  What \<^verbatim>\<open>send_typed\<close> sends is a payload, and so is what \<^verbatim>\<open>send_poly\<close> sends; when
  the server delivers either of them, to whichever connection and with whichever names, the receiving library hands out a
  typed payload with the type name, and \<^verbatim>\<open>as\<close> gives back the value.
\<close>

theorem typed_value_roundtrip:
  assumes "adapts ad v ob" and "length ty < 2 ^ 32" and "- (2 ^ 31) \<le> kind" and "kind < 2 ^ 31"
  shows "\<exists>p. (\<forall>dst rc. send_data_typed wire_env ad dst ty v rc = rc_send_data wire_env dst p rc) \<and>
    (\<forall>dst opt c. send_poly_of wire_env ad dst kind ty v opt c = cl_send wire_env dst (mp_pack (poly_calls kind ty (ad_pack ad v))) opt c) \<and>
    (\<forall>payload \<in> {p, mp_pack (poly_calls kind ty (ad_pack ad v))}. \<forall>q src dst su du.
       length payload + length su + length du < 2 ^ 31 \<longrightarrow>
       (\<exists>d tp. arrives (pack_wire kMsgDeliver q (mp_pack (pack_deliver_envelope payload src dst su du))) (DeliverEv d) \<and>
          d_payload d = payload \<and> d_typed d = Some tp \<and> tp_type tp = ty \<and> tp_as ad tp = Inr v))"
proof -
  from assms(1) have ob: "ad_pack ad v = calls ob" "wf_obj ob" "ad_convert ad ob = Some v" by (simp_all add: adapts_def)
  let ?p = "pack_typed_payload wire_env ty ob" and ?tp = "\<lparr>tp_type = ty, tp_holder = Some ob\<rparr>"
  have "pack_typed_payload_of wire_env ad ty v = Inr ?p"
    using mp.unpack_pack [OF ob(2)] by (simp add: pack_typed_payload_of_def ob(1))
  then have "send_data_typed wire_env ad dst ty v rc = rc_send_data wire_env dst ?p rc" for dst rc
    by (simp add: send_data_typed_def)
  moreover have "send_poly_of wire_env ad dst kind ty v opt c = cl_send wire_env dst (mp_pack (poly_calls kind ty (ad_pack ad v))) opt c" for dst opt c
    by (simp add: send_poly_of_def)
  moreover have "\<exists>d tp. arrives (pack_wire kMsgDeliver q (mp_pack (pack_deliver_envelope payload src dst su du))) (DeliverEv d) \<and>
      d_payload d = payload \<and> d_typed d = Some tp \<and> tp_type tp = ty \<and> tp_as ad tp = Inr v"
    if "payload \<in> {?p, mp_pack (poly_calls kind ty (ad_pack ad v))}" "length payload + length su + length du < 2 ^ 31" for payload q src dst su du
  proof (intro exI conjI)
    show "arrives (pack_wire kMsgDeliver q (mp_pack (pack_deliver_envelope payload src dst su du))) (DeliverEv (delivered q payload src dst su du))"
      by (rule deliver_frame_arrives [OF that(2)])
    show "d_typed (delivered q payload src dst su du) = Some ?tp"
      using that(1) typed_envelopes [OF ob(2) assms(2-4)] ob(1) by (auto simp: delivered_def)
    show "tp_as ad ?tp = Inr v" using ob(3) by (simp add: tp_as_def tp_valid_def)
  qed (simp_all add: delivered_def)
  ultimately show ?thesis by blast
qed

text \<open>The adaptor of \<^verbatim>\<open>std::string\<close>.\<close>

definition string_adaptor :: "string adaptor" where
  "string_adaptor = \<lparr>ad_pack = (\<lambda>s. [PackStr s]), ad_convert = convert_str\<rparr>"

theorem typed_value_roundtrip_witness:
  "\<exists>p fr d tp. send_data_typed wire_env string_adaptor ''bob'' ''note'' ''hello'' bob_client = rc_send_data wire_env ''bob'' p bob_client \<and>
     arrives fr (DeliverEv d) \<and> d_typed d = Some tp \<and> tp_as string_adaptor tp = Inr ''hello''"
proof -
  have a: "adapts string_adaptor ''hello'' (MStr ''hello'')" by (simp add: adapts_def string_adaptor_def)
  have l: "length (mp_pack (poly_calls 0 ''note'' (ad_pack string_adaptor ''hello''))) \<le> 100"
    by (simp add: poly_calls_def string_adaptor_def mp_pack_def)
  have "length ''note'' < 2 ^ 32" "- (2 ^ 31) \<le> (0 :: int)" "(0 :: int) < 2 ^ 31" by simp_all
  from typed_value_roundtrip [OF a this] obtain p where
    p: "send_data_typed wire_env string_adaptor ''bob'' ''note'' ''hello'' bob_client = rc_send_data wire_env ''bob'' p bob_client"
    and d: "\<forall>payload \<in> {p, mp_pack (poly_calls 0 ''note'' (ad_pack string_adaptor ''hello''))}. \<forall>q src dst su du.
      length payload + length su + length du < 2 ^ 31 \<longrightarrow>
      (\<exists>d tp. arrives (pack_wire kMsgDeliver q (mp_pack (pack_deliver_envelope payload src dst su du))) (DeliverEv d) \<and>
        d_payload d = payload \<and> d_typed d = Some tp \<and> tp_type tp = ''note'' \<and> tp_as string_adaptor tp = Inr ''hello'')"
    by blast
  from d [rule_format, of "mp_pack (poly_calls 0 ''note'' (ad_pack string_adaptor ''hello''))" "''al''" "''bob''" 7 1 2] l p
  show ?thesis by fastforce
qed

end
