(* ===== verification/Timed_Read.thy ===== *)
theory Timed_Read
  imports Prelude
begin

text \<open>
  \<^verbatim>\<open>read_exact_with_timeout\<close> of \<^verbatim>\<open>main.cpp\<close>: a composed \<^verbatim>\<open>async_read\<close> raced by a detached coroutine that waits
  on a timer and cancels the socket.

  A connection's reader makes one call after the other (header, body, header, ...).  Each call has its own
  \<^verbatim>\<open>done\<close> flag and its own timer coroutine; the coroutine outlives the call, because \<^verbatim>\<open>t->cancel\<close> only ends a
  wait that has begun and has not expired.  Both coroutines run on the executor of the I/O context, which
  \<^verbatim>\<open>main\<close> runs on \<^verbatim>\<open>threads.io\<close> threads, so the test of \<^verbatim>\<open>done\<close> and the \<^verbatim>\<open>sock.cancel\<close> that follows it may be
  separated by steps of the reader; \<open>handler_step\<close> makes them one step, as they are with one thread.  Of Boost.Asio the model has what
  its documentation says: \<^verbatim>\<open>async_read\<close> is a chain of \<^verbatim>\<open>async_read_some\<close> calls that ends when the buffer
  is full or one of them fails; \<^verbatim>\<open>cancel\<close> completes the operations that are outstanding at that moment, with
  \<^verbatim>\<open>operation_aborted\<close>, and has no effect on one whose handler is already queued.

  \<open>Call\<close> takes any positive size, of which the 24 bytes of a header and the length of a body are instances.  The
  model is of a connection that the server itself does not close meanwhile: a \<^verbatim>\<open>socket_.close\<close> by the session's
  stop handler or at the end of a kick, which would end the outstanding operation in the same way as \<^verbatim>\<open>cancel\<close>, is not one of its events.
\<close>

subsection \<open>State\<close>

datatype error_code = operation_aborted | eof | net_error string

datatype read_op =
    NoRead \<comment> \<open>between two calls\<close>
  | Receiving nat bytes \<comment> \<open>size of the buffer and what it holds; an \<^verbatim>\<open>async_read_some\<close> is outstanding\<close>
  | Resuming nat bytes \<comment> \<open>a piece has arrived, its handler is queued\<close>
  | Finished bytes "error_code option" \<comment> \<open>\<^verbatim>\<open>async_read\<close> has completed, \<^verbatim>\<open>done\<close> is not set yet\<close>
  | Stored bytes "error_code option" \<comment> \<open>\<^verbatim>\<open>done\<close> is set, the timer is not cancelled yet\<close>

datatype timer_co =
    Spawned int \<comment> \<open>not started; the expiry of the timer\<close>
  | Waiting int \<comment> \<open>in \<^verbatim>\<open>async_wait\<close>\<close>
  | Fired \<comment> \<open>resumed with \<^verbatim>\<open>tec\<close> clear\<close>
  | Decided \<comment> \<open>has read \<^verbatim>\<open>done\<close> as false\<close>
  | Ended

record read_call =
  c_size :: nat
  c_started :: int
  c_done :: bool
  c_timer :: timer_co
  c_result :: "(bytes \<times> error_code option) option"

record timed_reader =
  tr_now :: int
  tr_read :: read_op
  tr_calls :: "read_call list" \<comment> \<open>every call so far; the last one is the current one\<close>
  tr_stream :: bytes \<comment> \<open>every byte taken from the socket\<close>

definition new_reader :: timed_reader where
  "new_reader = \<lparr>tr_now = 0, tr_read = NoRead, tr_calls = [], tr_stream = []\<rparr>"

datatype read_event =
    Tick nat
  | Call nat
  | Begin nat
  | Fire nat
  | Load nat
  | Cancel nat
  | Data bytes
  | Fail error_code
  | Resume
  | Store
  | Return

subsection \<open>Steps\<close>

text \<open>\<open>read_loop\<close> leaves its loop at the first error, so it only calls again after a success.\<close>

definition succeeded :: "read_call \<Rightarrow> bool" where
  "succeeded c \<longleftrightarrow> (case c_result c of Some (_, None) \<Rightarrow> True | _ \<Rightarrow> False)"

definition upd_call :: "nat \<Rightarrow> (read_call \<Rightarrow> read_call) \<Rightarrow> timed_reader \<Rightarrow> timed_reader" where
  "upd_call k f st = st\<lparr>tr_calls := (tr_calls st)[k := f (tr_calls st ! k)]\<rparr>"

definition timer_of :: "timed_reader \<Rightarrow> nat \<Rightarrow> timer_co" where
  "timer_of st k = (if k < length (tr_calls st) then c_timer (tr_calls st ! k) else Ended)"

definition set_timer :: "nat \<Rightarrow> timer_co \<Rightarrow> timed_reader \<Rightarrow> timed_reader" where
  "set_timer k t = upd_call k (\<lambda>c. c\<lparr>c_timer := t\<rparr>)"

abbreviation current :: "timed_reader \<Rightarrow> nat" where
  "current st \<equiv> length (tr_calls st) - 1"

definition sock_cancel :: "read_op \<Rightarrow> read_op" where
  "sock_cancel op = (case op of Receiving n got \<Rightarrow> Finished got (Some operation_aborted) | _ \<Rightarrow> op)"

definition timer_cancel :: "timer_co \<Rightarrow> timer_co" where
  "timer_cancel t = (case t of Waiting _ \<Rightarrow> Ended | _ \<Rightarrow> t)"

fun read_step :: "int \<Rightarrow> read_event \<Rightarrow> timed_reader \<Rightarrow> timed_reader option" where
  "read_step ms (Tick d) st = Some (st\<lparr>tr_now := tr_now st + int d\<rparr>)"
| "read_step ms (Call n) st =
     (if tr_read st = NoRead \<and> list_all succeeded (tr_calls st) \<and> 0 < n
      then Some (st\<lparr>tr_read := Receiving n [], tr_calls := tr_calls st @
        [\<lparr>c_size = n, c_started = tr_now st, c_done = False, c_timer = Spawned (tr_now st + ms), c_result = None\<rparr>]\<rparr>)
      else None)"
| "read_step ms (Begin k) st = (case timer_of st k of Spawned d \<Rightarrow> Some (set_timer k (Waiting d) st) | _ \<Rightarrow> None)"
| "read_step ms (Fire k) st =
     (case timer_of st k of Waiting d \<Rightarrow> if d \<le> tr_now st then Some (set_timer k Fired st) else None | _ \<Rightarrow> None)"
| "read_step ms (Load k) st =
     (case timer_of st k of
        Fired \<Rightarrow> Some (set_timer k (if c_done (tr_calls st ! k) then Ended else Decided) st)
      | _ \<Rightarrow> None)"
| "read_step ms (Cancel k) st =
     (case timer_of st k of Decided \<Rightarrow> Some (set_timer k Ended (st\<lparr>tr_read := sock_cancel (tr_read st)\<rparr>)) | _ \<Rightarrow> None)"
| "read_step ms (Data bs) st =
     (case tr_read st of
        Receiving n got \<Rightarrow>
          if bs \<noteq> [] \<and> length got + length bs \<le> n
          then Some (st\<lparr>tr_read := Resuming n (got @ bs), tr_stream := tr_stream st @ bs\<rparr>) else None
      | _ \<Rightarrow> None)"
| "read_step ms (Fail er) st =
     (case tr_read st of
        Receiving n got \<Rightarrow> if er \<noteq> operation_aborted then Some (st\<lparr>tr_read := Finished got (Some er)\<rparr>) else None
      | _ \<Rightarrow> None)"
| "read_step ms Resume st =
     (case tr_read st of
        Resuming n got \<Rightarrow> Some (st\<lparr>tr_read := if length got = n then Finished got None else Receiving n got\<rparr>)
      | _ \<Rightarrow> None)"
| "read_step ms Store st =
     (case tr_read st of
        Finished got er \<Rightarrow> Some (upd_call (current st) (\<lambda>c. c\<lparr>c_done := True\<rparr>) (st\<lparr>tr_read := Stored got er\<rparr>))
      | _ \<Rightarrow> None)"
| "read_step ms Return st =
     (case tr_read st of
        Stored got er \<Rightarrow>
          Some (upd_call (current st) (\<lambda>c. c\<lparr>c_timer := timer_cancel (c_timer c), c_result := Some (got, er)\<rparr>)
            (st\<lparr>tr_read := NoRead\<rparr>))
      | _ \<Rightarrow> None)"

abbreviation timed_step :: "int \<Rightarrow> timed_reader \<Rightarrow> read_event \<Rightarrow> timed_reader \<Rightarrow> bool" where
  "timed_step ms st ev st' \<equiv> read_step ms ev st = Some st'"

text \<open>
  With one I/O thread a handler is not interrupted.  Of that only this is kept: the test of \<^verbatim>\<open>done\<close> and the cancellation
  are one step.
\<close>

fun handler_step :: "int \<Rightarrow> read_event \<Rightarrow> timed_reader \<Rightarrow> timed_reader option" where
  "handler_step ms (Load k) st =
     (case read_step ms (Load k) st of
        None \<Rightarrow> None
      | Some st' \<Rightarrow> if timer_of st' k = Decided then read_step ms (Cancel k) st' else Some st')"
| "handler_step ms (Cancel k) st = None"
| "handler_step ms ev st = read_step ms ev st"

lemma tr_upd_call [simp]:
  "tr_now (upd_call k f st) = tr_now st" "tr_read (upd_call k f st) = tr_read st" "tr_stream (upd_call k f st) = tr_stream st"
  "length (tr_calls (upd_call k f st)) = length (tr_calls st)"
  by (simp_all add: upd_call_def)

lemma tr_set_timer [simp]:
  "tr_now (set_timer k t st) = tr_now st" "tr_read (set_timer k t st) = tr_read st" "tr_stream (set_timer k t st) = tr_stream st"
  "length (tr_calls (set_timer k t st)) = length (tr_calls st)"
  by (simp_all add: set_timer_def)

lemma nth_upd_call:
  "j < length (tr_calls st) \<Longrightarrow> tr_calls (upd_call k f st) ! j = (if j = k then f (tr_calls st ! j) else tr_calls st ! j)"
  by (simp add: upd_call_def nth_list_update)

lemma nth_set_timer:
  "j < length (tr_calls st) \<Longrightarrow>
   tr_calls (set_timer k t st) ! j = (if j = k then (tr_calls st ! j)\<lparr>c_timer := t\<rparr> else tr_calls st ! j)"
  by (simp add: set_timer_def nth_upd_call)

lemma timer_of_set_timer [simp]:
  "timer_of (set_timer k t st) j = (if j = k \<and> k < length (tr_calls st) then t else timer_of st j)"
  by (auto simp: timer_of_def nth_set_timer)

lemma timer_of_read [simp]: "timer_of (st\<lparr>tr_read := x\<rparr>) k = timer_of st k"
  by (simp add: timer_of_def)

lemma timer_of_live: "timer_of st k \<noteq> Ended \<Longrightarrow> k < length (tr_calls st)"
  by (simp add: timer_of_def split: if_splits)

subsection \<open>Invariant\<close>

text \<open>What holds of every call.\<close>

definition result_ok :: "read_call \<Rightarrow> bool" where
  "result_ok c \<longleftrightarrow>
     (case c_result c of
        None \<Rightarrow> True
      | Some (bs, er) \<Rightarrow> c_done c \<and> length bs \<le> c_size c \<and> (er = None \<longleftrightarrow> length bs = c_size c))"

fun timer_ok :: "int \<Rightarrow> int \<Rightarrow> timer_co \<Rightarrow> bool" where
  "timer_ok expiry now (Spawned d) \<longleftrightarrow> d = expiry"
| "timer_ok expiry now (Waiting d) \<longleftrightarrow> d = expiry"
| "timer_ok expiry now Fired \<longleftrightarrow> expiry \<le> now"
| "timer_ok expiry now Decided \<longleftrightarrow> expiry \<le> now"
| "timer_ok expiry now Ended \<longleftrightarrow> True"

definition call_ok :: "int \<Rightarrow> int \<Rightarrow> read_call \<Rightarrow> bool" where
  "call_ok ms now c \<longleftrightarrow> c_started c \<le> now \<and> timer_ok (c_started c + ms) now (c_timer c) \<and> result_ok c"

lemma result_ok_timer [simp]: "result_ok (c\<lparr>c_timer := t\<rparr>) = result_ok c"
  by (simp add: result_ok_def split: option.split)

lemma timer_ok_later: "\<lbrakk>timer_ok expiry now t; now \<le> now'\<rbrakk> \<Longrightarrow> timer_ok expiry now' t"
  by (cases t) simp_all

text \<open>The current call and its operation.\<close>

fun op_ok :: "read_op \<Rightarrow> read_call \<Rightarrow> bool" where
  "op_ok NoRead c \<longleftrightarrow> c_result c \<noteq> None"
| "op_ok (Receiving n got) c \<longleftrightarrow> c_result c = None \<and> \<not> c_done c \<and> n = c_size c \<and> length got < n"
| "op_ok (Resuming n got) c \<longleftrightarrow> c_result c = None \<and> \<not> c_done c \<and> n = c_size c \<and> length got \<le> n"
| "op_ok (Finished got er) c \<longleftrightarrow>
     c_result c = None \<and> \<not> c_done c \<and> length got \<le> c_size c \<and> (er = None \<longleftrightarrow> length got = c_size c)"
| "op_ok (Stored got er) c \<longleftrightarrow>
     c_result c = None \<and> c_done c \<and> length got \<le> c_size c \<and> (er = None \<longleftrightarrow> length got = c_size c)"

definition reader_inv :: "int \<Rightarrow> timed_reader \<Rightarrow> bool" where
  "reader_inv ms st \<longleftrightarrow>
     (\<forall>k < length (tr_calls st). call_ok ms (tr_now st) (tr_calls st ! k) \<and>
        (k < current st \<longrightarrow> succeeded (tr_calls st ! k))) \<and>
     (if tr_calls st = [] then tr_read st = NoRead else op_ok (tr_read st) (tr_calls st ! current st))"

lemma reader_inv_new: "reader_inv ms new_reader"
  by (simp add: reader_inv_def new_reader_def)

lemma call_ok_later: "\<lbrakk>call_ok ms now c; now \<le> now'\<rbrakk> \<Longrightarrow> call_ok ms now' c"
  using timer_ok_later by (auto simp: call_ok_def)

lemma op_ok_timer [simp]: "op_ok op (c\<lparr>c_timer := t\<rparr>) = op_ok op c"
  by (cases op) simp_all

lemma succeeded_timer [simp]: "succeeded (c\<lparr>c_timer := t\<rparr>) = succeeded c"
  by (simp add: succeeded_def)

text \<open>A step of a timer coroutine changes the coroutine and perhaps the operation.\<close>

lemma reader_inv_set_timer:
  assumes "reader_inv ms st" and "k < length (tr_calls st)" and "call_ok ms (tr_now st) ((tr_calls st ! k)\<lparr>c_timer := t\<rparr>)"
  shows "reader_inv ms (set_timer k t st)"
proof -
  have ne: "tr_calls st \<noteq> []" using assms(2) by auto
  then have "tr_calls (set_timer k t st) \<noteq> []" by (simp add: set_timer_def upd_call_def)
  with ne assms show ?thesis by (auto simp: reader_inv_def nth_set_timer)
qed

lemma reader_inv_sock_cancel: "reader_inv ms st \<Longrightarrow> reader_inv ms (st\<lparr>tr_read := sock_cancel (tr_read st)\<rparr>)"
  by (auto simp: reader_inv_def sock_cancel_def split: read_op.splits)

lemma call_ok_nth: "\<lbrakk>reader_inv ms st; k < length (tr_calls st)\<rbrakk> \<Longrightarrow> call_ok ms (tr_now st) (tr_calls st ! k)"
  by (simp add: reader_inv_def)

lemma call_ok_set_timer:
  assumes "call_ok ms now c" and "c_timer c = t0"
    and "case t0 of Spawned d \<Rightarrow> t = Waiting d | Waiting d \<Rightarrow> t = Fired \<and> d \<le> now \<or> t = Ended | Fired \<Rightarrow> t \<in> {Ended, Decided} | _ \<Rightarrow> t = Ended"
  shows "call_ok ms now (c\<lparr>c_timer := t\<rparr>)"
  using assms by (auto simp: call_ok_def split: timer_co.splits)

lemma timer_ofD: "\<lbrakk>timer_of st k = t; t \<noteq> Ended\<rbrakk> \<Longrightarrow> k < length (tr_calls st) \<and> c_timer (tr_calls st ! k) = t"
  by (auto simp: timer_of_def split: if_splits)

lemma reader_inv_timers:
  assumes inv: "reader_inv ms st" and "timer_of st k = t0" and "t0 \<noteq> Ended"
    and "case t0 of Spawned d \<Rightarrow> t = Waiting d | Waiting d \<Rightarrow> t = Fired \<and> d \<le> tr_now st \<or> t = Ended | Fired \<Rightarrow> t \<in> {Ended, Decided} | _ \<Rightarrow> t = Ended"
  shows "reader_inv ms (set_timer k t st)"
  using reader_inv_set_timer [OF inv] call_ok_set_timer [OF call_ok_nth [OF inv] _ assms(4)] timer_ofD [OF assms(2,3)] by blast

lemma reader_inv_current:
  assumes inv: "reader_inv ms st" and "tr_read st \<noteq> NoRead" and "op_ok op (f (tr_calls st ! current st))"
    and "call_ok ms (tr_now st) (f (tr_calls st ! current st))"
  shows "reader_inv ms (upd_call (current st) f (st\<lparr>tr_read := op\<rparr>))"
proof -
  have ne: "tr_calls st \<noteq> []" using assms(1,2) by (auto simp: reader_inv_def split: if_splits)
  then have "tr_calls (upd_call (current st) f (st\<lparr>tr_read := op\<rparr>)) \<noteq> []" by (simp add: upd_call_def)
  with ne inv assms(3,4) show ?thesis by (auto simp: reader_inv_def nth_upd_call [of _ "st\<lparr>tr_read := op\<rparr>", simplified])
qed

lemma reader_inv_op: "\<lbrakk>reader_inv ms st; tr_read st \<noteq> NoRead; op_ok op (tr_calls st ! current st)\<rbrakk> \<Longrightarrow> reader_inv ms (st\<lparr>tr_read := op, tr_stream := bs\<rparr>)"
  by (auto simp: reader_inv_def split: if_splits)

lemma reader_inv_op_ok: "\<lbrakk>reader_inv ms st; tr_read st \<noteq> NoRead\<rbrakk> \<Longrightarrow> op_ok (tr_read st) (tr_calls st ! current st) \<and> current st < length (tr_calls st)"
  by (auto simp: reader_inv_def split: if_splits)

lemma call_ok_fresh:
  "call_ok ms now \<lparr>c_size = n, c_started = now, c_done = False, c_timer = Spawned (now + ms), c_result = None\<rparr>"
  by (simp add: call_ok_def result_ok_def)

lemma reader_inv_call:
  assumes "reader_inv ms st" and "read_step ms (Call n) st = Some st'"
  shows "reader_inv ms st'"
  using assms by (auto simp: reader_inv_def nth_append less_Suc_eq list_all_length call_ok_fresh split: if_splits)

lemma reader_inv_step:
  assumes inv: "reader_inv ms st" and st: "timed_step ms st ev st'"
  shows "reader_inv ms st'"
proof (cases ev)
  case (Tick d)
  have "call_ok ms (tr_now st + int d) c" if "call_ok ms (tr_now st) c" for c using that by (rule call_ok_later) simp
  with Tick st inv show ?thesis by (auto simp: reader_inv_def)
next
  case (Call n)
  with reader_inv_call inv st show ?thesis by blast
next
  case (Begin k)
  with st inv show ?thesis by (auto intro!: reader_inv_timers split: timer_co.splits)
next
  case (Fire k)
  with st inv show ?thesis by (auto intro!: reader_inv_timers split: timer_co.splits if_splits)
next
  case (Load k)
  with st inv show ?thesis by (auto intro!: reader_inv_timers split: timer_co.splits if_splits)
next
  case (Cancel k)
  with st inv show ?thesis
    by (auto intro!: reader_inv_timers [where st = "st\<lparr>tr_read := x\<rparr>" for x] reader_inv_sock_cancel split: timer_co.splits if_splits)
next
  case (Data bs)
  with st inv reader_inv_op_ok [OF inv] show ?thesis by (auto intro!: reader_inv_op split: read_op.splits if_splits)
next
  case (Fail er)
  with st reader_inv_op [OF inv, of _ "tr_stream st"] reader_inv_op_ok [OF inv] show ?thesis by (auto split: read_op.splits if_splits)
next
  case Resume
  with st reader_inv_op [OF inv, of _ "tr_stream st"] reader_inv_op_ok [OF inv] show ?thesis by (auto split: read_op.splits if_splits)
next
  case Store
  with st reader_inv_op_ok [OF inv] call_ok_nth [OF inv, of "current st"] show ?thesis
    by (auto intro!: reader_inv_current [OF inv, simplified] split: read_op.splits) (auto simp: call_ok_def result_ok_def)
next
  case Return
  with st reader_inv_op_ok [OF inv] call_ok_nth [OF inv, of "current st"] show ?thesis
    by (auto intro!: reader_inv_current [OF inv, simplified] split: read_op.splits)
      (auto simp: call_ok_def result_ok_def timer_cancel_def split: timer_co.splits)
qed

interpretation tread: inductive_invariant "timed_step ms" "reader_inv ms" for ms
  by unfold_locales (rule reader_inv_step)

subsection \<open>What is read\<close>

definition call_bytes :: "read_call \<Rightarrow> bytes" where
  "call_bytes c = (case c_result c of None \<Rightarrow> [] | Some (bs, _) \<Rightarrow> bs)"

fun op_bytes :: "read_op \<Rightarrow> bytes" where
  "op_bytes NoRead = []"
| "op_bytes (Receiving n got) = got"
| "op_bytes (Resuming n got) = got"
| "op_bytes (Finished got er) = got"
| "op_bytes (Stored got er) = got"

definition stream_inv :: "timed_reader \<Rightarrow> bool" where
  "stream_inv st \<longleftrightarrow> tr_stream st = concat (map call_bytes (tr_calls st)) @ op_bytes (tr_read st)"

lemma map_upd_call:
  assumes "\<And>c. f (g c) = f c"
  shows "map f (tr_calls (upd_call k g st)) = map f (tr_calls st)"
  using assms by (cases "k < length (tr_calls st)") (simp_all add: upd_call_def map_update list_update_same_conv list_update_beyond)

lemma call_bytes_timers [simp]:
  "map call_bytes (tr_calls (set_timer k t st)) = map call_bytes (tr_calls st)"
  by (simp add: set_timer_def map_upd_call call_bytes_def)

lemma op_bytes_cancel [simp]: "op_bytes (sock_cancel op) = op_bytes op"
  by (cases op) (simp_all add: sock_cancel_def)

lemma stream_inv_return:
  assumes "reader_inv ms st" and "stream_inv st" and "timed_step ms st Return st'"
  shows "stream_inv st'"
proof -
  obtain got er where op: "tr_read st = Stored got er" using assms(3) by (auto split: read_op.splits)
  then obtain cs c where cs: "tr_calls st = cs @ [c]" "c_result c = None"
    using assms(1) by (cases "tr_calls st" rule: rev_cases) (auto simp: reader_inv_def)
  with assms(2,3) op show ?thesis by (auto simp: stream_inv_def upd_call_def call_bytes_def)
qed

lemma stream_inv_step:
  assumes "reader_inv ms st \<and> stream_inv st" and "timed_step ms st ev st'"
  shows "reader_inv ms st' \<and> stream_inv st'"
proof -
  have "stream_inv st'"
  proof (cases "ev = Return")
    case True
    then show ?thesis using assms stream_inv_return by blast
  next
    case False
    then show ?thesis using assms
      by (cases ev) (auto simp: stream_inv_def call_bytes_def map_upd_call split: read_op.splits timer_co.splits if_splits)
  qed
  then show ?thesis using reader_inv_step assms by blast
qed

interpretation stream: inductive_invariant "timed_step ms" "\<lambda>st. reader_inv ms st \<and> stream_inv st" for ms
  by unfold_locales (rule stream_inv_step)

lemma stream_inv_new: "stream_inv new_reader"
  by (simp add: stream_inv_def new_reader_def)

subsection \<open>One I/O thread\<close>

abbreviation one_thread :: "int \<Rightarrow> timed_reader \<Rightarrow> read_event \<Rightarrow> timed_reader \<Rightarrow> bool" where
  "one_thread ms st ev st' \<equiv> handler_step ms ev st = Some st'"

text \<open>The error of call \<open>k\<close>, if its operation has completed.\<close>

fun op_error :: "read_op \<Rightarrow> error_code option" where
  "op_error (Finished got er) = er"
| "op_error (Stored got er) = er"
| "op_error _ = None"

definition call_error :: "timed_reader \<Rightarrow> nat \<Rightarrow> error_code option" where
  "call_error st k =
     (case c_result (tr_calls st ! k) of
        Some (_, er) \<Rightarrow> er
      | None \<Rightarrow> if k = current st then op_error (tr_read st) else None)"

lemma handler_step_cases:
  assumes "one_thread ms st ev st'"
  obtains "timed_step ms st ev st'" "\<And>k. ev \<noteq> Cancel k" "\<And>k. ev = Load k \<Longrightarrow> timer_of st' k \<noteq> Decided"
  | k st1 where "ev = Load k" "timed_step ms st (Load k) st1" "timer_of st1 k = Decided" "timed_step ms st1 (Cancel k) st'"
  using assms by (cases ev) (auto simp del: read_step.simps split: option.splits if_splits)

text \<open>What one thread does is one of the schedules of many.\<close>

lemma one_thread_scheduled: "runs (one_thread ms) st es st' \<Longrightarrow> \<exists>es'. runs (timed_step ms) st es' st'"
proof (induction rule: runs.induct)
  case (runs_nil st)
  show ?case by (rule exI) (rule runs.runs_nil)
next
  case (runs_snoc st es t ev u)
  then obtain es' where es': "runs (timed_step ms) st es' t" by blast
  from runs_snoc.hyps(2) show ?case
    by (rule handler_step_cases) (use es' runs.runs_snoc [where step = "timed_step ms"] in meson)+
qed

text \<open>An expired timer of an earlier call finds \<^verbatim>\<open>done\<close> set.\<close>

lemma done_before:
  assumes "reader_inv ms st" and "k < current st"
  shows "c_done (tr_calls st ! k)"
proof -
  have "k < length (tr_calls st)" using assms(2) by simp
  then have "result_ok (tr_calls st ! k)" "succeeded (tr_calls st ! k)" using assms by (auto simp: reader_inv_def call_ok_def)
  then show ?thesis by (auto simp: result_ok_def succeeded_def split: option.splits)
qed

definition one_thread_inv :: "int \<Rightarrow> timed_reader \<Rightarrow> bool" where
  "one_thread_inv ms st \<longleftrightarrow>
     (\<forall>k. timer_of st k \<noteq> Decided) \<and>
     (\<forall>k < length (tr_calls st). call_error st k = Some operation_aborted \<longrightarrow> c_started (tr_calls st ! k) + ms \<le> tr_now st)"

lemma call_error_timers [simp]: "k < length (tr_calls st) \<Longrightarrow> call_error (set_timer j t st) k = call_error st k"
  by (simp add: call_error_def nth_set_timer split: option.split)

lemma one_thread_inv_timers:
  "\<lbrakk>one_thread_inv ms st; t \<noteq> Decided\<rbrakk> \<Longrightarrow> one_thread_inv ms (set_timer k t st)"
  by (auto simp: one_thread_inv_def nth_set_timer)

lemma one_thread_inv_op:
  assumes "one_thread_inv ms st" and "reader_inv ms st" and "tr_read st \<noteq> NoRead" and "op_error op = op_error (tr_read st) \<or> op_error op \<noteq> Some operation_aborted"
  shows "one_thread_inv ms (st\<lparr>tr_read := op, tr_stream := bs\<rparr>)"
  using assms by (auto simp: one_thread_inv_def call_error_def timer_of_def split: option.splits if_splits)

lemma succeeded_iff: "succeeded c \<longleftrightarrow> (\<exists>bs. c_result c = Some (bs, None))"
  by (auto simp: succeeded_def split: option.splits)

lemma one_thread_inv_call:
  assumes "one_thread_inv ms st" and "reader_inv ms st" and "timed_step ms st (Call n) st'"
  shows "one_thread_inv ms st'"
proof -
  have "call_error st' k = None" if "k < length (tr_calls st')" for k
    using that assms(3)
    by (auto simp: call_error_def nth_append less_Suc_eq list_all_length succeeded_iff split: if_splits option.splits)
  moreover have "timer_of st' k \<noteq> Decided" for k
    using assms(1,3) by (auto simp: one_thread_inv_def timer_of_def nth_append split: if_splits)
  ultimately show ?thesis by (simp add: one_thread_inv_def)
qed

lemma one_thread_inv_current:
  assumes inv: "one_thread_inv ms st" "reader_inv ms st" and "tr_read st \<noteq> NoRead"
    and f: "\<And>c. c_timer (f c) = c_timer c \<or> c_timer (f c) = timer_cancel (c_timer c)" "\<And>c. c_started (f c) = c_started c"
    and err: "call_error (upd_call (current st) f (st\<lparr>tr_read := op\<rparr>)) (current st) = call_error st (current st)"
  shows "one_thread_inv ms (upd_call (current st) f (st\<lparr>tr_read := op\<rparr>))"
proof -
  let ?st = "upd_call (current st) f (st\<lparr>tr_read := op\<rparr>)"
  have nth: "tr_calls ?st ! k = (if k = current st then f (tr_calls st ! k) else tr_calls st ! k)" if "k < length (tr_calls st)" for k
    using that by (simp add: nth_upd_call)
  have "call_error ?st k = call_error st k" if "k < length (tr_calls st)" for k
    using that err nth [OF that] by (cases "k = current st") (simp_all add: call_error_def)
  moreover have "timer_of ?st k \<noteq> Decided" for k
    using inv(1) f(1) [of "tr_calls st ! k"] nth [of k]
    by (auto simp: one_thread_inv_def timer_of_def timer_cancel_def split: timer_co.splits if_splits)
  ultimately show ?thesis using inv(1) nth f(2) by (auto simp: one_thread_inv_def)
qed

lemma one_thread_inv_cancel:
  assumes inv: "one_thread_inv ms st" "reader_inv ms st" and "timed_step ms st (Load k) st1" and "timer_of st1 k = Decided"
    and "timed_step ms st1 (Cancel k) st'"
  shows "one_thread_inv ms st'"
proof -
  have k: "timer_of st k = Fired" "\<not> c_done (tr_calls st ! k)" and st1: "st1 = set_timer k Decided st"
    using assms(3,4) by (auto split: timer_co.splits if_splits)
  then have "k < length (tr_calls st)" and c: "c_timer (tr_calls st ! k) = Fired" using timer_ofD by fastforce+
  then have cur: "k = current st" "tr_calls st \<noteq> []" using k(2) done_before [OF inv(2), of k] by fastforce+
  have st': "st' = set_timer k Ended (st1\<lparr>tr_read := sock_cancel (tr_read st1)\<rparr>)" using assms(4,5) by simp
  have "c_started (tr_calls st ! k) + ms \<le> tr_now st"
    using call_ok_nth [OF inv(2) \<open>k < length (tr_calls st)\<close>] c by (simp add: call_ok_def)
  moreover have "call_error st' j = call_error st j" if "j < length (tr_calls st)" "j \<noteq> k" for j
    using that cur unfolding st' st1 by (simp add: call_error_def nth_set_timer set_timer_def upd_call_def)
  moreover have "timer_of st' j \<noteq> Decided" for j using inv(1) \<open>k < length (tr_calls st)\<close> unfolding st' st1
    by (simp add: one_thread_inv_def)
  moreover have "c_started (tr_calls st' ! j) = c_started (tr_calls st ! j)" if "j < length (tr_calls st)" for j
    using that unfolding st' st1 by (simp add: nth_set_timer)
  moreover have "length (tr_calls st') = length (tr_calls st)" "tr_now st' = tr_now st" unfolding st' st1 by simp_all
  ultimately show ?thesis using inv(1) unfolding one_thread_inv_def by metis
qed

lemma one_thread_inv_step:
  assumes "reader_inv ms st \<and> one_thread_inv ms st" and "one_thread ms st ev st'"
  shows "reader_inv ms st' \<and> one_thread_inv ms st'"
  using assms(2)
proof (cases rule: handler_step_cases)
  case 2
  then show ?thesis using assms(1) one_thread_inv_cancel reader_inv_step by meson
next
  case 1
  have inv: "one_thread_inv ms st" "reader_inv ms st" using assms(1) by simp_all
  note op = one_thread_inv_op [OF inv, of _ "tr_stream st", simplified]
  have "one_thread_inv ms st'"
  proof (cases ev)
    case (Call n)
    then show ?thesis using 1 one_thread_inv_call [OF inv] by blast
  next
    case Store
    with 1 inv reader_inv_op_ok [OF inv(2)] show ?thesis
      by (auto intro!: one_thread_inv_current [simplified] simp: call_error_def nth_upd_call split: read_op.splits)
  next
    case Return
    with 1 inv reader_inv_op_ok [OF inv(2)] show ?thesis
      by (auto intro!: one_thread_inv_current [simplified] simp: call_error_def nth_upd_call split: read_op.splits)
  next
    case (Tick d)
    with 1(1) have st': "st' = st\<lparr>tr_now := tr_now st + int d\<rparr>" by simp
    have "call_error st' k = call_error st k" "timer_of st' k = timer_of st k" for k
      by (simp_all add: st' call_error_def timer_of_def split: option.split)
    with inv(1) show ?thesis by (auto simp: one_thread_inv_def st' intro: add_increasing2)
  next
    case (Data bs)
    with 1 inv show ?thesis by (auto intro!: one_thread_inv_op split: read_op.splits if_splits)
  next
    case (Load k)
    with 1 inv timer_of_live [of st k] show ?thesis by (auto intro!: one_thread_inv_timers split: timer_co.splits if_splits)
  qed (use 1 op in \<open>auto intro!: one_thread_inv_timers [OF inv(1)] split: read_op.splits timer_co.splits if_splits\<close>)
  then show ?thesis using 1 inv reader_inv_step by blast
qed

interpretation one: inductive_invariant "one_thread ms" "\<lambda>st. reader_inv ms st \<and> one_thread_inv ms st" for ms
  by unfold_locales (rule one_thread_inv_step)

lemma one_thread_inv_new: "one_thread_inv ms new_reader"
  by (simp add: one_thread_inv_def new_reader_def timer_of_def)

subsection \<open>A silent peer\<close>

text \<open>Neither bytes nor an error come from the network.\<close>

definition silent :: "read_event \<Rightarrow> bool" where
  "silent ev \<longleftrightarrow> (case ev of Data _ \<Rightarrow> False | Fail _ \<Rightarrow> False | _ \<Rightarrow> True)"

definition is_tick :: "read_event \<Rightarrow> bool" where
  "is_tick ev \<longleftrightarrow> (case ev of Tick _ \<Rightarrow> True | _ \<Rightarrow> False)"

text \<open>The handlers that are still to run: of the timer coroutines and of the reader.\<close>

fun timer_work :: "timer_co \<Rightarrow> nat" where
  "timer_work (Spawned d) = 4"
| "timer_work (Waiting d) = 3"
| "timer_work Fired = 2"
| "timer_work Decided = 1"
| "timer_work Ended = 0"

fun op_work :: "read_op \<Rightarrow> nat" where
  "op_work NoRead = 0"
| "op_work (Receiving n got) = 3"
| "op_work (Resuming n got) = 4"
| "op_work (Finished got er) = 2"
| "op_work (Stored got er) = 1"

definition work :: "timed_reader \<Rightarrow> nat" where
  "work st = sum_list (map (timer_work \<circ> c_timer) (tr_calls st)) + op_work (tr_read st)"

text \<open>
  The states of a call that has received \<open>got\<close> and will receive no more: it waits and its timer coroutine has not
  ended, or it has been aborted.
\<close>

definition doomed :: "nat \<Rightarrow> bytes \<Rightarrow> timed_reader \<Rightarrow> bool" where
  "doomed k got st \<longleftrightarrow> length (tr_calls st) = Suc k \<and>
     ((\<exists>n. tr_read st = Receiving n got) \<and> timer_of st k \<noteq> Ended \<or>
      tr_read st \<in> {Finished got (Some operation_aborted), Stored got (Some operation_aborted)} \<or>
      tr_read st = NoRead \<and> c_result (tr_calls st ! k) = Some (got, Some operation_aborted))"

lemma doomed_step:
  assumes "reader_inv ms st" and "doomed k got st" and "timed_step ms st ev st'" and "silent ev"
  shows "doomed k got st'"
proof (cases ev)
  case (Call n)
  with assms(2,3) have "c_result (tr_calls st ! k) = Some (got, Some operation_aborted)" "succeeded (tr_calls st ! k)"
    by (auto simp: doomed_def list_all_length split: if_splits)
  then show ?thesis by (simp add: succeeded_def)
next
  case (Load j)
  have "\<not> c_done (tr_calls st ! k)" if "tr_read st = Receiving n got" for n
    using assms(1,2) that by (auto simp: doomed_def reader_inv_def split: if_splits)
  with Load assms show ?thesis
    by (auto simp: doomed_def nth_set_timer silent_def split: timer_co.splits if_splits)
qed (use assms in \<open>auto simp: doomed_def nth_set_timer nth_upd_call silent_def sock_cancel_def timer_of_def
  split: timer_co.splits read_op.splits if_splits\<close>)

lemma sum_list_update_less:
  fixes xs :: "nat list"
  shows "\<lbrakk>k < length xs; y < xs ! k\<rbrakk> \<Longrightarrow> sum_list (xs[k := y]) < sum_list xs"
  by (induction xs arbitrary: k) (auto split: nat.splits)

lemma sum_list_update_le:
  fixes xs :: "nat list"
  shows "\<lbrakk>k < length xs; y \<le> xs ! k\<rbrakk> \<Longrightarrow> sum_list (xs[k := y]) \<le> sum_list xs"
  by (induction xs arbitrary: k) (auto split: nat.splits)

lemma work_set_timer:
  assumes "k < length (tr_calls st)" and "timer_work t < timer_work (c_timer (tr_calls st ! k))"
  shows "work (set_timer k t st) < work st"
  using sum_list_update_less [of k "map (timer_work \<circ> c_timer) (tr_calls st)" "timer_work t"] assms
  by (simp add: work_def set_timer_def upd_call_def map_update)

lemma work_op: "op_work op < op_work (tr_read st) \<Longrightarrow> work (st\<lparr>tr_read := op\<rparr>) < work st"
  by (simp add: work_def)

lemma work_upd_call:
  assumes "k < length (tr_calls st)" and "timer_work (c_timer (f (tr_calls st ! k))) \<le> timer_work (c_timer (tr_calls st ! k))"
  shows "work (upd_call k f st) \<le> work st"
  using sum_list_update_le [of k "map (timer_work \<circ> c_timer) (tr_calls st)" "timer_work (c_timer (f (tr_calls st ! k)))"] assms
  by (simp add: work_def upd_call_def map_update)

lemma timer_work_cancel: "timer_work (timer_cancel t) \<le> timer_work t"
  by (cases t) (simp_all add: timer_cancel_def)

lemma op_work_cancel: "op_work (sock_cancel op) \<le> op_work op"
  by (cases op) (simp_all add: sock_cancel_def)

lemma work_step:
  assumes "reader_inv ms st" and "timed_step ms st ev st'" and "\<not> is_tick ev" and "silent ev" and "\<And>n. ev \<noteq> Call n"
  shows "work st' < work st"
proof -
  have t: "work (set_timer k t st) < work st" if "timer_of st k = t0" "timer_work t < timer_work t0" for k t t0
    using that timer_ofD [of st k t0] work_set_timer [of k st t] by fastforce
  show ?thesis
  proof (cases ev)
    case (Cancel k)
    have "work (set_timer k Ended (st\<lparr>tr_read := sock_cancel (tr_read st)\<rparr>)) \<le> work (set_timer k Ended st)"
      using op_work_cancel [of "tr_read st"] by (simp add: work_def set_timer_def upd_call_def)
    with Cancel assms(2) t [of k Decided Ended] show ?thesis by (auto split: timer_co.splits)
  next
    case Store
    with assms(2) reader_inv_op_ok [OF assms(1)] show ?thesis
      by (auto split: read_op.splits intro!: le_less_trans [OF work_upd_call work_op])
  next
    case Return
    with assms(2) reader_inv_op_ok [OF assms(1)] timer_work_cancel show ?thesis
      by (auto split: read_op.splits intro!: le_less_trans [OF work_upd_call work_op])
  qed (use assms t in \<open>auto intro!: work_op simp: is_tick_def silent_def split: timer_co.splits read_op.splits if_splits\<close>)
qed

lemma doomed_no_call: "\<lbrakk>doomed k got st; timed_step ms st (Call n) st'\<rbrakk> \<Longrightarrow> False"
  by (auto simp: doomed_def list_all_length succeeded_iff split: if_splits)

lemma doomed_runs:
  assumes "runs (timed_step ms) st evs st'" and "reader_inv ms st" and "doomed k got st" and "list_all silent evs"
  shows "reader_inv ms st' \<and> doomed k got st' \<and> length (filter (\<lambda>ev. \<not> is_tick ev) evs) + work st' \<le> work st"
  using assms
proof (induction rule: runs.induct)
  case (runs_nil st)
  then show ?case by simp
next
  case (runs_snoc st evs t ev u)
  then have IH: "reader_inv ms t" "doomed k got t" "length (filter (\<lambda>ev. \<not> is_tick ev) evs) + work t \<le> work st" and "silent ev" by auto
  have "reader_inv ms u" "doomed k got u"
    using reader_inv_step [OF IH(1) runs_snoc.hyps(2)] doomed_step [OF IH(1,2) runs_snoc.hyps(2) \<open>silent ev\<close>] by blast+
  moreover have "work u < work t" if "\<not> is_tick ev"
    using work_step [OF IH(1) runs_snoc.hyps(2) that \<open>silent ev\<close>] doomed_no_call [OF IH(2)] runs_snoc.hyps(2) by blast
  moreover have "work u = work t" if "is_tick ev"
    using that runs_snoc.hyps(2) by (auto simp: is_tick_def work_def split: read_event.splits)
  ultimately show ?case using IH(3) by (cases "is_tick ev") auto
qed

text \<open>While the call waits past its deadline, some handler is ready.\<close>

lemma doomed_ready:
  assumes "reader_inv ms st" and "doomed k got st" and "c_started (tr_calls st ! k) + ms \<le> tr_now st"
    and "\<And>ev st'. timed_step ms st ev st' \<Longrightarrow> is_tick ev \<or> \<not> silent ev"
  shows "c_result (tr_calls st ! k) = Some (got, Some operation_aborted)"
proof -
  note stuck = assms(4) [of "Begin k"] assms(4) [of "Fire k"] assms(4) [of "Load k"] assms(4) [of "Cancel k"] assms(4) [of Store] assms(4) [of Return]
  have "tr_read st = NoRead"
  proof (rule ccontr)
    assume "tr_read st \<noteq> NoRead"
    with assms(2) stuck(5,6) have "timer_of st k \<noteq> Ended" by (auto simp: doomed_def silent_def is_tick_def)
    with call_ok_nth [OF assms(1), of k] timer_ofD [of st k] assms(3) stuck(1-4) show False
      by (cases "timer_of st k") (auto simp: call_ok_def silent_def is_tick_def)
  qed
  with assms(2) show ?thesis by (simp add: doomed_def)
qed

subsection \<open>Executable runs\<close>

fun events_run :: "(read_event \<Rightarrow> timed_reader \<Rightarrow> timed_reader option) \<Rightarrow> read_event list \<Rightarrow> timed_reader \<Rightarrow> timed_reader option" where
  "events_run step [] st = Some st"
| "events_run step (ev # evs) st = (case step ev st of None \<Rightarrow> None | Some st' \<Rightarrow> events_run step evs st')"

lemma events_run_runs: "events_run step evs st = Some st' \<Longrightarrow> runs (\<lambda>s ev s'. step ev s = Some s') st evs st'"
  by (induction evs arbitrary: st) (auto intro: runs_nil runs_cons split: option.splits)

text \<open>
  Two I/O threads: the timer of the first call expires and finds \<^verbatim>\<open>done\<close> false; the byte arrives, the first call returns it
  and the second call starts; the timer coroutine goes on with \<^verbatim>\<open>sock.cancel\<close>.
\<close>

definition stale_run :: "nat \<Rightarrow> u8 \<Rightarrow> read_event list" where
  "stale_run ms b = [Call 1, Begin 0, Tick ms, Fire 0, Load 0, Data [b], Resume, Store, Return, Call 1, Cancel 0, Store, Return]"

text \<open>
  One I/O thread: the timer expires while the handler of a first piece is queued; the cancellation finds no
  outstanding operation.
\<close>

definition lost_run :: "nat \<Rightarrow> u8 \<Rightarrow> read_event list" where
  "lost_run ms b = [Call 2, Begin 0, Tick ms, Fire 0, Data [b], Load 0, Resume]"

definition lost_reader :: "nat \<Rightarrow> u8 \<Rightarrow> timed_reader" where
  "lost_reader ms b = \<lparr>tr_now = int ms, tr_read = Receiving 2 [b],
     tr_calls = [\<lparr>c_size = 2, c_started = 0, c_done = False, c_timer = Ended, c_result = None\<rparr>], tr_stream = [b]\<rparr>"

lemmas run_eval = new_reader_def timer_of_def set_timer_def upd_call_def sock_cancel_def timer_cancel_def succeeded_def

lemma lost_reader_runs: "runs (one_thread (int ms)) new_reader (lost_run ms b) (lost_reader ms b)"
  by (rule events_run_runs) (simp add: lost_run_def lost_reader_def run_eval)

text \<open>Once the timer coroutine of the only call has ended, nothing but the network moves the call.\<close>

lemma lost_reader_waits:
  assumes "runs (one_thread ms) st evs st'" and "list_all silent evs"
    and "tr_read st = Receiving n got \<and> length (tr_calls st) = 1 \<and> timer_of st 0 = Ended"
  shows "tr_read st' = Receiving n got \<and> length (tr_calls st') = 1 \<and> timer_of st' 0 = Ended"
  using assms
proof (induction rule: runs.induct)
  case (runs_nil st)
  then show ?case by simp
next
  case (runs_snoc st evs t ev u)
  then have t: "tr_read t = Receiving n got" "length (tr_calls t) = 1" "timer_of t 0 = Ended" and "silent ev" by auto
  have "timer_of t k = Ended" for k using t by (cases k) (auto simp: timer_of_def)
  with t runs_snoc.hyps(2) \<open>silent ev\<close> show ?case by (cases ev) (auto simp: silent_def timer_of_def)
qed

subsection \<open>Properties\<close>

text \<open>
  C17. A timed read returns all or an error.  Whatever the interleaving of the reader, the timer coroutines and the
  network: a call that returned without an error filled its buffer and one that returned an error did not, so
  the tests \<^verbatim>\<open>n != hb.size()\<close> and \<^verbatim>\<open>bn != h.body_len\<close> of the read loop never fire; and the results of the calls, in order, followed by what
  the current call holds are exactly the bytes taken from the socket.
\<close>

theorem timed_read_exact:
  assumes "runs (timed_step ms) new_reader evs st"
  shows "(\<forall>c \<in> set (tr_calls st). \<forall>bs er. c_result c = Some (bs, er) \<longrightarrow>
       length bs \<le> c_size c \<and> (er = None \<longleftrightarrow> length bs = c_size c)) \<and>
     tr_stream st = concat (map call_bytes (tr_calls st)) @ op_bytes (tr_read st)"
proof -
  have inv: "reader_inv ms st" "stream_inv st"
    using stream.inv_runs [OF assms] reader_inv_new stream_inv_new by blast+
  then have "result_ok c" if "c \<in> set (tr_calls st)" for c
    using that by (auto simp: reader_inv_def call_ok_def in_set_conv_nth)
  with inv(2) show ?thesis by (fastforce simp: result_ok_def stream_inv_def)
qed

theorem timed_read_exact_witness:
  "\<exists>st. events_run (read_step 100) [Call 2, Data [7], Resume, Data [8], Resume, Store, Return] new_reader = Some st \<and>
     tr_stream st = concat (map call_bytes (tr_calls st)) @ op_bytes (tr_read st)"
proof -
  obtain st where st: "events_run (read_step 100) [Call 2, Data [7], Resume, Data [8], Resume, Store, Return] new_reader = Some st"
    by (simp add: run_eval)
  from timed_read_exact [OF events_run_runs [OF this]] st show ?thesis by blast
qed

text \<open>
  C18. A silent peer is let go at the read timeout.  Suppose a call waits with some bytes received and its timer coroutine has not
  ended.  If the network brings nothing more, then only boundedly many handlers run, and once they have run
  and the clock has passed the deadline, the call has returned \<^verbatim>\<open>operation_aborted\<close> with the bytes received so far.
\<close>

theorem silent_peer_times_out:
  assumes "runs (timed_step ms) new_reader es st" and "tr_read st = Receiving n got" and "timer_of st (current st) \<noteq> Ended"
    and "runs (timed_step ms) st evs st'" and "list_all silent evs"
  shows "length (filter (\<lambda>ev. \<not> is_tick ev) evs) \<le> work st \<and>
    (c_started (tr_calls st' ! current st) + ms \<le> tr_now st' \<and>
     (\<forall>ev st''. timed_step ms st' ev st'' \<longrightarrow> is_tick ev \<or> \<not> silent ev) \<longrightarrow>
     c_result (tr_calls st' ! current st) = Some (got, Some operation_aborted))"
proof -
  have inv: "reader_inv ms st" using tread.inv_runs [OF assms(1) reader_inv_new] .
  then have "doomed (current st) got st" using assms(2,3) by (auto simp: doomed_def reader_inv_def split: if_splits)
  from doomed_runs [OF assms(4) inv this assms(5)] show ?thesis using doomed_ready by fastforce
qed

definition waiting_reader :: timed_reader where
  "waiting_reader = \<lparr>tr_now = 0, tr_read = Receiving 2 [],
     tr_calls = [\<lparr>c_size = 2, c_started = 0, c_done = False, c_timer = Spawned 100, c_result = None\<rparr>], tr_stream = []\<rparr>"

definition aborted_reader :: timed_reader where
  "aborted_reader = \<lparr>tr_now = 100, tr_read = NoRead,
     tr_calls = [\<lparr>c_size = 2, c_started = 0, c_done = True, c_timer = Ended, c_result = Some ([], Some operation_aborted)\<rparr>], tr_stream = []\<rparr>"

theorem silent_peer_times_out_witness:
  "c_result (tr_calls aborted_reader ! 0) = Some ([], Some operation_aborted)"
proof -
  let ?evs = "[Begin 0, Tick 100, Fire 0, Load 0, Cancel 0, Store, Return]"
  have "runs (timed_step 100) new_reader [Call 2] waiting_reader"
    by (rule events_run_runs) (simp add: run_eval waiting_reader_def)
  moreover have "runs (timed_step 100) waiting_reader ?evs aborted_reader"
    by (rule events_run_runs) (simp add: run_eval waiting_reader_def aborted_reader_def)
  moreover have "is_tick ev \<or> \<not> silent ev" if "timed_step 100 aborted_reader ev st''" for ev st''
    using that by (cases ev) (simp_all add: aborted_reader_def is_tick_def silent_def timer_of_def succeeded_def split: if_splits)
  ultimately show ?thesis
    using silent_peer_times_out [of 100 "[Call 2]" waiting_reader 2 "[]" ?evs aborted_reader]
    by (simp add: waiting_reader_def aborted_reader_def silent_def timer_of_def)
qed

text \<open>
  With one I/O thread no read times out early.  If the test of \<^verbatim>\<open>done\<close> and the cancellation are not interrupted, a call whose
  operation was aborted had been waiting for the whole timeout; timers of earlier calls never abort it.
\<close>

lemma no_premature_timeout:
  assumes "runs (one_thread ms) new_reader evs st" and "k < length (tr_calls st)"
    and "call_error st k = Some operation_aborted"
  shows "c_started (tr_calls st ! k) + ms \<le> tr_now st"
  using one.inv_runs [OF assms(1)] assms(2,3) reader_inv_new one_thread_inv_new by (auto simp: one_thread_inv_def)

text \<open>
  C30. With two I/O threads the timer of one read can abort the next.  For every timeout there is a schedule in which the first call
  returns its byte and the second one, which is a new call with a new timer, is aborted at the very moment it starts: the
  coroutine of the first call had read \<^verbatim>\<open>done\<close> as false and cancels the socket only then.
\<close>

theorem stale_timer_aborts_next_read:
  "\<exists>st. runs (timed_step (int ms)) new_reader (stale_run ms b) st \<and>
     c_result (tr_calls st ! 0) = Some ([b], None) \<and>
     c_result (tr_calls st ! 1) = Some ([], Some operation_aborted) \<and> c_started (tr_calls st ! 1) = tr_now st"
proof -
  obtain st where "events_run (read_step (int ms)) (stale_run ms b) new_reader = Some st"
    "c_result (tr_calls st ! 0) = Some ([b], None)"
    "c_result (tr_calls st ! 1) = Some ([], Some operation_aborted)" "c_started (tr_calls st ! 1) = tr_now st"
    by (simp add: stale_run_def run_eval)
  then show ?thesis using events_run_runs by blast
qed

text \<open>
  C31. A timeout can be lost, even with one I/O thread.  For every timeout there is a run after which a call that has received one
  byte of two waits for the other, its deadline reached, and nothing but the network ends that wait: as long as the peer is
  silent, in every continuation and however much time passes, the call does not return.
\<close>

theorem lost_timeout_waits_forever:
  "runs (one_thread (int ms)) new_reader (lost_run ms b) (lost_reader ms b) \<and>
   tr_read (lost_reader ms b) = Receiving 2 [b] \<and>
   c_started (tr_calls (lost_reader ms b) ! 0) + int ms \<le> tr_now (lost_reader ms b) \<and>
   (\<forall>evs st. list_all silent evs \<and> runs (one_thread (int ms)) (lost_reader ms b) evs st \<longrightarrow> tr_read st = Receiving 2 [b])"
  using lost_reader_runs lost_reader_waits [where st = "lost_reader ms b" and ms = "int ms" and n = 2 and got = "[b]"]
  by (auto simp: lost_reader_def timer_of_def)

theorem lost_timeout_waits_forever_witness:
  "tr_read ((lost_reader 100 7)\<lparr>tr_now := 1000100\<rparr>) = Receiving 2 [7]"
proof -
  have "runs (one_thread 100) (lost_reader 100 7) [Tick 1000000] ((lost_reader 100 7)\<lparr>tr_now := 1000100\<rparr>)"
    by (rule events_run_runs) (simp add: lost_reader_def)
  then show ?thesis using lost_timeout_waits_forever [of 100 7] by (simp add: silent_def)
qed

end
