(* ===== verification/Local_Forwarder.thy ===== *)
theory Local_Forwarder
  imports Admin_Http
begin

text \<open>
  \<^verbatim>\<open>LocalForwarder\<close> and \<^verbatim>\<open>admin_health_ok\<close> of \<^verbatim>\<open>forwarder_sdk.cpp\<close>: a server process started for tests and
  its configuration file.

  The calls to the operating system are inputs (their results) and outputs (the calls themselves,
  in order): \<open>start_inputs\<close> has what \<^verbatim>\<open>pick_free_port\<close>, \<^verbatim>\<open>getpid\<close>, \<^verbatim>\<open>fork\<close> and the waiting loops return, \<open>os_call\<close>
  what is done to files and processes.  An exception is \<open>Some\<close> message.
\<close>

subsection \<open>The configuration file\<close>

fun json_escape_local :: "string \<Rightarrow> string" where
  "json_escape_local [] = []"
| "json_escape_local (c # cs) =
     (if c = CHR 0x5C \<or> c = CHR 0x22 then [CHR 0x5C] else []) @ [c] @ json_escape_local cs"

definition make_temp_config_json :: "string option \<Rightarrow> nat \<Rightarrow> nat \<Rightarrow> string" where
  "make_temp_config_json env_password client_port admin_port =
     (let mpw = (case env_password of Some pw \<Rightarrow> pw | None \<Rightarrow> ''e2etest'')
      in ''{'' @ quoted ''client'' @ '':{'' @ quoted ''listen'' @ '':{'' @ quoted ''host'' @ '':'' @ quoted ''127.0.0.1'' @
         '','' @ quoted ''port'' @ '':'' @ dec_digits client_port @ '','' @ quoted ''backlog'' @ '':1024}},'' @
         quoted ''admin'' @ '':{'' @ quoted ''listen'' @ '':{'' @ quoted ''host'' @ '':'' @ quoted ''127.0.0.1'' @
         '','' @ quoted ''port'' @ '':'' @ dec_digits admin_port @ '','' @ quoted ''backlog'' @ '':128},'' @
         quoted ''events_max'' @ '':200},'' @
         quoted ''threads'' @ '':{'' @ quoted ''io'' @ '':2,'' @ quoted ''biz'' @ '':2},'' @
         quoted ''timeouts'' @ '':{'' @ quoted ''read_ms'' @ '':120000,'' @ quoted ''idle_ms'' @ '':120000},'' @
         quoted ''limits'' @ '':{'' @ quoted ''max_body_len'' @ '':67108864},'' @
         quoted ''metrics'' @ '':{'' @ quoted ''interval_ms'' @ '':3600000},'' @
         quoted ''flow'' @ '':{'' @ quoted ''send_queue'' @ '':{'' @ quoted ''high_water_bytes'' @ '':67108864,'' @
         quoted ''hard_limit_bytes'' @ '':268435456,'' @ quoted ''on_high_water'' @ '':'' @ quoted ''drop'' @ ''}},'' @
         quoted ''session'' @ '':{'' @ quoted ''max_connections_per_user'' @ '':8,'' @
         quoted ''heartbeat_timeout_ms'' @ '':30000,'' @ quoted ''broadcast_max_recipients'' @ '':10000},'' @
         quoted ''mysql'' @ '':{'' @ quoted ''host'' @ '':'' @ quoted ''127.0.0.1'' @ '','' @ quoted ''port'' @ '':3306,'' @
         quoted ''user'' @ '':'' @ quoted ''root'' @ '','' @ quoted ''password'' @ '':'' @ quoted (json_escape_local mpw) @
         '','' @ quoted ''database'' @ '':'' @ quoted ''forwarder_e2e'' @ ''}}'')"

subsection \<open>The server process\<close>

datatype os_call =
    WriteFile string string
  | ForkExec string string
  | Sigterm int
  | Waitpid int
  | RemoveFile string

record lf_inner =
  lf_pid :: int
  lf_cfg_path :: string
  lf_client_port :: u16
  lf_admin_port :: u16

type_synonym local_forwarder = "lf_inner option"

record start_inputs =
  si_client_port :: u16
  si_admin_port :: u16
  si_getpid :: nat
  si_password :: "string option"
  si_write_ok :: bool
  si_exe_dir :: string \<comment> \<open>directory of \<^verbatim>\<open>/proc/self/exe\<close>\<close>
  si_exe_exists :: bool
  si_fork :: int \<comment> \<open>as the parent sees it\<close>
  si_client_attempts :: "bool list" \<comment> \<open>connection attempts within ten seconds\<close>
  si_admin_attempts :: "bool list"

definition resolve_server_executable :: "string \<Rightarrow> bool \<Rightarrow> string + string" where
  "resolve_server_executable dir exists = (if exists then Inr (dir @ ''/asio_forwarder'') else Inl txt_lf_no_exe)"

fun wait_tcp :: "bool list \<Rightarrow> string option" where
  "wait_tcp [] = Some txt_lf_wait"
| "wait_tcp (connected # attempts) = (if connected then None else wait_tcp attempts)"

definition lf_stop :: "local_forwarder \<Rightarrow> local_forwarder \<times> os_call list" where
  "lf_stop lf =
     (case lf of
        None \<Rightarrow> (None, [])
      | Some i \<Rightarrow>
          (None, (if 0 < lf_pid i then [Sigterm (lf_pid i), Waitpid (lf_pid i)] else []) @
                 (if lf_cfg_path i \<noteq> [] then [RemoveFile (lf_cfg_path i)] else [])))"

definition lf_start :: "start_inputs \<Rightarrow> local_forwarder \<Rightarrow> local_forwarder \<times> os_call list \<times> string option" where
  "lf_start inp lf =
     (let (_, os) = lf_stop lf;
          path = ''/tmp/asio_fwd_lcl_'' @ dec_digits (si_getpid inp) @ ''.json'';
          i = \<lparr>lf_pid = - 1, lf_cfg_path = path, lf_client_port = si_client_port inp, lf_admin_port = si_admin_port inp\<rparr>
      in if \<not> si_write_ok inp then (Some i, os, Some txt_lf_write)
         else
           (let os = os @ [WriteFile path (make_temp_config_json (si_password inp) (unat (si_client_port inp)) (unat (si_admin_port inp)))]
            in case resolve_server_executable (si_exe_dir inp) (si_exe_exists inp) of
                 Inl err \<Rightarrow> (Some i, os, Some err)
               | Inr exe \<Rightarrow>
                   (let i = i\<lparr>lf_pid := si_fork inp\<rparr> in
                    if si_fork inp < 0 then (Some i, os, Some txt_lf_fork)
                    else
                      (let os = os @ [ForkExec exe path] in
                       case wait_tcp (si_client_attempts inp) of
                         Some err \<Rightarrow> (Some i, os, Some err)
                       | None \<Rightarrow>
                           (case wait_tcp (si_admin_attempts inp) of Some err \<Rightarrow> (Some i, os, Some err) | None \<Rightarrow> (Some i, os, None))))))"

text \<open>The destructor, the move constructor and the move assignment from another object.\<close>

definition lf_destroy :: "local_forwarder \<Rightarrow> os_call list" where
  "lf_destroy lf = snd (lf_stop lf)"

definition lf_move :: "local_forwarder \<Rightarrow> local_forwarder \<times> local_forwarder" where
  "lf_move other = (other, None)"

definition loopback_host :: string where
  "loopback_host = ''127.0.0.1''"

definition lf_move_assign :: "local_forwarder \<Rightarrow> local_forwarder \<Rightarrow> local_forwarder \<times> local_forwarder \<times> os_call list" where
  "lf_move_assign this other = (case lf_stop this of (_, os) \<Rightarrow> (other, None, os))"

definition lf_running :: "local_forwarder \<Rightarrow> bool" where
  "lf_running lf \<longleftrightarrow> lf \<noteq> None"

definition client_tcp_port :: "local_forwarder \<Rightarrow> u16" where
  "client_tcp_port lf = (case lf of Some i \<Rightarrow> lf_client_port i | None \<Rightarrow> 0)"

definition admin_http_port :: "local_forwarder \<Rightarrow> u16" where
  "admin_http_port lf = (case lf of Some i \<Rightarrow> lf_admin_port i | None \<Rightarrow> 0)"

subsection \<open>The health check\<close>

definition tolower :: "char \<Rightarrow> char" where
  "tolower c = (if 65 \<le> (of_char c :: nat) \<and> (of_char c :: nat) \<le> 90 then char_of ((of_char c :: nat) + 32) else c)"

text \<open>\<open>reply\<close> is what one \<^verbatim>\<open>read_some\<close> of at most 4096 bytes returns; \<open>None\<close> is an exception.\<close>

definition admin_health_ok :: "string option \<Rightarrow> bool" where
  "admin_health_ok reply =
     (case reply of None \<Rightarrow> False | Some buf \<Rightarrow> str_contains ''ok'' (map tolower buf))"

subsection \<open>The configuration file is accepted\<close>

text \<open>Text without control characters: the environment variable the password is taken from.\<close>

definition plain_text :: "string \<Rightarrow> bool" where
  "plain_text s \<longleftrightarrow> list_all (\<lambda>c. 0x20 \<le> (of_char c :: nat)) s"

lemma json_escape_local_plain: "plain_text s \<Longrightarrow> json_escape_local s = json_escape s \<and> page_text s = s"
  by (induction s) (auto simp: plain_text_def page_char_def)

definition temp_config_value :: "string \<Rightarrow> nat \<Rightarrow> nat \<Rightarrow> json" where
  "temp_config_value pw cp ap =
     JObj [(''client'', JObj [(''listen'', JObj [(''host'', JStr ''127.0.0.1''), (''port'', JNum cp), (''backlog'', JNum 1024)])]),
       (''admin'', JObj [(''listen'', JObj [(''host'', JStr ''127.0.0.1''), (''port'', JNum ap), (''backlog'', JNum 128)]),
                         (''events_max'', JNum 200)]),
       (''threads'', JObj [(''io'', JNum 2), (''biz'', JNum 2)]),
       (''timeouts'', JObj [(''read_ms'', JNum 120000), (''idle_ms'', JNum 120000)]),
       (''limits'', JObj [(''max_body_len'', JNum 67108864)]),
       (''metrics'', JObj [(''interval_ms'', JNum 3600000)]),
       (''flow'', JObj [(''send_queue'', JObj [(''high_water_bytes'', JNum 67108864), (''hard_limit_bytes'', JNum 268435456),
                                              (''on_high_water'', JStr ''drop'')])]),
       (''session'', JObj [(''max_connections_per_user'', JNum 8), (''heartbeat_timeout_ms'', JNum 30000),
                           (''broadcast_max_recipients'', JNum 10000)]),
       (''mysql'', JObj [(''host'', JStr ''127.0.0.1''), (''port'', JNum 3306), (''user'', JStr ''root''), (''password'', JStr pw),
                         (''database'', JStr ''forwarder_e2e'')])]"

lemma digit_chars:
  "char_of (48 :: nat) = CHR ''0''" "char_of (49 :: nat) = CHR ''1''" "char_of (50 :: nat) = CHR ''2''" "char_of (51 :: nat) = CHR ''3''"
  "char_of (52 :: nat) = CHR ''4''" "char_of (53 :: nat) = CHR ''5''" "char_of (54 :: nat) = CHR ''6''" "char_of (55 :: nat) = CHR ''7''"
  "char_of (56 :: nat) = CHR ''8''" "char_of (57 :: nat) = CHR ''9''"
  by (simp_all add: char_of_def bit_0)

lemma config_numbers:
  "dec_digits 1024 = ''1024''" "dec_digits 128 = ''128''" "dec_digits 200 = ''200''" "dec_digits 2 = ''2''"
  "dec_digits 120000 = ''120000''" "dec_digits 67108864 = ''67108864''" "dec_digits 3600000 = ''3600000''"
  "dec_digits 268435456 = ''268435456''" "dec_digits 8 = ''8''" "dec_digits 30000 = ''30000''" "dec_digits 10000 = ''10000''"
  "dec_digits 3306 = ''3306''"
  by (simp_all add: dec_digits.simps digit_chars)

lemma temp_config_text:
  "plain_text pw \<Longrightarrow> make_temp_config_json (Some pw) cp ap = render (temp_config_value pw cp ap)"
  by (simp add: make_temp_config_json_def temp_config_value_def config_numbers json_escape_local_plain quoted_def)


text \<open>
  A reference for what Boost.PropertyTree makes of a JSON file: keys joined by dots, every leaf a
  string, \<^verbatim>\<open>get<T>\<close> with a conversion that fails out of range.
\<close>

fun split_dots :: "string \<Rightarrow> string list" where
  "split_dots [] = [[]]"
| "split_dots (c # cs) =
     (if c = CHR ''.'' then [] # split_dots cs
      else (case split_dots cs of w # ws \<Rightarrow> (c # w) # ws | [] \<Rightarrow> [[c]]))"

fun json_at :: "json \<Rightarrow> string list \<Rightarrow> json option" where
  "json_at v [] = Some v"
| "json_at (JObj kvs) (k # ks) = (case map_of kvs k of None \<Rightarrow> None | Some v \<Rightarrow> json_at v ks)"
| "json_at _ (k # ks) = None"

definition json_ptree :: "json \<Rightarrow> ptree" where
  "json_ptree v =
     \<lparr>pt_child = (\<lambda>p. json_at v (split_dots p) \<noteq> None),
      pt_str = (\<lambda>p. case json_at v (split_dots p) of Some (JStr s) \<Rightarrow> Some s | Some (JNum n) \<Rightarrow> Some (dec_digits n) | _ \<Rightarrow> None),
      pt_int = (\<lambda>p. case json_at v (split_dots p) of Some (JNum n) \<Rightarrow> if n < 2 ^ 31 then Some (int n) else None | _ \<Rightarrow> None),
      pt_u32 = (\<lambda>p. case json_at v (split_dots p) of Some (JNum n) \<Rightarrow> if n < 2 ^ 32 then Some (word_of_nat n) else None | _ \<Rightarrow> None)\<rparr>"

definition temp_config :: "string \<Rightarrow> u16 \<Rightarrow> u16 \<Rightarrow> Config" where
  "temp_config pw cp ap = default_config
     \<lparr>client_listen := \<lparr>l_host = ''127.0.0.1'', l_port = cp, l_backlog = 1024\<rparr>,
      admin := \<lparr>a_listen = \<lparr>l_host = ''127.0.0.1'', l_port = ap, l_backlog = 128\<rparr>, events_max = 200\<rparr>,
      timeouts := \<lparr>read_ms = 120000, idle_ms = 120000\<rparr>, metrics_cfg := \<lparr>interval_ms = 3600000\<rparr>,
      mysql := \<lparr>my_host = ''127.0.0.1'', my_port = 3306, my_user = ''root'', my_password = pw, my_database = ''forwarder_e2e''\<rparr>\<rparr>"

lemma u16_range: "p \<noteq> 0 \<Longrightarrow> 1 \<le> unat (p :: u16) \<and> unat p < 65536"
proof -
  assume "p \<noteq> 0"
  then have "0 < unat p" by (simp add: unat_gt_0)
  moreover have "unat p < 65536" by (rule order_less_le_trans [OF unsigned_less]) simp
  ultimately show ?thesis by simp
qed

lemma port_as_u16: "p \<noteq> 0 \<Longrightarrow> as_u16 (int (unat (p :: u16))) n = Inr p"
proof -
  assume "p \<noteq> 0"
  then have "1 \<le> unat p" "unat p < 65536" using u16_range by blast+
  then have "\<not> int (unat p) < 1" "\<not> 65535 < int (unat p)" by linarith+
  then have c: "(int (unat p) < 1 \<or> 65535 < int (unat p)) = False" by blast
  show ?thesis unfolding as_u16_def c if_False by simp
qed

lemma temp_config_tree:
  fixes cp ap :: nat and pw :: string
  assumes "cp < 65536" and "ap < 65536"
  defines "pt \<equiv> json_ptree (temp_config_value pw cp ap)"
  shows "pt_child pt ''client.listen''" "pt_child pt ''mysql''"
    "pt_str pt ''client.listen.host'' = Some ''127.0.0.1''" "pt_int pt ''client.listen.port'' = Some (int cp)"
    "pt_int pt ''client.listen.backlog'' = Some 1024"
    "pt_str pt ''admin.listen.host'' = Some ''127.0.0.1''" "pt_int pt ''admin.listen.port'' = Some (int ap)"
    "pt_int pt ''admin.listen.backlog'' = Some 128" "pt_int pt ''admin.events_max'' = Some 200"
    "pt_int pt ''threads.io'' = Some 2" "pt_int pt ''threads.biz'' = Some 2"
    "pt_int pt ''timeouts.read_ms'' = Some 120000" "pt_int pt ''timeouts.idle_ms'' = Some 120000"
    "pt_u32 pt ''limits.max_body_len'' = Some 67108864" "pt_int pt ''metrics.interval_ms'' = Some 3600000"
    "pt_u32 pt ''flow.send_queue.high_water_bytes'' = Some 67108864" "pt_u32 pt ''flow.send_queue.hard_limit_bytes'' = Some 268435456"
    "pt_str pt ''flow.send_queue.on_high_water'' = Some ''drop''"
    "pt_int pt ''session.max_connections_per_user'' = Some 8" "pt_int pt ''session.heartbeat_timeout_ms'' = Some 30000"
    "pt_int pt ''session.broadcast_max_recipients'' = Some 10000"
    "pt_str pt ''mysql.host'' = Some ''127.0.0.1''" "pt_int pt ''mysql.port'' = Some 3306" "pt_str pt ''mysql.user'' = Some ''root''"
    "pt_str pt ''mysql.password'' = Some pw" "pt_str pt ''mysql.database'' = Some ''forwarder_e2e''"
  using assms(1,2) by (simp_all add: pt_def json_ptree_def temp_config_value_def)

lemma load_temp_config:
  assumes "cp \<noteq> 0" and "ap \<noteq> 0"
  shows "load_config (json_ptree (temp_config_value pw (unat cp) (unat ap))) = Inr (temp_config pw cp ap)"
proof -
  have "unat cp < 65536" "unat ap < 65536" using u16_range assms by blast+
  note tree = temp_config_tree [OF this, of pw]
  have m: "as_u16 3306 n = Inr 3306" for n by (simp add: as_u16_def)
  show ?thesis
    by (simp only: load_config_def load_listen_def or_default_def tree append.simps Let_def if_True option.case sum.case simp_thms
        port_as_u16 [OF assms(1)] port_as_u16 [OF assms(2)] m)
      (simp add: check_config_def kMaxBodyLenCap_def temp_config_def default_config_def default_session_policy_def)
qed
text \<open>
  C39. The server accepts the file the library writes for it.  For every pair of ports and every password
  without control characters, the generated text is well-formed JSON, and the tree read from it
  loads as the configuration with these ports and this password, which passes every check.
\<close>

theorem generated_config_accepted:
  assumes "cp \<noteq> 0" and "ap \<noteq> 0" and "plain_text pw"
  shows "\<exists>v. json_parse (make_temp_config_json (Some pw) (unat cp) (unat ap)) = Some v \<and>
    load_config (json_ptree v) = Inr (temp_config pw cp ap)"
proof -
  have "page_value (temp_config_value pw (unat cp) (unat ap)) = temp_config_value pw (unat cp) (unat ap)"
    using json_escape_local_plain [OF assms(3)] by (simp add: temp_config_value_def page_char_def)
  with temp_config_text [OF assms(3)] load_temp_config [OF assms(1,2)] show ?thesis by (simp add: json_parse_render)
qed

theorem generated_config_accepted_witness:
  "\<exists>v. json_parse (make_temp_config_json (Some [CHR ''a'', CHR 0x22, CHR 0x5C]) 40001 40002) = Some v \<and>
    load_config (json_ptree v) = Inr (temp_config [CHR ''a'', CHR 0x22, CHR 0x5C] 40001 40002)"
  using generated_config_accepted [of 40001 40002 "[CHR ''a'', CHR 0x22, CHR 0x5C]"] by (simp add: plain_text_def)

subsection \<open>Starting and stopping\<close>

text \<open>Whatever happened in \<^verbatim>\<open>start\<close>, \<^verbatim>\<open>stop\<close> removes the file and terminates and reaps the process.\<close>

lemma stop_cleans_up:
  assumes "lf_start inp lf = (lf1, os, err)" and "si_fork inp \<noteq> 0"
  shows "fst (lf_stop lf1) = None \<and>
    (\<forall>path text. WriteFile path text \<in> set os \<longrightarrow> RemoveFile path \<in> set (snd (lf_stop lf1))) \<and>
    (\<forall>exe path. ForkExec exe path \<in> set os \<longrightarrow>
       {Sigterm (si_fork inp), Waitpid (si_fork inp)} \<subseteq> set (snd (lf_stop lf1)))"
  using assms
  by (auto simp: lf_start_def lf_stop_def resolve_server_executable_def Let_def split: option.splits if_splits)

text \<open>
  After a failed \<^verbatim>\<open>start\<close> the object still reports \<^verbatim>\<open>running()\<close>: \<^verbatim>\<open>inner_\<close> is set before the first step that
  can throw.
\<close>

lemma failed_start_reports_running:
  "lf_start inp lf = (lf1, os, Some err) \<Longrightarrow> lf_running lf1"
  by (auto simp: lf_start_def lf_running_def resolve_server_executable_def Let_def split: option.splits if_splits prod.splits)

end
