(* ===== verification/Sha256.thy ===== *)
theory Sha256
  imports Prelude
begin

text \<open>
  \<^verbatim>\<open>sha256.hpp\<close>: the header-only SHA-256.

  The stack buffer \<^verbatim>\<open>buf\<close> of \<^verbatim>\<open>hash_bytes\<close> starts with whatever the stack holds: it is a parameter, and the
  digest does not depend on it.  \<open>sha256_spec\<close> is the textbook definition: pad the message, cut it into
  blocks, fold the compression function over them.
\<close>

unbundle bit_operations_syntax

subsection \<open>The compression function\<close>

definition rotr :: "u32 \<Rightarrow> nat \<Rightarrow> u32" where
  "rotr x n = (drop_bit n x) OR (push_bit (32 - n) x)"

text \<open>The table \<^verbatim>\<open>k\<close>, one list per line of the source.\<close>

definition sha_k :: "u32 list" where
  "sha_k = concat [
     [0x428a2f98, 0x71374491, 0xb5c0fbcf, 0xe9b5dba5, 0x3956c25b, 0x59f111f1, 0x923f82a4, 0xab1c5ed5],
     [0xd807aa98, 0x12835b01, 0x243185be, 0x550c7dc3, 0x72be5d74, 0x80deb1fe, 0x9bdc06a7, 0xc19bf174],
     [0xe49b69c1, 0xefbe4786, 0x0fc19dc6, 0x240ca1cc, 0x2de92c6f, 0x4a7484aa, 0x5cb0a9dc, 0x76f988da],
     [0x983e5152, 0xa831c66d, 0xb00327c8, 0xbf597fc7, 0xc6e00bf3, 0xd5a79147, 0x06ca6351, 0x14292967],
     [0x27b70a85, 0x2e1b2138, 0x4d2c6dfc, 0x53380d13, 0x650a7354, 0x766a0abb, 0x81c2c92e, 0x92722c85],
     [0xa2bfe8a1, 0xa81a664b, 0xc24b8b70, 0xc76c51a3, 0xd192e819, 0xd6990624, 0xf40e3585, 0x106aa070],
     [0x19a4c116, 0x1e376c08, 0x2748774c, 0x34b0bcb5, 0x391c0cb3, 0x4ed8aa4a, 0x5b9cca4f, 0x682e6ff3],
     [0x748f82ee, 0x78a5636f, 0x84c87814, 0x8cc70208, 0x90befffa, 0xa4506ceb, 0xbef9a3f7, 0xc67178f2]]"

definition load_word :: "bytes \<Rightarrow> nat \<Rightarrow> u32" where
  "load_word blk i =
     (push_bit 24 (ucast (blk ! (i * 4)))) OR (push_bit 16 (ucast (blk ! (i * 4 + 1)))) OR
     (push_bit 8 (ucast (blk ! (i * 4 + 2)))) OR ucast (blk ! (i * 4 + 3))"

text \<open>The array \<^verbatim>\<open>w\<close>: the first loop fills 16 words, the second extends it to 64.\<close>

definition extend_word :: "u32 list \<Rightarrow> nat \<Rightarrow> u32 list" where
  "extend_word w i =
     (let s0 = rotr (w ! (i - 15)) 7 XOR rotr (w ! (i - 15)) 18 XOR drop_bit 3 (w ! (i - 15));
          s1 = rotr (w ! (i - 2)) 17 XOR rotr (w ! (i - 2)) 19 XOR drop_bit 10 (w ! (i - 2))
      in w @ [w ! (i - 16) + s0 + w ! (i - 7) + s1])"

definition schedule :: "bytes \<Rightarrow> u32 list" where
  "schedule blk = foldl extend_word (map (load_word blk) [0..<16]) [16..<64]"

type_synonym sha_vars = "u32 \<times> u32 \<times> u32 \<times> u32 \<times> u32 \<times> u32 \<times> u32 \<times> u32"

definition sha_round :: "u32 list \<Rightarrow> sha_vars \<Rightarrow> nat \<Rightarrow> sha_vars" where
  "sha_round w st i =
     (case st of (a, b, c, d, e, f, g, h) \<Rightarrow>
        (let S1 = rotr e 6 XOR rotr e 11 XOR rotr e 25;
             ch = (e AND f) XOR (NOT e AND g);
             t1 = h + S1 + ch + sha_k ! i + w ! i;
             S0 = rotr a 2 XOR rotr a 13 XOR rotr a 22;
             maj = (a AND b) XOR (a AND c) XOR (b AND c);
             t2 = S0 + maj
         in (t1 + t2, a, b, c, d + t1, e, f, g)))"

definition compress_block :: "sha_vars \<Rightarrow> bytes \<Rightarrow> sha_vars" where
  "compress_block st blk =
     (case foldl (sha_round (schedule blk)) st [0..<64] of (a, b, c, d, e, f, g, h) \<Rightarrow>
        (case st of (s0, s1, s2, s3, s4, s5, s6, s7) \<Rightarrow>
           (s0 + a, s1 + b, s2 + c, s3 + d, s4 + e, s5 + f, s6 + g, s7 + h)))"

subsection \<open>Hashing\<close>

definition sha_init :: sha_vars where
  "sha_init = (0x6a09e667, 0xbb67ae85, 0x3c6ef372, 0xa54ff53a, 0x510e527f, 0x9b05688c, 0x1f83d9ab, 0x5be0cd19)"

text \<open>The loop over the full blocks: the state and the final \<^verbatim>\<open>offset\<close>.\<close>

function full_blocks :: "bytes \<Rightarrow> nat \<Rightarrow> sha_vars \<Rightarrow> sha_vars \<times> nat" where
  "full_blocks p offset h =
     (if offset + 64 \<le> length p then full_blocks p (offset + 64) (compress_block h (take 64 (drop offset p)))
      else (h, offset))"
  by pat_completeness auto
termination by (relation "measure (\<lambda>(p, offset, h). length p - offset)") auto

declare full_blocks.simps [simp del]

definition memcpy :: "bytes \<Rightarrow> bytes \<Rightarrow> nat \<Rightarrow> bytes" where
  "memcpy buf src n = take n src @ drop n buf"

definition memset0 :: "bytes \<Rightarrow> nat \<Rightarrow> nat \<Rightarrow> bytes" where
  "memset0 buf at n = take at buf @ replicate n 0 @ drop (at + n) buf"

definition put_bitlen :: "u64 \<Rightarrow> bytes \<Rightarrow> nat \<Rightarrow> bytes" where
  "put_bitlen bitlen buf i = buf[56 + i := ucast (drop_bit (56 - i * 8) bitlen AND 0xFF)]"

definition word_bytes :: "u32 \<Rightarrow> bytes" where
  "word_bytes w = [ucast (drop_bit 24 w AND 0xFF), ucast (drop_bit 16 w AND 0xFF), ucast (drop_bit 8 w AND 0xFF), ucast (w AND 0xFF)]"

definition sha_out :: "sha_vars \<Rightarrow> bytes" where
  "sha_out st = (case st of (s0, s1, s2, s3, s4, s5, s6, s7) \<Rightarrow> concat (map word_bytes [s0, s1, s2, s3, s4, s5, s6, s7]))"

definition hash_bytes :: "bytes \<Rightarrow> bytes \<Rightarrow> bytes" where
  "hash_bytes buf p =
     (let bitlen = word_of_nat (length p) * 8 :: u64;
          (h, offset) = full_blocks p 0 sha_init;
          rem = length p - offset;
          buf = memcpy buf (drop offset p) rem;
          buf = buf[rem := 0x80];
          rem = rem + 1;
          (h, buf) = (if rem \<le> 56 then (h, memset0 buf rem (56 - rem))
                      else (let buf = memset0 buf rem (64 - rem); h = compress_block h buf in (h, memset0 buf 0 56)));
          buf = foldl (put_bitlen bitlen) buf [0..<8]
      in sha_out (compress_block h buf))"

definition hex_digit :: "u8 \<Rightarrow> char" where
  "hex_digit d = ''0123456789abcdef'' ! unat (d AND 0xF)"

definition to_hex :: "bytes \<Rightarrow> string" where
  "to_hex d = concat (map (\<lambda>b. [hex_digit (drop_bit 4 b), hex_digit b]) d)"

definition hash_hex :: "bytes \<Rightarrow> bytes \<Rightarrow> string" where
  "hash_hex buf p = to_hex (hash_bytes buf p)"

subsection \<open>The reference definition\<close>

definition bitlen_bytes :: "nat \<Rightarrow> bytes" where
  "bitlen_bytes n = map (\<lambda>i. ucast (drop_bit (56 - i * 8) (word_of_nat n * 8 :: u64) AND 0xFF)) [0..<8]"

text \<open>The smallest number of zero bytes that fills the last block up to its length field.\<close>

definition sha_pad :: "bytes \<Rightarrow> bytes" where
  "sha_pad p = p @ [0x80] @ replicate ((119 - length p mod 64) mod 64) 0 @ bitlen_bytes (length p)"

fun chunks64 :: "bytes \<Rightarrow> bytes list" where
  "chunks64 p = (if length p < 64 then [] else take 64 p # chunks64 (drop 64 p))"

declare chunks64.simps [simp del]

definition sha256_spec :: "bytes \<Rightarrow> bytes" where
  "sha256_spec p = sha_out (foldl compress_block sha_init (chunks64 (sha_pad p)))"

subsection \<open>The implementation computes it\<close>

lemma chunks64_short [simp]: "length p < 64 \<Longrightarrow> chunks64 p = []"
  by (simp add: chunks64.simps)

lemma chunks64_block: "length b = 64 \<Longrightarrow> chunks64 (b @ p) = b # chunks64 p"
  by (subst chunks64.simps) simp

lemma split_block:
  assumes "length p = 64 * Suc n"
  obtains b r where "p = b @ r" and "length b = 64" and "length r = 64 * n"
  using assms by (intro that [of "take 64 p" "drop 64 p"]) simp_all

lemma full_blocks_prefix:
  assumes "length tail < 64"
  shows "length full = 64 * n \<Longrightarrow>
    full_blocks (pre @ full @ tail) (length pre) h = (foldl compress_block h (chunks64 full), length pre + length full)"
proof (induction n arbitrary: pre full h)
  case 0
  with assms show ?case by (subst full_blocks.simps) simp
next
  case (Suc n)
  from Suc.prems obtain b r where p: "full = b @ r" "length b = 64" "length r = 64 * n" by (rule split_block)
  have "full_blocks (pre @ full @ tail) (length pre) h = full_blocks ((pre @ b) @ r @ tail) (length (pre @ b)) (compress_block h b)"
    using p by (subst full_blocks.simps) simp
  also have "\<dots> = (foldl compress_block (compress_block h b) (chunks64 r), length (pre @ b) + length r)"
    by (rule Suc.IH [OF p(3)])
  finally show ?case using chunks64_block [OF p(2), of r] p by simp
qed

lemma chunks64_append: "length a = 64 * n \<Longrightarrow> chunks64 (a @ b) = chunks64 a @ chunks64 b"
proof (induction n arbitrary: a)
  case (Suc n)
  from Suc.prems obtain c r where p: "a = c @ r" "length c = 64" "length r = 64 * n" by (rule split_block)
  show ?case using Suc.IH [OF p(3)] chunks64_block [OF p(2)] p(1) by simp
qed simp

lemma put_bitlen_prefix:
  assumes "length buf = 64"
  shows "k \<le> 8 \<Longrightarrow> foldl (put_bitlen w) buf [0..<k] =
    take 56 buf @ map (\<lambda>i. ucast (drop_bit (56 - i * 8) w AND 0xFF)) [0..<k] @ drop (56 + k) buf"
proof (induction k)
  case (Suc k)
  then have "drop (56 + k) buf = buf ! (56 + k) # drop (56 + Suc k) buf"
    using assms Cons_nth_drop_Suc [of "56 + k" buf] by simp
  with Suc assms show ?case by (simp add: put_bitlen_def list_update_append)
qed simp

lemma put_bitlen_all:
  "length buf = 64 \<Longrightarrow> foldl (put_bitlen (word_of_nat n * 8)) buf [0..<8] = take 56 buf @ bitlen_bytes n"
  using put_bitlen_prefix [of buf 8 "word_of_nat n * 8"] by (simp add: bitlen_bytes_def)

lemma length_bitlen_bytes [simp]: "length (bitlen_bytes n) = 8"
  by (simp add: bitlen_bytes_def)

text \<open>The last one or two blocks, as the code prepares them in \<^verbatim>\<open>buf\<close>.\<close>

lemma last_buffer:
  assumes "length buf = 64" and "length t < 64"
  shows "(memcpy buf t (length t))[length t := 0x80] = t @ [0x80] @ drop (length t + 1) buf"
proof -
  have "drop (length t) buf = buf ! length t # drop (length t + 1) buf" using assms by (simp add: Cons_nth_drop_Suc)
  then show ?thesis by (simp add: memcpy_def list_update_append)
qed

lemma pad_tail_short:
  assumes "length t + 1 \<le> 56" and "length buf = 64"
  shows "take 56 (memset0 (t @ [0x80] @ drop (length t + 1) buf) (length t + 1) (56 - (length t + 1))) @ bl =
    t @ [0x80] @ replicate (55 - length t) 0 @ bl"
proof -
  have "56 - length t = Suc (55 - length t)" using assms(1) by simp
  with assms show ?thesis by (simp add: memset0_def)
qed

lemma pad_tail_long:
  assumes "length t < 64" and "length buf = 64"
  shows "memset0 (t @ [0x80] @ drop (length t + 1) buf) (length t + 1) (64 - (length t + 1)) = t @ [0x80] @ replicate (63 - length t) 0"
  using assms by (simp add: memset0_def)

definition msg_full :: "bytes \<Rightarrow> bytes" where "msg_full p = take (64 * (length p div 64)) p"

definition msg_tail :: "bytes \<Rightarrow> bytes" where "msg_tail p = drop (64 * (length p div 64)) p"

lemma msg_parts:
  "msg_full p @ msg_tail p = p" "length (msg_full p) = 64 * (length p div 64)"
  "length (msg_tail p) = length p mod 64" "length (msg_tail p) < 64"
  by (simp_all add: msg_full_def msg_tail_def minus_mult_div_eq_mod [symmetric])

lemma full_blocks_msg: "full_blocks p 0 sha_init = (foldl compress_block sha_init (chunks64 (msg_full p)), 64 * (length p div 64))"
  using full_blocks_prefix [OF msg_parts(4) [of p] msg_parts(2) [of p], of "[]" sha_init] msg_parts(1,2) [of p] by simp

text \<open>The padding adds one block to the full blocks, or two.\<close>

lemma sha_pad_blocks:
  fixes p
  defines "t \<equiv> msg_tail p"
  shows "chunks64 (sha_pad p) = chunks64 (msg_full p) @
    (if length t + 1 \<le> 56 then [t @ [0x80] @ replicate (55 - length t) 0 @ bitlen_bytes (length p)]
     else [t @ [0x80] @ replicate (63 - length t) 0, replicate 56 0 @ bitlen_bytes (length p)])"
proof -
  have pad: "sha_pad p = msg_full p @ t @ [0x80] @ replicate ((119 - length t) mod 64) 0 @ bitlen_bytes (length p)"
    unfolding sha_pad_def t_def msg_parts(3) using msg_parts(1) [of p] by (metis append_assoc)
  have l: "length t < 64" unfolding t_def by (rule msg_parts(4))
  note app = chunks64_append [OF msg_parts(2)]
  show ?thesis
  proof (cases "length t + 1 \<le> 56")
    case True
    then have "(119 - length t) mod 64 = 55 - length t" by (simp add: mod_if)
    with True show ?thesis
      using chunks64_block [of "t @ [0x80] @ replicate (55 - length t) 0 @ bitlen_bytes (length p)" "[]"] by (simp add: pad app)
  next
    case False
    then have z: "(119 - length t) mod 64 = (63 - length t) + 56" using l by (simp add: mod_if)
    let ?b1 = "t @ [0x80] @ replicate (63 - length t) 0" and ?b2 = "replicate 56 0 @ bitlen_bytes (length p)"
    have b: "length ?b1 = 64" "length ?b2 = 64" using l by simp_all
    have "sha_pad p = msg_full p @ ?b1 @ ?b2" unfolding pad z replicate_add by simp
    then show ?thesis
      using False app [of p "?b1 @ ?b2"] chunks64_block [OF b(1), of ?b2] chunks64_block [OF b(2), of "[]"] by simp
  qed
qed

text \<open>What the code does after the loop.\<close>

lemma hash_bytes_tail:
  fixes p buf
  defines "t \<equiv> msg_tail p" and "h \<equiv> foldl compress_block sha_init (chunks64 (msg_full p))"
  defines "b \<equiv> t @ [0x80] @ drop (length t + 1) buf"
  assumes "length buf = 64"
  shows "hash_bytes buf p =
     (case (if length t + 1 \<le> 56 then (h, memset0 b (length t + 1) (56 - (length t + 1)))
            else (compress_block h (memset0 b (length t + 1) (64 - (length t + 1))),
                  memset0 (memset0 b (length t + 1) (64 - (length t + 1))) 0 56)) of
        (h, b) \<Rightarrow> sha_out (compress_block h (take 56 b @ bitlen_bytes (length p))))"
proof -
  have t: "length t < 64" "length p - 64 * (length p div 64) = length t" "drop (64 * (length p div 64)) p = t"
    unfolding t_def using msg_parts(4) by (simp_all add: msg_tail_def)
  have buf: "(memcpy buf t (length t))[length t := 0x80] = b" unfolding b_def by (rule last_buffer [OF assms(4) t(1)])
  have "length b = 64" using assms(4) t(1) by (simp add: b_def)
  then show ?thesis
    using put_bitlen_all t buf
    by (simp add: hash_bytes_def full_blocks_msg Let_def memset0_def flip: h_def)
qed

text \<open>
  C38. The hash is SHA-256's construction.  For every message and whatever the stack buffer held before,
  \<^verbatim>\<open>hash_bytes\<close> is the fold of the compression function over the blocks of the padded message; the
  loop and the one- or two-block tail give the same as padding first.  The digest has 32 bytes
  and its text 64 digits.
\<close>

theorem hash_bytes_is_padded_fold:
  assumes "length buf = 64"
  shows "hash_bytes buf p = sha256_spec p \<and> length (hash_bytes buf p) = 32 \<and> length (hash_hex buf p) = 64"
proof -
  let ?t = "msg_tail p"
  have l: "length (sha_out st) = 32" for st by (simp add: sha_out_def word_bytes_def split: prod.splits)
  have "hash_bytes buf p = sha256_spec p"
  proof (cases "length ?t + 1 \<le> 56")
    case True
    then show ?thesis
      using pad_tail_short [OF True assms] by (simp add: sha256_spec_def hash_bytes_tail [OF assms] sha_pad_blocks)
  next
    case False
    then show ?thesis
      using pad_tail_long [OF msg_parts(4) assms]
      by (simp add: sha256_spec_def hash_bytes_tail [OF assms] sha_pad_blocks) (simp add: memset0_def)
  qed
  moreover have "length (to_hex d) = 2 * length d" for d by (induction d) (simp_all add: to_hex_def)
  ultimately show ?thesis using l by (simp add: sha256_spec_def hash_hex_def)
qed

theorem hash_bytes_is_padded_fold_witness:
  "hash_bytes (replicate 64 7) [1, 2, 3] = sha256_spec [1, 2, 3]"
  using hash_bytes_is_padded_fold [of "replicate 64 7" "[1, 2, 3]"] by simp

end
