(* ===== verification/Spec2Isabelle.thy ===== *)
theory Spec2Isabelle
  imports Server_Main Interleaved_Server Account_Race Idle_Race Frame_Types Wire_Delivery Typed_Payload Timed_Read Local_Forwarder Sha256
begin

text \<open>
  A verification development for \<^verbatim>\<open>asio-forwarder\<close>, a message relay in C++: a TCP server
  (\<^verbatim>\<open>src/deliver/server\<close>) to which users log in and through which they send payloads to each other, and
  a client library (\<^verbatim>\<open>src/deliver/client\<close>).

  \<^bold>\<open>The program.\<close>  Every message is a frame: a fixed 24-byte little-endian header (\<^verbatim>\<open>protocol.hpp\<close>, \<^verbatim>\<open>endian.hpp\<close>)
  and a msgpack body.  The server keeps one \<^verbatim>\<open>TcpSession\<close> per connection: its \<^verbatim>\<open>read_loop\<close> coroutine reads
  frames and calls \<^verbatim>\<open>RelayServer::handle_client_frame\<close>, and a send queue on the session's strand writes
  replies and deliveries.  \<^verbatim>\<open>RelayServer\<close> maps users to their connections, authenticates against MySQL
  (\<^verbatim>\<open>MysqlStore\<close>), delivers by the receive mode of the addressee (to all of his connections, or to one
  after the other), evicts the oldest connection of a user who has too many, times out silent
  connections, and offers CONTROL requests to administrators and a read-only HTTP page.
  \<^verbatim>\<open>RelayClient\<close> encodes requests and decodes events over a blocking socket;
  \<^verbatim>\<open>asio_forwarder_client::Client\<close> adds the waiting for acknowledgements and a heartbeat thread;
  \<^verbatim>\<open>LocalForwarder\<close> starts a server process for tests.

  \<^bold>\<open>The theories and the code they model\<close> (paths below \<^verbatim>\<open>src/deliver\<close>)

  \<^item> \<open>Prelude\<close>: byte and word types, list and map lemmas, runs of a step relation and the locales
    \<open>history_invariant\<close> and \<open>inductive_invariant\<close> that every state machine instantiates.
  \<^item> \<open>Endian\<close>, \<open>Protocol\<close>: \<^verbatim>\<open>endian.hpp\<close>, \<^verbatim>\<open>protocol.hpp\<close>, \<^verbatim>\<open>relay_constants.hpp\<close>.  Encoding and decoding of a header
    are inverse.
  \<^item> \<open>Frame_IO\<close>: \<^verbatim>\<open>frame_io.hpp\<close> over arbitrary socket calls with the contracts \<open>byte_source\<close> and \<open>byte_sink\<close>.
    The chunking of the stream is invisible: a packed frame is received as it was.
  \<^item> \<open>Config_Load\<close>: \<^verbatim>\<open>config.hpp\<close>, \<^verbatim>\<open>session_policy.hpp\<close>, \<^verbatim>\<open>load_config_or_throw\<close>.  A loaded configuration is
    within its limits.
  \<^item> \<open>Tcp_Session\<close>: \<^verbatim>\<open>class TcpSession\<close> as a transition system of posted handlers and write completions.
    Frames leave in the order they were accepted, the byte count of the queue is exact and bounded,
    each case of the water marks, and what a kick does to the queue.
  \<^item> \<open>Session_Drain\<close>: progress of the send queue.  A session that is only sending transmits all that is posted to it.
  \<^item> \<open>Timed_Read\<close>: \<^verbatim>\<open>read_exact_with_timeout\<close> and its timer coroutines as a transition system.  A read fills its buffer or
    fails, and a silent peer is let go at the deadline; what goes wrong when the timer fires between the test of \<^verbatim>\<open>done\<close> and the
    cancellation, or between two pieces of a read.
  \<^item> \<open>MsgPack\<close>, \<open>MsgPack_Format\<close>: the body accessors of \<^verbatim>\<open>main.cpp\<close>; msgpack-c by the contract \<open>msgpack_codec\<close>,
    met by the published MessagePack format.
  \<^item> \<open>Mysql_Store\<close>, \<open>Sql_Database\<close>: \<^verbatim>\<open>class MysqlStore\<close> over an arbitrary MySQL client, every error branch
    included; the contract \<open>account_db\<close>, the refinement of the account operations to an abstract table,
    and a reference database with the tables of \<^verbatim>\<open>schema.sql\<close> that meets the contract.
  \<^item> \<open>Relay_State\<close>, \<open>Relay_Routing\<close>, \<open>Relay_Control\<close>: the state of \<^verbatim>\<open>RelayServer\<close>, registration and delivery,
    \<^verbatim>\<open>handle_client_frame\<close> with all CONTROL actions.  A login needs the right credentials or registers exactly its name, it
    evicts exactly the surplus connections, round robin is fair, every request is answered once under its own
    sequence number, only administrators change tables, replies decode to the values sent.
  \<^item> \<open>Relay_Server\<close>: \<^verbatim>\<open>start\<close>, \<^verbatim>\<open>read_loop\<close>, the timers and the transition system \<open>server_step\<close> of the whole server.
    The registration invariant \<open>relay_inv\<close> holds in every reachable state; the timers kick exactly the silent sessions; a bad frame
    ends only its own connection.
  \<^item> \<open>Relay_Programs\<close>, \<open>Relay_Threads\<close>: the same handlers as programs with one action per critical section, database call and
    post, and the transition system \<open>thread_step\<close> of the threads that run them.  Programs that are not interrupted do what the
    handlers of \<open>Relay_Control\<close> and \<open>Relay_Server\<close> do, and \<open>relay_inv\<close> holds between any two actions.
  \<^item> \<open>Interleaved_Server\<close>: what this invariant says about the server under every interleaving: a delivery reaches exactly its recipients, who are
    logged in as the addressee; ended connections are forgotten for good, the receive modes of absent users too; memory is bounded.
  \<^item> \<open>Handler_Effects\<close>: the four ways in which a handler reaches a session, as the contracts \<open>posting_invariant\<close> and, for predicates of single
    sessions, \<open>session_invariant\<close>; what meets them holds under every interleaving.
  \<^item> \<open>Wire_Delivery\<close>: a message on its way from the sender's frame to the recipient's socket, with all threads, sessions and timers
    running: it is written, in its place, after a known number of writes, unless the session is closed meanwhile.
  \<^item> \<open>Frame_Types\<close>: under every interleaving, every frame the server sends is a msgpack map of one of the three types with its documented entries.
  \<^item> \<open>Admin_Http\<close>: the JSON pages.  Whatever bytes user names contain, every page parses to the values the
    server holds, and requests change nothing.
  \<^item> \<open>Server_Main\<close>: \<^verbatim>\<open>log.hpp\<close>, \<^verbatim>\<open>open_listen\<close>, \<^verbatim>\<open>accept_admin\<close>, the tick handlers and \<^verbatim>\<open>main\<close>: every state
    of a server that \<^verbatim>\<open>main\<close> has started has a valid configuration and satisfies \<open>relay_inv\<close>.
  \<^item> \<open>Relay_Client\<close>, \<open>Client_Api\<close>, \<open>Local_Forwarder\<close>: \<^verbatim>\<open>relay_client.hpp\<close>, \<^verbatim>\<open>asio_forwarder_client.hpp\<close>,
    \<^verbatim>\<open>forwarder_sdk.cpp\<close>.  The waiting loops return on finite input, a send waits for its own acknowledgement
    and keeps the deliveries that arrive before it, the generated configuration is accepted by the server.
  \<^item> \<open>End_To_End\<close>: client and server composed.  The bytes of \<^verbatim>\<open>send_data\<close>, read by the server's \<^verbatim>\<open>read_loop\<close>,
    make each recipient's client return the payload with its sender and addressee.
  \<^item> \<open>Login_Flow\<close>: logging in, end to end: the bytes of \<^verbatim>\<open>sign_on\<close> register the session and are answered by the reply on which
    \<^verbatim>\<open>sign_on\<close> returns; and a schedule of the threads in which a delivery overtakes that reply.
  \<^item> \<open>Account_Race\<close>: a schedule in which a login outlives the deletion of its account.
  \<^item> \<open>Idle_Race\<close>: two schedules of an idle timeout, of which one closes the socket under the notification.
  \<^item> \<open>Typed_Payload\<close>: the templates \<^verbatim>\<open>send_typed\<close>, \<^verbatim>\<open>send_poly\<close> and \<^verbatim>\<open>TypedPayload::as\<close>, with the caller's msgpack adaptor as a parameter: a value
    that is sent is the value that is received.
  \<^item> \<open>Sha256\<close>: \<^verbatim>\<open>sha256.hpp\<close>; \<^verbatim>\<open>hash_bytes\<close> is the fold of the compression function over the padded message.
  \<^item> \<open>Text_Literals\<close>: the non-ASCII string literals, byte for byte.

  \<^bold>\<open>Modelling decisions.\<close>
  Code outside the repository is a parameter: msgpack-c, the MySQL client, Boost.Asio's sockets and
  timers, Boost.Beast, Boost.PropertyTree, the system calls and the clocks.  What the code relies on
  is a locale with an interpretation on a concrete model (\<open>chunked\<close>, \<open>chunked_out\<close>, \<open>mp\<close>, \<open>sql\<close>, \<open>wire_input\<close>).
  In \<open>server_step\<close> a handler, and an iteration of \<^verbatim>\<open>read_loop\<close>, is one atomic step with one reading of the clock; \<open>thread_step\<close> has the
  interleavings of the critical sections, database calls and posts inside the handlers, a clock reading for each, the removal of a session and the closing of its
  socket as separate actions, and \<open>server_step\<close> is one of its schedules.  The map \<open>readers\<close> (last activity of each running read loop) stands for the
  local variable of the coroutine; a reader leaves it with \<^verbatim>\<open>remove_session\<close>.  A read of the socket is an arbitrary input of both, so that what
  is proved of them holds for every result \<open>Timed_Read\<close> says a read can have.  Connection
  numbers are 64-bit words and identify a connection as long as they have not wrapped around.  The
  reference database compares names byte by byte, as under a binary collation, and counts the length of a \<^verbatim>\<open>VARCHAR\<close> in bytes; with MySQL's
  default collation names that differ in case are one name, and the length is in characters.  In \<open>Timed_Read\<close> only the timers cancel a read: the server closing the
  socket meanwhile is not one of its events.  An exception is the
  left summand of a result (\<open>Some\<close> message where there is no result).

  \<^bold>\<open>Loops and fuel.\<close>  \<^verbatim>\<open>recv_exact\<close> and \<^verbatim>\<open>send_all\<close> terminate because every successful call makes progress.  The
  waiting loops of the client may wait for ever and are \<^theory_text>\<open>partial_function\<close>s into \<open>option\<close>; the locale
  \<open>finite_input\<close> gives the measure under which they return.  The reference parsers for MessagePack
  and JSON take the length of their input as fuel, and the round trips show that it is enough.  The handlers a session
  or a timed read still has to run are counted by \<open>todo\<close> and \<open>work\<close>, which every step of them decreases.

  \<^bold>\<open>Not modelled.\<close>  \<^verbatim>\<open>pick_free_port\<close> asks the kernel for a port and is an input.  The umbrella
  header only includes other headers.  The text of a log line is modelled, and the lines that
  the timers and the acceptors write; those of sessions and frame handlers, which no other code reads, are not.  \<^verbatim>\<open>src/build\<close> is generated by CMake; \<^verbatim>\<open>src/local\<close> has test programs and scripts.
\<close>

end
